(* ===== verification/P2P_Prelude.thy ===== *)
theory P2P_Prelude
  imports
    Main
    "HOL-Library.Word"
    "HOL-Library.Multiset"
    "HOL-Library.List_Lexorder"
    "HOL-Library.Char_ord"
begin

unbundle bit_operations_syntax

section \<open>Shared vocabulary of the development\<close>

text \<open>
  This theory names the machine types of the C++ sources, the ways a C++ computation can
  leave its function (a value, an exception, \<^verbatim>\<open>std::terminate\<close>, undefined behaviour), the
  byte/character conversions of \<^verbatim>\<open>std::string\<close> and \<^verbatim>\<open>std::vector<byte>\<close>, the big-endian
  reading of byte strings and the decimal printing of \<^verbatim>\<open>std::ostream\<close>.  The lemmas about
  them are collected in the named theorem lists \<open>result_simps\<close> (propagation of errors),
  \<open>byte_simps\<close> (byte/character conversion) and \<open>cpp_defs\<close> (definitions that component
  proofs unfold together).
\<close>

named_theorems result_simps \<open>propagation of errors through the result type\<close>
named_theorems byte_simps \<open>conversions between bytes, characters and numbers\<close>
named_theorems cpp_defs \<open>definitions of a component that its proofs unfold together\<close>

subsection \<open>Machine types\<close>

type_synonym byte = "8 word"
type_synonym bytes = "byte list"
type_synonym u16 = "16 word"
type_synonym u32 = "32 word"
type_synonym size_t = "64 word"

lemma unat_u32_of_nat: "n < 4294967296 \<Longrightarrow> unat (word_of_nat n :: u32) = n"
  by (simp add: unsigned_of_nat take_bit_nat_eq_self)

lemma unat_Suc_u32: "x \<noteq> - 1 \<Longrightarrow> unat (x + 1 :: u32) = Suc (unat x)"
proof -
  assume "x \<noteq> - 1"
  then have "1 + x \<noteq> 0" by (metis add.commute eq_neg_iff_add_eq_0)
  then show ?thesis by (simp add: unatSuc add.commute)
qed

lemma u32_Suc_eq_0: "(n :: u32) + 1 = 0 \<longleftrightarrow> n = - 1"
  by (simp add: eq_neg_iff_add_eq_0)

lemma u32_less_Suc:
  assumes "n < (i :: u32)"
  shows "n + 1 \<noteq> 0 \<and> n + 1 \<le> i"
proof -
  have "n \<noteq> - 1" using assms word_n1_ge [of i] by auto
  then show ?thesis
    using assms by (simp add: u32_Suc_eq_0 word_le_nat_alt word_less_nat_alt unat_Suc_u32)
qed

lemma u32_Suc_le: "n + 1 \<noteq> 0 \<Longrightarrow> n + 1 \<le> i \<Longrightarrow> n < (i :: u32)"
  by (simp add: u32_Suc_eq_0 word_le_nat_alt word_less_nat_alt unat_Suc_u32)

lemma filter_eq_take_nth:
  "(\<And>j. j < length xs \<Longrightarrow> P (xs ! j) \<longleftrightarrow> j < m) \<Longrightarrow> filter P xs = take m xs"
proof (induction xs arbitrary: m)
  case (Cons x xs)
  have "P x \<longleftrightarrow> 0 < m" using Cons.prems [of 0] by simp
  moreover have "P (xs ! j) \<longleftrightarrow> j < m - 1" if "j < length xs" for j
    using Cons.prems [of "Suc j"] that by auto
  then have "filter P xs = take (m - 1) xs" by (rule Cons.IH)
  ultimately show ?case by (cases m) simp_all
qed simp

text \<open>
  Time points of \<^verbatim>\<open>std::chrono::system_clock\<close> count nanoseconds, durations of the sources count
  seconds.  \<^verbatim>\<open>to_time_t\<close> cuts a time point towards zero to whole seconds.
\<close>

type_synonym time_point = int
type_synonym seconds = int

definition ticks :: "seconds \<Rightarrow> int" where
  "ticks s = s * 1000000000"

definition to_time_t :: "time_point \<Rightarrow> seconds" where
  "to_time_t t = (if t < 0 then - (- t div 1000000000) else t div 1000000000)"

definition from_time_t :: "seconds \<Rightarrow> time_point" where
  "from_time_t s = ticks s"

lemma to_time_t_from_time_t [simp]: "to_time_t (from_time_t s) = s"
  by (auto simp: to_time_t_def from_time_t_def ticks_def)

subsection \<open>Results of C++ computations\<close>

text \<open>
  \<^item> \<open>UndefinedBehaviour\<close>: the standard gives the execution no meaning (null or
    past-the-end dereference, out-of-range element access, signed overflow);
  \<^item> \<open>Terminate\<close>: \<^verbatim>\<open>throw;\<close> with no exception being handled, that is \<^verbatim>\<open>std::terminate\<close>;
  \<^item> \<open>IntException\<close>: \<^verbatim>\<open>throw (int)...\<close>;
  \<^item> \<open>SystemError\<close>: \<^verbatim>\<open>std::system_error\<close> with the given error code;
  \<^item> \<open>BadFunctionCall\<close>: the call of an empty \<^verbatim>\<open>std::function\<close>;
  \<^item> \<open>LibraryException\<close>: an exception of a library the sources call, by name.
\<close>

datatype cpp_error =
    UndefinedBehaviour
  | Terminate
  | IntException int
  | SystemError int
  | BadFunctionCall
  | LibraryException string

type_synonym 'a result = "cpp_error + 'a"

definition bind_result :: "'a result \<Rightarrow> ('a \<Rightarrow> 'b result) \<Rightarrow> 'b result" where
  "bind_result r f = (case r of Inl e \<Rightarrow> Inl e | Inr x \<Rightarrow> f x)"

lemma bind_result_Inl [simp, result_simps]: "bind_result (Inl e) f = Inl e"
  by (simp add: bind_result_def)

lemma bind_result_Inr [simp, result_simps]: "bind_result (Inr x) f = f x"
  by (simp add: bind_result_def)

lemma bind_result_eq_Inr_iff [result_simps]:
  "bind_result r f = Inr y \<longleftrightarrow> (\<exists>x. r = Inr x \<and> f x = Inr y)"
  by (cases r) auto

lemma bind_result_eq_Inl_iff [result_simps]:
  "bind_result r f = Inl e \<longleftrightarrow> r = Inl e \<or> (\<exists>x. r = Inr x \<and> f x = Inl e)"
  by (cases r) auto

lemma bind_result_cong [fundef_cong]:
  "\<lbrakk>r = r'; \<And>x. r' = Inr x \<Longrightarrow> f x = g x\<rbrakk> \<Longrightarrow> bind_result r f = bind_result r' g"
  by (cases r') auto

subsection \<open>Bytes and characters\<close>

text \<open>
  \<^verbatim>\<open>std::string\<close> is a \<open>string\<close>, \<^verbatim>\<open>std::vector<Botan::byte>\<close> is \<open>bytes\<close>; the range
  constructors between them convert every element.
\<close>

definition string_of_bytes :: "bytes \<Rightarrow> string" where
  "string_of_bytes bs = map (\<lambda>b. char_of (unat b)) bs"

definition bytes_of_string :: "string \<Rightarrow> bytes" where
  "bytes_of_string s = map (\<lambda>c. word_of_nat (of_char c)) s"

lemma unat_byte_less [simp, byte_simps]: "unat (w :: byte) < 256"
proof -
  have "unat w < 2 ^ LENGTH(8)" by (rule unsigned_less)
  then show ?thesis by simp
qed

lemma char_byte_char [simp, byte_simps]: "char_of (unat (word_of_nat (of_char c) :: byte)) = c"
  by (simp add: unat_of_nat)

lemma byte_of_char_eq_0_iff [simp, byte_simps]:
  "word_of_nat (of_char c) = (0 :: byte) \<longleftrightarrow> c = CHR 0x00"
proof
  assume "word_of_nat (of_char c) = (0 :: byte)"
  then have "char_of (unat (0 :: byte)) = c"
    using char_byte_char [of c] by simp
  then show "c = CHR 0x00" by (simp add: char_of_def)
qed simp

lemma bytes_of_string_of_bytes [simp, byte_simps]: "bytes_of_string (string_of_bytes bs) = bs"
  by (simp add: bytes_of_string_def string_of_bytes_def comp_def)

lemma string_of_bytes_of_string [simp, byte_simps]: "string_of_bytes (bytes_of_string s) = s"
  by (simp add: bytes_of_string_def string_of_bytes_def comp_def)

lemma length_string_of_bytes [simp, byte_simps]: "length (string_of_bytes bs) = length bs"
  by (simp add: string_of_bytes_def)

lemma length_bytes_of_string [simp, byte_simps]: "length (bytes_of_string s) = length s"
  by (simp add: bytes_of_string_def)

lemma string_of_bytes_eq_iff [simp, byte_simps]: "string_of_bytes a = string_of_bytes b \<longleftrightarrow> a = b"
  by (metis bytes_of_string_of_bytes)

lemma bytes_of_string_eq_iff [simp, byte_simps]: "bytes_of_string a = bytes_of_string b \<longleftrightarrow> a = b"
  by (metis string_of_bytes_of_string)

subsection \<open>Positional notation\<close>

text \<open>
  One reading of digit strings serves the base 58 text, the big-endian byte strings and the
  decimal output of streams: \<open>undigits b ds\<close> is the number the digits \<open>ds\<close> (most significant
  first) denote in base \<open>b\<close>, \<open>digits b n\<close> the shortest such digit string.
\<close>

definition undigits :: "nat \<Rightarrow> nat list \<Rightarrow> nat" where
  "undigits b ds = foldl (\<lambda>a d. b * a + d) 0 ds"

fun digits :: "nat \<Rightarrow> nat \<Rightarrow> nat list" where
  "digits b n = (if b \<le> 1 \<or> n = 0 then [] else digits b (n div b) @ [n mod b])"

declare digits.simps [simp del]

lemma undigits_Nil [simp]: "undigits b [] = 0"
  by (simp add: undigits_def)

lemma undigits_snoc [simp]: "undigits b (ds @ [d]) = b * undigits b ds + d"
  by (simp add: undigits_def)

lemma undigits_append: "undigits b (xs @ ys) = undigits b xs * b ^ length ys + undigits b ys"
proof (induction ys rule: rev_induct)
  case Nil
  show ?case by simp
next
  case (snoc y ys)
  then show ?case
    by (simp add: append_assoc [symmetric] del: append_assoc) (simp add: algebra_simps)
qed

lemma undigits_Cons: "undigits b (x # xs) = x * b ^ length xs + undigits b xs"
  using undigits_append [of b "[x]" xs] by (simp add: undigits_def)

lemma undigits_less: "\<forall>d\<in>set ds. d < b \<Longrightarrow> undigits b ds < b ^ length ds"
proof (induction ds)
  case Nil
  show ?case by simp
next
  case (Cons d ds)
  then have "d * b ^ length ds + undigits b ds < (d + 1) * b ^ length ds"
    by simp
  also have "\<dots> \<le> b * b ^ length ds"
    using Cons.prems by (intro mult_right_mono) auto
  finally show ?case
    by (simp add: undigits_Cons)
qed

lemma digits_0 [simp]: "digits b 0 = []"
  by (simp add: digits.simps)

lemma digits_step: "1 < b \<Longrightarrow> 0 < n \<Longrightarrow> digits b n = digits b (n div b) @ [n mod b]"
  by (subst digits.simps) simp

lemma undigits_digits [simp]: "1 < b \<Longrightarrow> undigits b (digits b n) = n"
proof (induction b n rule: digits.induct)
  case (1 b n)
  then show ?case
    by (cases "n = 0") (auto simp: digits_step)
qed

lemma digits_less: "1 < b \<Longrightarrow> d \<in> set (digits b n) \<Longrightarrow> d < b"
proof (induction b n rule: digits.induct)
  case (1 b n)
  then show ?case
    by (cases "n = 0") (auto simp: digits_step)
qed

lemma digits_eq_Nil_iff: "1 < b \<Longrightarrow> digits b n = [] \<longleftrightarrow> n = 0"
  by (subst digits.simps) simp

lemma hd_digits: "1 < b \<Longrightarrow> 0 < n \<Longrightarrow> hd (digits b n) \<noteq> 0"
proof (induction b n rule: digits.induct)
  case (1 b n)
  show ?case
  proof (cases "n < b")
    case True
    with "1.prems" show ?thesis by (simp add: digits_step)
  next
    case False
    with "1.prems" have pos: "0 < n div b"
      by (simp add: div_greater_zero_iff)
    with "1.IH" "1.prems" have "hd (digits b (n div b)) \<noteq> 0"
      by simp
    moreover have "digits b (n div b) \<noteq> []"
      using pos "1.prems" by (simp add: digits_eq_Nil_iff)
    ultimately show ?thesis
      using "1.prems" by (simp add: digits_step)
  qed
qed

lemma length_digits_le: "1 < b \<Longrightarrow> n < b ^ k \<Longrightarrow> length (digits b n) \<le> k"
proof (induction k arbitrary: n)
  case 0
  then show ?case by simp
next
  case (Suc k)
  then have "length (digits b (n div b)) \<le> k"
    by (simp add: less_mult_imp_div_less mult.commute)
  with Suc.prems(1) show ?case
    by (cases "n = 0") (simp_all add: digits_step)
qed

lemma undigits_eq_0_iff: "1 < b \<Longrightarrow> undigits b ds = 0 \<longleftrightarrow> (\<forall>d\<in>set ds. d = 0)"
  by (induction ds) (auto simp: undigits_Cons)

lemma dropWhile_zero_snoc:
  "dropWhile (\<lambda>x. x = (0::nat)) (ds @ [d]) =
     (if \<forall>x\<in>set ds. x = 0 then (if d = 0 then [] else [d]) else dropWhile (\<lambda>x. x = 0) ds @ [d])"
  by (induction ds) auto

lemma digits_undigits:
  "1 < b \<Longrightarrow> \<forall>d\<in>set ds. d < b \<Longrightarrow> digits b (undigits b ds) = dropWhile (\<lambda>x. x = 0) ds"
proof (induction ds rule: rev_induct)
  case Nil
  show ?case by simp
next
  case (snoc d ds)
  then have d: "d < b" and ih: "digits b (undigits b ds) = dropWhile (\<lambda>x. x = 0) ds"
    by simp_all
  show ?case
  proof (cases "b * undigits b ds + d = 0")
    case True
    with snoc.prems(1) have z: "undigits b ds = 0" "d = 0" by auto
    then have "\<forall>x\<in>set ds. x = 0"
      using snoc.prems(1) undigits_eq_0_iff by blast
    then show ?thesis
      by (simp add: z dropWhile_zero_snoc)
  next
    case False
    then have "digits b (b * undigits b ds + d) = dropWhile (\<lambda>x. x = 0) ds @ [d]"
      using snoc.prems(1) d ih by (simp add: digits_step)
    moreover have "(\<forall>x\<in>set ds. x = 0) \<Longrightarrow> dropWhile (\<lambda>x. x = 0) ds = [] \<and> d \<noteq> 0"
      using False snoc.prems(1) by (auto simp: undigits_eq_0_iff [symmetric])
    ultimately show ?thesis
      by (cases "\<forall>x\<in>set ds. x = 0") (simp_all add: dropWhile_zero_snoc)
  qed
qed

text \<open>Big-endian byte strings: the number they denote and the shortest string for a number.\<close>

definition be_value :: "bytes \<Rightarrow> nat" where
  "be_value bs = undigits 256 (map unat bs)"

definition be_bytes :: "nat \<Rightarrow> bytes" where
  "be_bytes n = map word_of_nat (digits 256 n)"

lemma map_unat_be_bytes: "map unat (be_bytes n) = digits 256 n"
proof -
  have "map (\<lambda>d. unat (word_of_nat d :: byte)) (digits 256 n) = map (\<lambda>d. d) (digits 256 n)"
    by (rule map_cong) (auto simp: unat_of_nat dest: digits_less [rotated])
  then show ?thesis
    by (simp add: be_bytes_def comp_def)
qed

lemma be_value_be_bytes [simp]: "be_value (be_bytes n) = n"
  by (simp add: be_value_def map_unat_be_bytes)

lemma be_bytes_be_value: "be_bytes (be_value bs) = dropWhile (\<lambda>x. x = 0) bs"
proof -
  have "digits 256 (be_value bs) = dropWhile (\<lambda>x. x = 0) (map unat bs)"
    unfolding be_value_def by (rule digits_undigits) auto
  also have "\<dots> = map unat (dropWhile (\<lambda>x. x = 0) bs)"
    by (simp add: dropWhile_map comp_def unat_eq_0)
  finally show ?thesis
    by (simp add: be_bytes_def comp_def)
qed

lemma be_value_replicate_0 [simp]: "be_value (replicate n 0 @ bs) = be_value bs"
  by (induction n) (auto simp: be_value_def undigits_Cons)

lemma be_value_less: "be_value bs < 256 ^ length bs"
  using undigits_less [of "map unat bs" 256] by (simp add: be_value_def)

lemma length_be_bytes_le: "n < 256 ^ k \<Longrightarrow> length (be_bytes n) \<le> k"
  by (simp add: be_bytes_def length_digits_le)

text \<open>Four bytes, most significant first, as one 32-bit word.\<close>

definition word_of_be4 :: "byte \<Rightarrow> byte \<Rightarrow> byte \<Rightarrow> byte \<Rightarrow> u32" where
  "word_of_be4 v0 v1 v2 v3 =
     push_bit 24 (ucast v0) OR push_bit 16 (ucast v1) OR push_bit 8 (ucast v2) OR ucast v3"

definition be4_of_word :: "u32 \<Rightarrow> bytes" where
  "be4_of_word w =
     [ucast (drop_bit 24 w), ucast (drop_bit 16 w), ucast (drop_bit 8 w), ucast w]"

lemma or_eq_add_shifted:
  fixes x y :: u32
  assumes "\<And>n. bit y n \<Longrightarrow> n < j"
  shows "push_bit j x OR y = push_bit j x + y"
proof -
  have "push_bit j x AND y = 0"
    by (rule bit_word_eqI) (use assms in \<open>force simp: bit_simps\<close>)
  then show ?thesis by (simp add: disjunctive_add_eq_or)
qed

lemma bit_byte_less: "bit (v :: byte) n \<Longrightarrow> n < 8"
  using bit_imp_le_length [of v n] by simp

lemma word_of_be4_be_value: "word_of_be4 v0 v1 v2 v3 = word_of_nat (be_value [v0, v1, v2, v3])"
proof -
  have "push_bit 8 (ucast v2) OR ucast v3 = push_bit 8 (ucast v2) + (ucast v3 :: u32)"
    by (rule or_eq_add_shifted) (auto simp: bit_simps dest: bit_byte_less)
  moreover have "push_bit 16 (ucast v1) OR (push_bit 8 (ucast v2) OR ucast v3) =
      push_bit 16 (ucast v1) + (push_bit 8 (ucast v2) OR (ucast v3 :: u32))"
    by (rule or_eq_add_shifted) (auto simp: bit_simps dest!: bit_byte_less)
  moreover have "push_bit 24 (ucast v0) OR (push_bit 16 (ucast v1) OR (push_bit 8 (ucast v2) OR ucast v3)) =
      push_bit 24 (ucast v0) + (push_bit 16 (ucast v1) OR (push_bit 8 (ucast v2) OR (ucast v3 :: u32)))"
    by (rule or_eq_add_shifted) (auto simp: bit_simps dest!: bit_byte_less)
  ultimately show ?thesis
    by (simp add: word_of_be4_def push_bit_eq_mult be_value_def undigits_def algebra_simps)
qed

lemma word_of_be4_of_word [simp]:
  "word_of_be4 (ucast (drop_bit 24 w)) (ucast (drop_bit 16 w)) (ucast (drop_bit 8 w)) (ucast w) = w"
proof (rule bit_word_eqI)
  fix n
  assume "n < LENGTH(32)"
  then consider "n < 8" | "8 \<le> n" "n < 16" | "16 \<le> n" "n < 24" | "24 \<le> n" "n < 32"
    by fastforce
  then show "bit (word_of_be4 (ucast (drop_bit 24 w)) (ucast (drop_bit 16 w)) (ucast (drop_bit 8 w)) (ucast w)) n
      = bit w n"
    by cases (auto simp: word_of_be4_def bit_simps)
qed

lemma length_be4_of_word [simp]: "length (be4_of_word w) = 4"
  by (simp add: be4_of_word_def)

text \<open>Decimal output of an unsigned number on a stream.\<close>

definition show_nat :: "nat \<Rightarrow> string" where
  "show_nat n = (if n = 0 then ''0'' else map (\<lambda>d. ''0123456789'' ! d) (digits 10 n))"

lemma show_nat_chars: "c \<in> set (show_nat n) \<Longrightarrow> c \<in> set ''0123456789''"
proof -
  have "''0123456789'' ! d \<in> set ''0123456789''" if "d \<in> set (digits 10 n)" for d
    using digits_less [OF _ that] by (intro nth_mem) simp
  then show "c \<in> set (show_nat n) \<Longrightarrow> c \<in> set ''0123456789''"
    unfolding show_nat_def by (auto simp del: list.set split: if_splits) simp
qed

text \<open>Reading a decimal number back.\<close>

definition decimal_value :: "string \<Rightarrow> nat" where
  "decimal_value s = undigits 10 (map (\<lambda>c. of_char c - 48) s)"

lemma decimal_value_show_nat [simp]: "decimal_value (show_nat n) = n"
proof -
  have "of_char (''0123456789'' ! d) - 48 = (d :: nat)" if "d < 10" for d
    using that by (auto simp: less_Suc_eq numeral_eq_Suc)
  then have "map (\<lambda>c. of_char c - 48) (map (\<lambda>d. ''0123456789'' ! d) (digits 10 n)) = digits 10 n"
    using digits_less [of 10 _ n] by (simp add: map_idI)
  then show ?thesis by (cases "n = 0") (simp_all add: decimal_value_def show_nat_def undigits_Cons)
qed

end
