(* ===== verification/Base_Convert.thy ===== *)
theory Base_Convert
  imports P2P_Prelude
begin

unbundle bit_operations_syntax

section \<open>Text encodings of binary data (src/common/crypto)\<close>

text \<open>
  Models \<^verbatim>\<open>base58.cpp\<close>, \<^verbatim>\<open>base16.cpp\<close>, \<^verbatim>\<open>base64.cpp\<close>, \<^verbatim>\<open>crc32.cpp\<close> and the template
  \<^verbatim>\<open>MathString.h\<close>.  Botan's big integers, pipes and CRC are parameters: \<open>bi_decode\<close> and
  \<open>bi_encode\<close> stand for \<^verbatim>\<open>BigInt::decode\<close> and \<^verbatim>\<open>BigInt::encode\<close> (big-endian byte strings,
  the latter without leading zero bytes), \<open>hex_enc\<close>, \<open>hex_dec\<close>, \<open>b64_enc\<close>, \<open>b64_dec\<close> for the
  encoder and decoder pipes, \<open>crc\<close> for \<^verbatim>\<open>CRC32::process\<close>.
\<close>

subsection \<open>Base 58\<close>

definition base58_alphabet :: string where
  "base58_alphabet = ''123456789abcdefghijkmnopqrstuvwxyzABCDEFGHJKLMNPQRSTUVWXYZ''"

lemma length_base58_alphabet [simp]: "length base58_alphabet = 58"
  by (simp add: base58_alphabet_def)

text \<open>The loop of \<^verbatim>\<open>encodeToBase58\<close>: \<open>result\<close> is the deque built by \<^verbatim>\<open>push_front\<close>.\<close>

function base58_encode_loop :: "nat \<Rightarrow> string \<Rightarrow> string" where
  "base58_encode_loop big_data result =
     (if length base58_alphabet \<le> big_data
      then base58_encode_loop (big_data div length base58_alphabet)
             (base58_alphabet ! (big_data mod length base58_alphabet) # result)
      else if 0 < big_data then base58_alphabet ! big_data # result
      else result)"
  by pat_completeness auto
termination
  by (relation "measure fst") auto

declare base58_encode_loop.simps [simp del]

definition encodeToBase58 :: "(bytes \<Rightarrow> nat) \<Rightarrow> string \<Rightarrow> string" where
  "encodeToBase58 bi_decode data = base58_encode_loop (bi_decode (bytes_of_string data)) []"

text \<open>\<^verbatim>\<open>std::string::find\<close> of a character: its first position, or \<^verbatim>\<open>npos\<close>.\<close>

definition npos :: nat where
  "npos = 2 ^ 64 - 1"

fun find_from :: "nat \<Rightarrow> char \<Rightarrow> string \<Rightarrow> nat" where
  "find_from i c [] = npos"
| "find_from i c (x # xs) = (if x = c then i else find_from (Suc i) c xs)"

definition string_find :: "string \<Rightarrow> char \<Rightarrow> nat" where
  "string_find s c = find_from 0 c s"

text \<open>
  The loop of \<^verbatim>\<open>decodeFromBase58\<close> walks the text from its last character to its first, so it
  recurses over the reversed text.  The length is an \<^verbatim>\<open>int\<close>, hence the 32-bit signed reading.
\<close>

fun base58_decode_loop :: "string \<Rightarrow> nat \<Rightarrow> nat \<Rightarrow> nat" where
  "base58_decode_loop [] big_data multi = big_data"
| "base58_decode_loop (c # cs) big_data multi =
     base58_decode_loop cs (big_data + multi * string_find base58_alphabet c)
       (multi * length base58_alphabet)"

definition decodeFromBase58 :: "(nat \<Rightarrow> bytes) \<Rightarrow> string \<Rightarrow> string" where
  "decodeFromBase58 bi_encode base58 =
     (let len = sint (word_of_nat (length base58) :: u32)
      in string_of_bytes (bi_encode (base58_decode_loop (rev (take (nat len) base58)) 0 1)))"

subsection \<open>Hexadecimal, base 64, CRC 32\<close>

definition encodeToHex :: "(string \<Rightarrow> string) \<Rightarrow> string \<Rightarrow> string" where
  "encodeToHex hex_enc data = hex_enc data"

definition decodeFromHex :: "(string \<Rightarrow> string) \<Rightarrow> string \<Rightarrow> string" where
  "decodeFromHex hex_dec hex_string = hex_dec hex_string"

definition encodeToBase64 :: "(string \<Rightarrow> string) \<Rightarrow> string \<Rightarrow> string" where
  "encodeToBase64 b64_enc data = b64_enc data"

definition decodeFromBase64 :: "(string \<Rightarrow> string) \<Rightarrow> string \<Rightarrow> string" where
  "decodeFromBase64 b64_dec base64 = b64_dec base64"

text \<open>\<^verbatim>\<open>computeCRC32\<close> reads four elements of the checksum vector; fewer is out of range.\<close>

definition computeCRC32 :: "(string \<Rightarrow> bytes) \<Rightarrow> string \<Rightarrow> u32 result" where
  "computeCRC32 crc data =
     (case crc data of
        v0 # v1 # v2 # v3 # _ \<Rightarrow>
          Inr (push_bit 24 (ucast v0) OR push_bit 16 (ucast v1) OR push_bit 8 (ucast v2) OR ucast v3)
      | _ \<Rightarrow> Inl UndefinedBehaviour)"

subsection \<open>Correctness of base 58\<close>

lemma base58_encode_loop_digits:
  "base58_encode_loop n acc = map ((!) base58_alphabet) (digits 58 n) @ acc"
proof (induction n acc rule: base58_encode_loop.induct)
  case (1 n acc)
  consider "58 \<le> n" | "0 < n" "n < 58" | "n = 0" by linarith
  then show ?case
  proof cases
    case 1
    with "1.IH" show ?thesis
      by (subst base58_encode_loop.simps) (simp add: digits_step)
  next
    case 2
    then show ?thesis
      by (subst base58_encode_loop.simps) (simp add: digits_step)
  next
    case 3
    then show ?thesis
      by (subst base58_encode_loop.simps) simp
  qed
qed

lemma distinct_base58_alphabet: "distinct base58_alphabet"
  by (simp add: base58_alphabet_def)

lemma find_from_nth: "distinct xs \<Longrightarrow> d < length xs \<Longrightarrow> find_from i (xs ! d) xs = i + d"
proof (induction xs arbitrary: i d)
  case Nil
  then show ?case by simp
next
  case (Cons x xs)
  then show ?case
    by (cases d) auto
qed

lemma find_from_in: "c \<in> set xs \<Longrightarrow> \<exists>d < length xs. find_from i c xs = i + d \<and> xs ! d = c"
proof (induction xs arbitrary: i)
  case Nil
  then show ?case by simp
next
  case (Cons x xs)
  show ?case
  proof (cases "x = c")
    case True
    then show ?thesis by auto
  next
    case False
    with Cons obtain d where "d < length xs" "find_from (Suc i) c xs = Suc i + d" "xs ! d = c"
      by fastforce
    with False show ?thesis
      by (intro exI [of _ "Suc d"]) simp
  qed
qed

lemma string_find_nth [simp]: "d < 58 \<Longrightarrow> string_find base58_alphabet (base58_alphabet ! d) = d"
  by (simp add: string_find_def find_from_nth distinct_base58_alphabet)

lemma string_find_alphabet:
  assumes "c \<in> set base58_alphabet"
  shows "string_find base58_alphabet c < 58"
    and "base58_alphabet ! string_find base58_alphabet c = c"
  using find_from_in [OF assms, of 0] by (auto simp: string_find_def)

lemma base58_decode_loop_undigits:
  "base58_decode_loop (rev s) big multi =
     big + multi * undigits 58 (map (string_find base58_alphabet) s)"
proof (induction s arbitrary: big multi rule: rev_induct)
  case Nil
  show ?case by simp
next
  case (snoc c s)
  then show ?case by (simp add: algebra_simps)
qed

lemma sint_word_of_nat_u32: "n < 2 ^ 31 \<Longrightarrow> sint (word_of_nat n :: u32) = int n"
  by (simp add: signed_of_nat signed_take_bit_int_eq_self)

lemma decodeFromBase58_undigits:
  assumes "length s < 2 ^ 31"
  shows "decodeFromBase58 enc s =
    string_of_bytes (enc (undigits 58 (map (string_find base58_alphabet) s)))"
  using assms
  by (simp add: decodeFromBase58_def sint_word_of_nat_u32 base58_decode_loop_undigits)

lemma encodeToBase58_digits:
  "encodeToBase58 dec data = map ((!) base58_alphabet) (digits 58 (dec (bytes_of_string data)))"
  by (simp add: encodeToBase58_def base58_encode_loop_digits)

lemma length_encodeToBase58:
  "length (encodeToBase58 be_value data) \<le> 2 * length data"
proof -
  have "be_value (bytes_of_string data) < 256 ^ length data"
    using be_value_less [of "bytes_of_string data"] by simp
  also have "\<dots> \<le> (58 ^ 2) ^ length data"
    by (rule power_mono) simp_all
  finally show ?thesis
    by (simp add: encodeToBase58_digits length_digits_le power_mult)
qed

lemma decode_encode_base58_bytes:
  assumes size: "length bs < 2 ^ 30"
  shows "bytes_of_string (decodeFromBase58 be_bytes (encodeToBase58 be_value (string_of_bytes bs))) =
    dropWhile (\<lambda>b. b = 0) bs"
proof -
  have "length (encodeToBase58 be_value (string_of_bytes bs)) < 2 ^ 31"
    using length_encodeToBase58 [of "string_of_bytes bs"] size by simp
  moreover have "map (string_find base58_alphabet \<circ> (!) base58_alphabet) (digits 58 (be_value bs)) =
      digits 58 (be_value bs)"
    by (rule map_idI) (simp add: digits_less)
  ultimately show ?thesis
    by (simp add: decodeFromBase58_undigits encodeToBase58_digits be_bytes_be_value)
qed

text \<open>
  (C21) Decoding what \<^verbatim>\<open>encodeToBase58\<close> produced gives the data back, less its leading zero
  bytes: the encoding goes through an integer and does not record them.
\<close>

theorem base58_decode_encode:
  assumes decode: "\<And>bs. bi_decode bs = be_value bs"
    and encode: "\<And>n. bi_encode n = be_bytes n"
    and size: "length data < 2 ^ 30"
  shows "decodeFromBase58 bi_encode (encodeToBase58 bi_decode data) =
    dropWhile (\<lambda>c. c = CHR 0x00) data"
proof -
  have codec: "bi_decode = be_value" "bi_encode = be_bytes"
    using decode encode by auto
  have "bytes_of_string (decodeFromBase58 bi_encode (encodeToBase58 bi_decode data)) =
      bytes_of_string (dropWhile (\<lambda>c. c = CHR 0x00) data)"
    using decode_encode_base58_bytes [of "bytes_of_string data"] size
    by (simp add: codec) (simp add: bytes_of_string_def dropWhile_map comp_def)
  then show ?thesis by simp
qed

theorem base58_decode_encode_witness:
  "decodeFromBase58 be_bytes (encodeToBase58 be_value (CHR 0x00 # ''p2p'')) = ''p2p''"
  using base58_decode_encode [of be_value be_bytes "CHR 0x00 # ''p2p''"] by simp

text \<open>
  (C22) Encoding what \<^verbatim>\<open>decodeFromBase58\<close> produced from a text over the alphabet gives the text
  back, less its leading digits of value zero (the character 1).
\<close>

theorem base58_encode_decode:
  assumes decode: "\<And>bs. bi_decode bs = be_value bs"
    and encode: "\<And>n. bi_encode n = be_bytes n"
    and alphabet: "set s \<subseteq> set base58_alphabet"
    and size: "length s < 2 ^ 31"
  shows "encodeToBase58 bi_decode (decodeFromBase58 bi_encode s) =
    dropWhile (\<lambda>c. c = CHR ''1'') s"
proof -
  let ?f = "string_find base58_alphabet"
  have f: "?f c < 58" "base58_alphabet ! ?f c = c" if "c \<in> set s" for c
    using alphabet that string_find_alphabet by auto
  have one: "base58_alphabet ! 0 = CHR ''1''"
    by (simp add: base58_alphabet_def)
  have zero: "?f c = 0 \<longleftrightarrow> c = CHR ''1''" if "c \<in> set s" for c
    using f(2) [OF that] string_find_nth [of 0] one by auto
  have "encodeToBase58 bi_decode (decodeFromBase58 bi_encode s) =
      map ((!) base58_alphabet) (dropWhile (\<lambda>x. x = 0) (map ?f s))"
    using f by (simp add: decodeFromBase58_undigits [OF size] encodeToBase58_digits decode encode
        digits_undigits)
  also have "\<dots> = map ((!) base58_alphabet \<circ> ?f) (dropWhile (\<lambda>c. ?f c = 0) s)"
    by (simp add: dropWhile_map comp_def)
  also have "dropWhile (\<lambda>c. ?f c = 0) s = dropWhile (\<lambda>c. c = CHR ''1'') s"
    by (rule dropWhile_cong) (simp_all add: zero)
  also have "map ((!) base58_alphabet \<circ> ?f) \<dots> = \<dots>"
    by (rule map_idI) (auto simp: f dest: set_dropWhileD)
  finally show ?thesis .
qed

theorem base58_encode_decode_witness:
  "encodeToBase58 be_value (decodeFromBase58 be_bytes ''12Zz'') = ''2Zz''"
  using base58_encode_decode [of be_value be_bytes "''12Zz''"]
  by (simp add: base58_alphabet_def)

subsection \<open>The checksum word\<close>

text \<open>
  The 32-bit word that \<^verbatim>\<open>computeCRC32\<close> assembles with shifts is the big-endian reading of the
  four checksum bytes; fewer than four bytes are read out of range.
\<close>

theorem computeCRC32_big_endian:
  "computeCRC32 crc data =
     (if 4 \<le> length (crc data) then Inr (word_of_nat (be_value (take 4 (crc data))))
      else Inl UndefinedBehaviour)"
  by (auto simp: computeCRC32_def word_of_be4_be_value [unfolded word_of_be4_def] split: list.split)

subsection \<open>MathString: values with a binary form\<close>

text \<open>
  The class template \<^verbatim>\<open>MathString<T>\<close> derives every textual form from the two virtual functions
  \<^verbatim>\<open>setAsBinaryVector\<close> and \<^verbatim>\<open>toBinaryVector\<close>.  They are the arguments \<open>setv\<close> and \<open>tov\<close> here;
  \<open>new\<close> is a default-constructed \<^verbatim>\<open>T\<close>.  Both may fail (a null key is dereferenced, the library
  refuses the bytes), so they return results.
\<close>

definition ms_fromBinaryVector :: "('t \<Rightarrow> bytes \<Rightarrow> 't result) \<Rightarrow> 't \<Rightarrow> bytes \<Rightarrow> 't result" where
  "ms_fromBinaryVector setv new v = setv new v"

definition ms_setAsBinaryString :: "('t \<Rightarrow> bytes \<Rightarrow> 't result) \<Rightarrow> 't \<Rightarrow> string \<Rightarrow> 't result" where
  "ms_setAsBinaryString setv t s = setv t (bytes_of_string s)"

definition ms_fromBinaryString :: "('t \<Rightarrow> bytes \<Rightarrow> 't result) \<Rightarrow> 't \<Rightarrow> string \<Rightarrow> 't result" where
  "ms_fromBinaryString setv new s = ms_setAsBinaryString setv new s"

definition ms_toBinaryString :: "('t \<Rightarrow> bytes result) \<Rightarrow> 't \<Rightarrow> string result" where
  "ms_toBinaryString tov t = bind_result (tov t) (\<lambda>bv. Inr (string_of_bytes bv))"

definition ms_setAsHex ::
  "(string \<Rightarrow> string) \<Rightarrow> ('t \<Rightarrow> bytes \<Rightarrow> 't result) \<Rightarrow> 't \<Rightarrow> string \<Rightarrow> 't result" where
  "ms_setAsHex hex_dec setv t s = ms_setAsBinaryString setv t (decodeFromHex hex_dec s)"

definition ms_fromHex ::
  "(string \<Rightarrow> string) \<Rightarrow> ('t \<Rightarrow> bytes \<Rightarrow> 't result) \<Rightarrow> 't \<Rightarrow> string \<Rightarrow> 't result" where
  "ms_fromHex hex_dec setv new s = ms_setAsHex hex_dec setv new s"

definition ms_toHex :: "(string \<Rightarrow> string) \<Rightarrow> ('t \<Rightarrow> bytes result) \<Rightarrow> 't \<Rightarrow> string result" where
  "ms_toHex hex_enc tov t =
     bind_result (ms_toBinaryString tov t) (\<lambda>s. Inr (encodeToHex hex_enc s))"

definition ms_setAsBase58 ::
  "(nat \<Rightarrow> bytes) \<Rightarrow> ('t \<Rightarrow> bytes \<Rightarrow> 't result) \<Rightarrow> 't \<Rightarrow> string \<Rightarrow> 't result" where
  "ms_setAsBase58 bi_encode setv t s = ms_setAsBinaryString setv t (decodeFromBase58 bi_encode s)"

definition ms_fromBase58 ::
  "(nat \<Rightarrow> bytes) \<Rightarrow> ('t \<Rightarrow> bytes \<Rightarrow> 't result) \<Rightarrow> 't \<Rightarrow> string \<Rightarrow> 't result" where
  "ms_fromBase58 bi_encode setv new s = ms_setAsBase58 bi_encode setv new s"

definition ms_toBase58 :: "(bytes \<Rightarrow> nat) \<Rightarrow> ('t \<Rightarrow> bytes result) \<Rightarrow> 't \<Rightarrow> string result" where
  "ms_toBase58 bi_decode tov t =
     bind_result (ms_toBinaryString tov t) (\<lambda>s. Inr (encodeToBase58 bi_decode s))"

definition ms_setAsBase64 ::
  "(string \<Rightarrow> string) \<Rightarrow> ('t \<Rightarrow> bytes \<Rightarrow> 't result) \<Rightarrow> 't \<Rightarrow> string \<Rightarrow> 't result" where
  "ms_setAsBase64 b64_dec setv t s = ms_setAsBinaryString setv t (decodeFromBase64 b64_dec s)"

definition ms_fromBase64 ::
  "(string \<Rightarrow> string) \<Rightarrow> ('t \<Rightarrow> bytes \<Rightarrow> 't result) \<Rightarrow> 't \<Rightarrow> string \<Rightarrow> 't result" where
  "ms_fromBase64 b64_dec setv new s = ms_setAsBase64 b64_dec setv new s"

definition ms_toBase64 :: "(string \<Rightarrow> string) \<Rightarrow> ('t \<Rightarrow> bytes result) \<Rightarrow> 't \<Rightarrow> string result" where
  "ms_toBase64 b64_enc tov t =
     bind_result (ms_toBinaryString tov t) (\<lambda>s. Inr (encodeToBase64 b64_enc s))"

lemmas ms_defs [cpp_defs] =
  ms_fromBinaryVector_def ms_setAsBinaryString_def ms_fromBinaryString_def ms_toBinaryString_def
  ms_setAsHex_def ms_fromHex_def ms_toHex_def ms_setAsBase58_def ms_fromBase58_def ms_toBase58_def
  ms_setAsBase64_def ms_fromBase64_def ms_toBase64_def
  encodeToHex_def decodeFromHex_def encodeToBase64_def decodeFromBase64_def

text \<open>
  The contract of a \<^verbatim>\<open>MathString\<close> class: on the byte strings it accepts, setting and reading back
  is the identity.  Its clients get the round trip of each textual form.
\<close>

locale math_string =
  fixes new :: 't
    and setv :: "'t \<Rightarrow> bytes \<Rightarrow> 't result"
    and tov :: "'t \<Rightarrow> bytes result"
    and valid :: "bytes \<Rightarrow> bool"
  assumes set_to: "valid v \<Longrightarrow> \<exists>t'. setv t v = Inr t' \<and> tov t' = Inr v"
begin

lemma binary_string_roundtrip:
  assumes "valid (bytes_of_string s)"
  shows "bind_result (ms_fromBinaryString setv new s) (ms_toBinaryString tov) = Inr s"
  using set_to [OF assms, of new] by (auto simp: ms_defs)

lemma reread_binary_string:
  assumes "tov t = Inr v" and "valid v"
  shows "\<exists>s t'. ms_toBinaryString tov t = Inr s \<and> ms_fromBinaryString setv new s = Inr t' \<and> tov t' = tov t"
  using set_to [OF assms(2), of new] assms(1) by (auto simp: ms_defs)

lemma reread_hex:
  assumes "tov t = Inr v" and "valid v" and "\<And>s. hex_dec (hex_enc s) = s"
  shows "\<exists>s t'. ms_toHex hex_enc tov t = Inr s \<and> ms_fromHex hex_dec setv new s = Inr t' \<and> tov t' = tov t"
  using set_to [OF assms(2), of new] assms(1,3) by (auto simp: ms_defs)

lemma reread_base64:
  assumes "tov t = Inr v" and "valid v" and "\<And>s. b64_dec (b64_enc s) = s"
  shows "\<exists>s t'. ms_toBase64 b64_enc tov t = Inr s \<and> ms_fromBase64 b64_dec setv new s = Inr t' \<and> tov t' = tov t"
  using set_to [OF assms(2), of new] assms(1,3) by (auto simp: ms_defs)

end

text \<open>
  Classes that read their bytes as a number do not see leading zero bytes, so their base 58 form
  is faithful although base 58 drops them.
\<close>

locale numeric_math_string = math_string +
  assumes set_strip: "valid v \<Longrightarrow> setv t (dropWhile (\<lambda>b. b = 0) v) = setv t v"
begin

lemma reread_base58:
  assumes "tov t = Inr v" and "valid v" and "length v < 2 ^ 30"
  shows "\<exists>s t'. ms_toBase58 be_value tov t = Inr s \<and> ms_fromBase58 be_bytes setv new s = Inr t' \<and>
    tov t' = tov t"
proof -
  have "bytes_of_string (decodeFromBase58 be_bytes (encodeToBase58 be_value (string_of_bytes v))) =
      dropWhile (\<lambda>b. b = 0) v"
    using assms(3)
    by (simp add: decode_encode_base58_bytes)
  then show ?thesis
    using set_to [OF assms(2), of new] assms(1) set_strip [OF assms(2), of new]
    by (auto simp: ms_defs)
qed

end

end
