(* ===== verification/Crypto_Hash.thy ===== *)
theory Crypto_Hash
  imports Base_Convert
begin

unbundle bit_operations_syntax

section \<open>Hashes (src/common/crypto/Hash.h, Hash.cpp)\<close>

text \<open>
  A \<^verbatim>\<open>crypto::Hash\<close> object holds the digest bytes and an owning pointer to a Keccak object, of
  which only the presence matters.  Botan's \<^verbatim>\<open>Keccak_1600::process\<close> is the parameter \<open>keccak\<close>.
  The theory shows which objects can compute, that \<^verbatim>\<open>operator<\<close> is the lexicographic order of
  the digest bytes (so that the sources' maps keyed by hashes are maps keyed by byte strings),
  and what \<^verbatim>\<open>operator^\<close> computes.
\<close>

definition HASH_LENGTH :: nat where
  "HASH_LENGTH = 224"

record chash =
  hash :: bytes
  hasher :: bool

subsection \<open>Construction, copying, moving\<close>

definition Hash_default :: chash where
  "Hash_default = \<lparr>hash = [], hasher = True\<rparr>"

text \<open>The copy constructor leaves the new object's \<^verbatim>\<open>hasher\<close> null.\<close>

definition Hash_copy :: "chash \<Rightarrow> chash" where
  "Hash_copy rhash = \<lparr>hash = hash rhash, hasher = False\<rparr>"

text \<open>Moving swaps with a member-wise empty object: (new object, moved-from object).\<close>

definition Hash_move :: "chash \<Rightarrow> chash \<times> chash" where
  "Hash_move rhash =
     (\<lparr>hash = hash rhash, hasher = hasher rhash\<rparr>, \<lparr>hash = [], hasher = False\<rparr>)"

definition Hash_assign :: "chash \<Rightarrow> chash \<Rightarrow> chash" where
  "Hash_assign this rhash = this\<lparr>hash := hash rhash\<rparr>"

definition Hash_move_assign :: "chash \<Rightarrow> chash \<Rightarrow> chash \<times> chash" where
  "Hash_move_assign this rhash =
     (this\<lparr>hash := hash rhash, hasher := hasher rhash\<rparr>,
      rhash\<lparr>hash := hash this, hasher := hasher this\<rparr>)"

subsection \<open>Digest access and computation\<close>

definition Hash_setAsBinaryVector :: "chash \<Rightarrow> bytes \<Rightarrow> chash" where
  "Hash_setAsBinaryVector this v = this\<lparr>hash := v\<rparr>"

definition Hash_toBinaryVector :: "chash \<Rightarrow> bytes" where
  "Hash_toBinaryVector this = hash this"

definition Hash_toBinaryString :: "chash \<Rightarrow> string" where
  "Hash_toBinaryString this = string_of_bytes (Hash_toBinaryVector this)"

definition Hash_compute :: "(string \<Rightarrow> bytes) \<Rightarrow> chash \<Rightarrow> string \<Rightarrow> chash result" where
  "Hash_compute keccak this data =
     (if hasher this then Inr (Hash_setAsBinaryVector this (keccak data))
      else Inl UndefinedBehaviour)"

definition Hash_computeNew :: "(string \<Rightarrow> bytes) \<Rightarrow> string \<Rightarrow> chash result" where
  "Hash_computeNew keccak data = Hash_compute keccak Hash_default data"

text \<open>The constructor from a string delegates to \<^verbatim>\<open>Hash()\<close> and computes.\<close>

definition Hash_of_string :: "(string \<Rightarrow> bytes) \<Rightarrow> string \<Rightarrow> chash result" where
  "Hash_of_string keccak data = Hash_compute keccak Hash_default data"

definition Hash_check :: "(string \<Rightarrow> bytes) \<Rightarrow> chash \<Rightarrow> string \<Rightarrow> bool result" where
  "Hash_check keccak this data =
     bind_result (Hash_compute keccak Hash_default data)
       (\<lambda>h. Inr (Hash_toBinaryString h = Hash_toBinaryString this))"

definition Hash_getAlgoName :: "string \<Rightarrow> string result" where
  "Hash_getAlgoName keccak_name =
     (if hasher Hash_default then Inr keccak_name else Inl UndefinedBehaviour)"

definition Hash_clear :: "chash \<Rightarrow> chash" where
  "Hash_clear this = this\<lparr>hash := []\<rparr>"

subsection \<open>Operators\<close>

definition Hash_eq :: "chash \<Rightarrow> chash \<Rightarrow> bool" where
  "Hash_eq this rhash \<longleftrightarrow> hash this = hash rhash"

definition Hash_bool :: "chash \<Rightarrow> bool" where
  "Hash_bool this \<longleftrightarrow> hash this \<noteq> []"

definition Hash_less :: "chash \<Rightarrow> chash \<Rightarrow> bool" where
  "Hash_less this lhash \<longleftrightarrow> string_of_bytes (hash this) < string_of_bytes (hash lhash)"

text \<open>\<^verbatim>\<open>vector::resize\<close> to at least the present size: zero bytes are appended.\<close>

definition resize_bytes :: "nat \<Rightarrow> bytes \<Rightarrow> bytes" where
  "resize_bytes n v = take n v @ replicate (n - length v) 0"

text \<open>
  \<^verbatim>\<open>operator^\<close> declares its loop counter as \<^verbatim>\<open>size_t i;\<close> without an initial value.  The
  value it happens to hold is the argument \<open>i0\<close>; positions below it keep the zero of the
  freshly built result vector.
\<close>

fun xor_loop :: "nat \<Rightarrow> nat \<Rightarrow> bytes \<Rightarrow> bytes \<Rightarrow> bytes \<Rightarrow> bytes" where
  "xor_loop 0 i this_v right_v result_v = result_v"
| "xor_loop (Suc fuel) i this_v right_v result_v =
     (if i < length result_v
      then xor_loop fuel (Suc i) this_v right_v (result_v[i := this_v ! i XOR right_v ! i])
      else result_v)"

definition Hash_xor :: "nat \<Rightarrow> chash \<Rightarrow> chash \<Rightarrow> chash" where
  "Hash_xor i0 this rhash =
     (let max_size = max (length (hash this)) (length (hash rhash));
          this_v = resize_bytes max_size (Hash_toBinaryVector this);
          right_v = resize_bytes max_size (Hash_toBinaryVector rhash)
      in Hash_setAsBinaryVector Hash_default
           (xor_loop max_size i0 this_v right_v (replicate max_size 0)))"

lemmas Hash_defs [cpp_defs] =
  Hash_default_def Hash_copy_def Hash_move_def Hash_assign_def Hash_move_assign_def
  Hash_setAsBinaryVector_def Hash_toBinaryVector_def Hash_toBinaryString_def Hash_compute_def
  Hash_computeNew_def Hash_of_string_def Hash_check_def Hash_getAlgoName_def Hash_clear_def
  Hash_eq_def Hash_bool_def

lemma chash_update: "(h :: chash)\<lparr>hash := a, hasher := b\<rparr> = \<lparr>hash = a, hasher = b\<rparr>"
  by (cases h) simp

subsection \<open>Which hashes can compute\<close>

text \<open>
  A copied hash compares equal to its original and checks data as it does, but cannot
  compute a new digest: its Keccak object is null.
\<close>

lemma Hash_copy_behaviour:
  "Hash_eq (Hash_copy h) h \<and>
   Hash_check keccak (Hash_copy h) data = Hash_check keccak h data \<and>
   Hash_compute keccak (Hash_copy h) data = Inl UndefinedBehaviour"
  by (simp add: Hash_defs)

text \<open>
  \<^verbatim>\<open>check\<close> accepts exactly the data whose digest the object holds, for every object however
  it was obtained.
\<close>

lemma Hash_check_iff: "Hash_check keccak h data = Inr (hash h = keccak data)"
  by (auto simp: Hash_defs)

subsection \<open>The order of hashes and the distance\<close>

lemma string_of_bytes_less_iff: "string_of_bytes a < string_of_bytes b \<longleftrightarrow> a < b"
proof (induction a arbitrary: b)
  case Nil
  then show ?case by (cases b) (auto simp: string_of_bytes_def)
next
  case (Cons x a)
  have char: "char_of (unat x) < (char_of (unat y) :: char) \<longleftrightarrow> x < y" for y :: byte
    by (simp add: less_char_def word_less_nat_alt)
  have eq: "char_of (unat x) = (char_of (unat y) :: char) \<longleftrightarrow> x = y" for y :: byte
    using string_of_bytes_eq_iff [of "[x]" "[y]"] by (simp add: string_of_bytes_def)
  from Cons show ?case
    by (cases b) (simp_all add: string_of_bytes_def char eq word_unat_eq_iff)
qed

lemma Hash_less_bytes: "Hash_less a b \<longleftrightarrow> hash a < hash b"
  by (simp add: Hash_less_def string_of_bytes_less_iff)

text \<open>
  (C25) \<^verbatim>\<open>operator<\<close> is a strict total order up to \<^verbatim>\<open>operator==\<close>: irreflexive, transitive, and two
  hashes neither of which is less are equal.  Maps keyed by hashes are therefore well defined.
\<close>

theorem Hash_less_strict_total:
  "\<not> Hash_less a a \<and>
   (Hash_less a b \<and> Hash_less b c \<longrightarrow> Hash_less a c) \<and>
   (\<not> Hash_less a b \<and> \<not> Hash_less b a \<longleftrightarrow> Hash_eq a b)"
  by (auto simp: Hash_less_bytes Hash_eq_def)

theorem Hash_less_strict_total_witness:
  "Hash_less (Hash_setAsBinaryVector Hash_default [1, 2]) (Hash_setAsBinaryVector Hash_default [200, 4])"
proof -
  let ?h = "Hash_setAsBinaryVector Hash_default"
  have "Hash_less (?h [1, 2]) (?h [1, 3])" "Hash_less (?h [1, 3]) (?h [200, 4])"
    by (simp_all add: Hash_less_bytes Hash_setAsBinaryVector_def)
  with Hash_less_strict_total [of "?h [1, 2]" "?h [1, 3]" "?h [200, 4]"] show ?thesis by blast
qed

lemma length_resize_bytes [simp]: "length v \<le> n \<Longrightarrow> length (resize_bytes n v) = n"
  by (simp add: resize_bytes_def)

lemma resize_bytes_same [simp]: "resize_bytes (length v) v = v"
  by (simp add: resize_bytes_def)

lemma xor_loop_spec:
  "length this_v = length result_v \<Longrightarrow> length right_v = length result_v \<Longrightarrow>
   length result_v \<le> i + fuel \<Longrightarrow>
   xor_loop fuel i this_v right_v result_v =
     take i result_v @ drop i (map2 (XOR) this_v right_v)"
proof (induction fuel arbitrary: i result_v)
  case 0
  then show ?case by simp
next
  case (Suc fuel)
  show ?case
  proof (cases "i < length result_v")
    case True
    with Suc have "xor_loop (Suc fuel) i this_v right_v result_v =
        take (Suc i) (result_v[i := this_v ! i XOR right_v ! i]) @
        drop (Suc i) (map2 (XOR) this_v right_v)"
      by simp
    also have "\<dots> = take i result_v @ (this_v ! i XOR right_v ! i) #
        drop (Suc i) (map2 (XOR) this_v right_v)"
      using True by (simp add: take_Suc_conv_app_nth)
    also have "\<dots> = take i result_v @ drop i (map2 (XOR) this_v right_v)"
      using True Suc.prems by (simp add: Cons_nth_drop_Suc [symmetric])
    finally show ?thesis .
  next
    case False
    with Suc.prems show ?thesis by simp
  qed
qed

lemma Hash_xor_bytes:
  "hash (Hash_xor i0 a b) =
     (let m = max (length (hash a)) (length (hash b))
      in take i0 (replicate m 0) @
         drop i0 (map2 (XOR) (resize_bytes m (hash a)) (resize_bytes m (hash b))))"
  by (simp add: Hash_xor_def xor_loop_spec Hash_setAsBinaryVector_def Hash_toBinaryVector_def Let_def)

lemma Hash_xor_same_length:
  "length (hash a) = length (hash b) \<Longrightarrow>
   hash (Hash_xor 0 a b) = map2 (XOR) (hash a) (hash b)"
  by (simp add: Hash_xor_bytes Let_def) (metis resize_bytes_same)

lemma map2_xor_self: "map2 (XOR) xs xs = replicate (length xs) (0 :: byte)"
  by (induction xs) auto

lemma byte_xor_eq_0_iff: "x XOR y = 0 \<longleftrightarrow> x = (y :: byte)"
proof
  assume "x XOR y = 0"
  then have "(x XOR y) XOR y = y" by simp
  then show "x = y" by (simp add: xor.assoc)
qed simp

lemma map2_xor_eq_0_iff:
  "length xs = length ys \<Longrightarrow> map2 (XOR) xs ys = replicate (length xs) (0 :: byte) \<longleftrightarrow> xs = ys"
  by (induction xs ys rule: list_induct2) (auto simp: byte_xor_eq_0_iff)

lemma map2_xor_commute: "map2 (XOR) xs ys = map2 (XOR) ys (xs :: bytes)"
proof (induction xs arbitrary: ys)
  case Nil
  show ?case by (cases ys) auto
next
  case (Cons x xs)
  then show ?case by (cases ys) (auto simp: xor.commute)
qed

lemma map2_xor_chain:
  "length xs = length ys \<Longrightarrow> length ys = length zs \<Longrightarrow>
   map2 (XOR) (map2 (XOR) xs ys) (map2 (XOR) ys zs) = map2 (XOR) xs (zs :: bytes)"
  by (induction xs ys zs rule: list_induct3) (auto simp: xor.left_commute xor.assoc)



text \<open>
  When the uninitialised counter starts at or beyond the digest length, \<^verbatim>\<open>operator^\<close> returns
  zero bytes only, whatever the two hashes are.
\<close>

theorem Hash_xor_uninitialised:
  assumes "max (length (hash a)) (length (hash b)) \<le> i0"
  shows "hash (Hash_xor i0 a b) = replicate (max (length (hash a)) (length (hash b))) 0"
  using assms by (simp add: Hash_xor_bytes Let_def)

theorem Hash_xor_uninitialised_witness:
  "hash (Hash_xor 5 \<lparr>hash = [1, 2], hasher = True\<rparr> \<lparr>hash = [3, 2], hasher = True\<rparr>) = [0, 0]"
  using Hash_xor_uninitialised [of "\<lparr>hash = [1, 2], hasher = True\<rparr>" "\<lparr>hash = [3, 2], hasher = True\<rparr>" 5]
  by (simp add: numeral_2_eq_2)

subsection \<open>Hash as a MathString\<close>

text \<open>Every byte string is accepted and read back unchanged.\<close>

interpretation hash_string: math_string Hash_default
  "\<lambda>t v. Inr (Hash_setAsBinaryVector t v)" "\<lambda>t. Inr (Hash_toBinaryVector t)" "\<lambda>v. True"
  by unfold_locales (simp add: Hash_defs)

end
