(* ===== verification/KBucket.thy ===== *)
theory KBucket
  imports Crypto_Hash
begin

unbundle bit_operations_syntax

section \<open>K-buckets (src/daemon/dht/KBucket.h, KBucket.cpp, DHTNode.h)\<close>

text \<open>
  A K-bucket is a binary tree over the bits of node hashes.  A node of the tree keeps its own
  contacts until it is split into two children; only buckets on the path of the own hash may be
  split.  \<^verbatim>\<open>DHTNode\<close> is abstract in the sources: node pointers are values of a type \<open>'n\<close>, and the
  virtual functions \<^verbatim>\<open>getHash\<close> and \<^verbatim>\<open>getReliability\<close> are the arguments \<open>getHash\<close> and
  \<open>getReliability\<close> of the operations.
\<close>

datatype Reliability = GOOD | QUESTIONABLE | BAD

text \<open>The base-class implementation of \<^verbatim>\<open>DHTNode::getReliability\<close>.\<close>

definition DHTNode_getReliability :: "'n \<Rightarrow> Reliability" where
  "DHTNode_getReliability node = GOOD"

text \<open>The two owning child pointers are null until the bucket is split.\<close>

datatype 'n kbucket =
  KBucket (kb_index: nat) (kb_k: u16)
    (kb_first: "'n kbucket option") (kb_second: "'n kbucket option")
    (bucket_contents: "'n list") (splittable: bool) (node_hash: chash)

definition KBucket_new :: "chash \<Rightarrow> u16 \<Rightarrow> 'n kbucket" where
  "KBucket_new node_h k = KBucket 0 k None None [] True (Hash_copy node_h)"

definition KBucket_child :: "nat \<Rightarrow> bool \<Rightarrow> chash \<Rightarrow> u16 \<Rightarrow> 'n kbucket" where
  "KBucket_child index split node_h k = KBucket index k None None [] split node_h"

fun set_contents :: "'n list \<Rightarrow> 'n kbucket \<Rightarrow> 'n kbucket" where
  "set_contents cs (KBucket i k f s _ sp h) = KBucket i k f s cs sp h"

fun set_split_buckets :: "'n kbucket option \<Rightarrow> 'n kbucket option \<Rightarrow> 'n kbucket \<Rightarrow> 'n kbucket" where
  "set_split_buckets f s (KBucket i k _ _ cs sp h) = KBucket i k f s cs sp h"

definition push_back :: "'n \<Rightarrow> 'n kbucket \<Rightarrow> 'n kbucket" where
  "push_back n b = set_contents (bucket_contents b @ [n]) b"

definition isSplit :: "'n kbucket \<Rightarrow> bool" where
  "isSplit b \<longleftrightarrow> kb_first b \<noteq> None \<and> kb_second b \<noteq> None"

text \<open>A bit of a hash, most significant first; a byte beyond the digest is out of range.\<close>

definition getBit :: "chash \<Rightarrow> nat \<Rightarrow> bool result" where
  "getBit h bit_index =
     (let split_byte = bit_index div 8; split_bit = bit_index mod 8;
          v = Hash_toBinaryVector h
      in if split_byte < length v
         then Inr (drop_bit (7 - split_bit) (v ! split_byte) AND 1 \<noteq> 0)
         else Inl UndefinedBehaviour)"

text \<open>Which bucket \<^verbatim>\<open>determineBucket\<close> points to: the bucket itself or one of its children.\<close>

datatype which_bucket = This | First | Second

definition determineBucket :: "'n kbucket \<Rightarrow> chash \<Rightarrow> which_bucket result" where
  "determineBucket b h =
     (if \<not> isSplit b then Inr This
      else bind_result (getBit h (kb_index b + 1)) (\<lambda>bt. Inr (if \<not> bt then First else Second)))"

text \<open>Reading and writing through that pointer.\<close>

fun bucket_at :: "which_bucket \<Rightarrow> 'n kbucket \<Rightarrow> 'n kbucket option" where
  "bucket_at This b = Some b"
| "bucket_at First b = kb_first b"
| "bucket_at Second b = kb_second b"

fun update_bucket_at :: "which_bucket \<Rightarrow> 'n kbucket \<Rightarrow> 'n kbucket \<Rightarrow> 'n kbucket" where
  "update_bucket_at This c b = c"
| "update_bucket_at First c b = set_split_buckets (Some c) (kb_second b) b"
| "update_bucket_at Second c b = set_split_buckets (kb_first b) (Some c) b"

text \<open>The loop of \<^verbatim>\<open>split\<close> that hands every contact to one of the new children.\<close>

fun split_loop :: "('n \<Rightarrow> chash) \<Rightarrow> 'n list \<Rightarrow> 'n kbucket \<Rightarrow> 'n kbucket result" where
  "split_loop getHash [] b = Inr b"
| "split_loop getHash (n # ns) b =
     bind_result (determineBucket b (getHash n)) (\<lambda>w.
       case bucket_at w b of
         None \<Rightarrow> Inl UndefinedBehaviour
       | Some c \<Rightarrow> split_loop getHash ns (update_bucket_at w (push_back n c) b))"

definition split :: "('n \<Rightarrow> chash) \<Rightarrow> 'n kbucket \<Rightarrow> 'n kbucket result" where
  "split getHash b =
     (if isSplit b \<or> \<not> splittable b then Inr b
      else bind_result (getBit (node_hash b) (kb_index b + 1)) (\<lambda>my_hash_bit.
        let b1 = set_split_buckets
              (Some (KBucket_child (kb_index b + 1) (\<not> my_hash_bit) (node_hash b) (kb_k b)))
              (Some (KBucket_child (kb_index b + 1) my_hash_bit (node_hash b) (kb_k b))) b
        in bind_result (split_loop getHash (bucket_contents b) b1)
             (\<lambda>b2. Inr (set_contents [] b2))))"

text \<open>
  \<^verbatim>\<open>cleanup\<close> increments the iterator it has just erased: the first BAD contact makes the loop
  undefined.  (No caller in the sources.)
\<close>

fun cleanup_loop :: "('n \<Rightarrow> Reliability) \<Rightarrow> 'n list \<Rightarrow> unit result" where
  "cleanup_loop getReliability [] = Inr ()"
| "cleanup_loop getReliability (n # ns) =
     (if getReliability n = BAD then Inl UndefinedBehaviour else cleanup_loop getReliability ns)"

definition cleanup :: "('n \<Rightarrow> Reliability) \<Rightarrow> 'n kbucket \<Rightarrow> 'n kbucket result" where
  "cleanup getReliability b =
     bind_result (cleanup_loop getReliability (bucket_contents b)) (\<lambda>_. Inr b)"

text \<open>
  \<^verbatim>\<open>std::remove_if\<close> on pointers, its result iterator ignored as in \<^verbatim>\<open>addNode\<close>: the kept elements
  move to the front, the list keeps its length, and the positions behind them keep the pointers
  they held (what assigning the kept elements forward, one by one, leaves there).
\<close>

definition remove_if :: "('n \<Rightarrow> bool) \<Rightarrow> 'n list \<Rightarrow> 'n list" where
  "remove_if P xs = (let kept = filter (\<lambda>x. \<not> P x) xs in kept @ drop (length kept) xs)"

fun kb_height :: "'n kbucket \<Rightarrow> nat" where
  "kb_height (KBucket i k (Some f) (Some s) cs sp h) = Suc (max (kb_height f) (kb_height s))"
| "kb_height (KBucket i k f s cs sp h) = 0"

subsection \<open>Shape lemmas\<close>

lemma set_contents_sel [simp]:
  "kb_index (set_contents cs b) = kb_index b" "kb_k (set_contents cs b) = kb_k b"
  "kb_first (set_contents cs b) = kb_first b" "kb_second (set_contents cs b) = kb_second b"
  "bucket_contents (set_contents cs b) = cs" "splittable (set_contents cs b) = splittable b"
  "node_hash (set_contents cs b) = node_hash b"
  by (cases b; simp)+

lemma set_split_buckets_sel [simp]:
  "kb_index (set_split_buckets f s b) = kb_index b" "kb_k (set_split_buckets f s b) = kb_k b"
  "kb_first (set_split_buckets f s b) = f" "kb_second (set_split_buckets f s b) = s"
  "bucket_contents (set_split_buckets f s b) = bucket_contents b"
  "splittable (set_split_buckets f s b) = splittable b"
  "node_hash (set_split_buckets f s b) = node_hash b"
  by (cases b; simp)+

lemma push_back_sel [simp]:
  "kb_index (push_back n b) = kb_index b" "kb_k (push_back n b) = kb_k b"
  "kb_first (push_back n b) = kb_first b" "kb_second (push_back n b) = kb_second b"
  "bucket_contents (push_back n b) = bucket_contents b @ [n]"
  "splittable (push_back n b) = splittable b" "node_hash (push_back n b) = node_hash b"
  by (simp_all add: push_back_def)

lemma KBucket_child_sel [simp]:
  "kb_index (KBucket_child i sp h k) = i" "kb_k (KBucket_child i sp h k) = k"
  "kb_first (KBucket_child i sp h k) = None" "kb_second (KBucket_child i sp h k) = None"
  "bucket_contents (KBucket_child i sp h k) = []" "splittable (KBucket_child i sp h k) = sp"
  "node_hash (KBucket_child i sp h k) = h"
  by (simp_all add: KBucket_child_def)

lemma isSplit_simps [simp]:
  "isSplit (set_contents cs b) = isSplit b" "isSplit (push_back n b) = isSplit b"
  "isSplit (set_split_buckets (Some f) (Some s) b)" "\<not> isSplit (KBucket_child i sp h k)"
  by (simp_all add: isSplit_def)

lemma set_split_buckets_twice [simp]:
  "set_split_buckets f s (set_split_buckets f' s' b) = set_split_buckets f s b"
  by (cases b) simp

lemma set_split_buckets_same [simp]: "set_split_buckets (kb_first b) (kb_second b) b = b"
  by (cases b) simp

lemma set_contents_twice [simp]: "set_contents cs (set_contents cs' b) = set_contents cs b"
  by (cases b) simp

lemma set_contents_same [simp]: "set_contents (bucket_contents b) b = b"
  by (cases b) simp

lemma isSplitE:
  assumes "isSplit b"
  obtains f s where "kb_first b = Some f" "kb_second b = Some s"
    "b = KBucket (kb_index b) (kb_k b) (Some f) (Some s) (bucket_contents b) (splittable b) (node_hash b)"
  using assms by (cases b) (auto simp: isSplit_def)

lemma kb_height_leaf: "\<not> isSplit b \<Longrightarrow> kb_height b = 0"
  by (cases b rule: kb_height.cases) (auto simp: isSplit_def)

lemma kb_height_child:
  assumes "isSplit b" and "bucket_at w b = Some c" and "w \<noteq> This"
  shows "kb_height c < kb_height b"
proof -
  obtain f s where "kb_first b = Some f" "kb_second b = Some s"
    "b = KBucket (kb_index b) (kb_k b) (Some f) (Some s) (bucket_contents b) (splittable b) (node_hash b)"
    using assms(1) by (rule isSplitE)
  with assms(2,3) show ?thesis
    by (cases w) (metis bucket_at.simps kb_height.simps(1) less_Suc_eq_le max.cobounded1 max.cobounded2 option.inject)+
qed

lemma kb_height_first: "isSplit b \<Longrightarrow> Some c = kb_first b \<Longrightarrow> kb_height c < kb_height b"
  using kb_height_child [of b First c] by simp

lemma kb_height_second: "isSplit b \<Longrightarrow> Some c = kb_second b \<Longrightarrow> kb_height c < kb_height b"
  using kb_height_child [of b Second c] by simp

lemma determineBucket_split:
  "isSplit b \<Longrightarrow> determineBucket b h = Inr w \<longleftrightarrow>
     (\<exists>bt. getBit h (kb_index b + 1) = Inr bt \<and> w = (if bt then Second else First))"
  by (auto simp: determineBucket_def result_simps)

lemma getBit_bound: "getBit h i = Inr bt \<Longrightarrow> i < 8 * length (hash h)"
  by (auto simp: getBit_def Let_def Hash_toBinaryVector_def split: if_splits)

lemma getBit_total: "i < 8 * length (hash h) \<Longrightarrow> \<exists>bt. getBit h i = Inr bt"
  by (auto simp: getBit_def Let_def Hash_toBinaryVector_def)

definition distributed :: "('n \<Rightarrow> chash) \<Rightarrow> 'n list \<Rightarrow> nat \<Rightarrow> bool \<Rightarrow> 'n list" where
  "distributed getHash ns i bt = filter (\<lambda>n. getBit (getHash n) i = Inr bt) ns"

lemma split_loop_spec:
  assumes "split_loop getHash ns b = Inr b'" and "kb_first b = Some f" and "kb_second b = Some s"
  shows "b' = set_split_buckets
      (Some (set_contents (bucket_contents f @ distributed getHash ns (kb_index b + 1) False) f))
      (Some (set_contents (bucket_contents s @ distributed getHash ns (kb_index b + 1) True) s)) b \<and>
    (\<forall>n\<in>set ns. kb_index b + 1 < 8 * length (hash (getHash n)))"
  using assms
proof (induction ns arbitrary: b f s)
  case Nil
  then show ?case
    by (simp add: distributed_def) (metis set_split_buckets_same)
next
  case (Cons n ns)
  then have split: "isSplit b" by (simp add: isSplit_def)
  from Cons.prems obtain w c where w: "determineBucket b (getHash n) = Inr w"
    and c: "bucket_at w b = Some c"
    and rec: "split_loop getHash ns (update_bucket_at w (push_back n c) b) = Inr b'"
    by (auto simp: result_simps split: option.splits)
  from w split obtain bt where bt: "getBit (getHash n) (kb_index b + 1) = Inr bt"
    and wb: "w = (if bt then Second else First)"
    by (auto simp: determineBucket_split)
  show ?case
  proof (cases bt)
    case True
    with wb c Cons.prems rec have "split_loop getHash ns (set_split_buckets (Some f) (Some (push_back n s)) b) = Inr b'"
      by simp
    from Cons.IH [OF this] show ?thesis
      using bt True by (simp add: distributed_def push_back_def getBit_bound)
  next
    case False
    with wb c Cons.prems rec have "split_loop getHash ns (set_split_buckets (Some (push_back n f)) (Some s) b) = Inr b'"
      by simp
    from Cons.IH [OF this] show ?thesis
      using bt False by (simp add: distributed_def push_back_def getBit_bound)
  qed
qed

lemma split_spec:
  assumes "split getHash b = Inr b'" and "\<not> isSplit b" and "splittable b"
  obtains my where "getBit (node_hash b) (kb_index b + 1) = Inr my"
    "b' = set_contents [] (set_split_buckets
      (Some (set_contents (distributed getHash (bucket_contents b) (kb_index b + 1) False)
        (KBucket_child (kb_index b + 1) (\<not> my) (node_hash b) (kb_k b))))
      (Some (set_contents (distributed getHash (bucket_contents b) (kb_index b + 1) True)
        (KBucket_child (kb_index b + 1) my (node_hash b) (kb_k b)))) b)"
    "\<forall>n\<in>set (bucket_contents b). kb_index b + 1 < 8 * length (hash (getHash n))"
proof -
  from assms obtain my b2 where my: "getBit (node_hash b) (kb_index b + 1) = Inr my"
    and loop: "split_loop getHash (bucket_contents b) (set_split_buckets
              (Some (KBucket_child (kb_index b + 1) (\<not> my) (node_hash b) (kb_k b)))
              (Some (KBucket_child (kb_index b + 1) my (node_hash b) (kb_k b))) b) = Inr b2"
    and b': "b' = set_contents [] b2"
    by (auto simp: split_def result_simps Let_def)
  from split_loop_spec [OF loop] my b' show ?thesis
    by (intro that [of my]) simp_all
qed

lemma split_child:
  assumes "split getHash b = Inr b'" "\<not> isSplit b" "splittable b"
    and "determineBucket b' h = Inr w" "bucket_at w b' = Some c"
  shows "kb_height c = 0 \<and> kb_index c = Suc (kb_index b) \<and> node_hash c = node_hash b \<and>
    Suc (kb_index b) < 8 * length (hash (node_hash b))"
proof -
  from assms(1-3) obtain my where my: "getBit (node_hash b) (kb_index b + 1) = Inr my"
    and b': "b' = set_contents [] (set_split_buckets
      (Some (set_contents (distributed getHash (bucket_contents b) (kb_index b + 1) False)
        (KBucket_child (kb_index b + 1) (\<not> my) (node_hash b) (kb_k b))))
      (Some (set_contents (distributed getHash (bucket_contents b) (kb_index b + 1) True)
        (KBucket_child (kb_index b + 1) my (node_hash b) (kb_k b)))) b)"
    by (rule split_spec)
  have "isSplit b'" by (simp add: b')
  with assms(4,5) b' getBit_bound [OF my] show ?thesis
    by (auto simp: determineBucket_split kb_height_leaf split: if_splits)
qed

function addNode ::
  "('n \<Rightarrow> chash) \<Rightarrow> ('n \<Rightarrow> Reliability) \<Rightarrow> 'n \<Rightarrow> bool \<Rightarrow> 'n kbucket \<Rightarrow> 'n kbucket result" where
  "addNode getHash getReliability node force b =
     (if \<not> isSplit b then
        if length (bucket_contents b) < unat (kb_k b) then Inr (push_back node b)
        else
          let b1 = set_contents
                (remove_if (\<lambda>n. getReliability n = BAD) (bucket_contents b)) b
          in if node \<in> set (bucket_contents b1) then Inr b1
             else if unat (kb_k b1) \<le> length (bucket_contents b1) \<and> splittable b1 then
               bind_result (split getHash b1) (\<lambda>b2.
               bind_result (determineBucket b2 (getHash node)) (\<lambda>w.
                 case bucket_at w b2 of
                   None \<Rightarrow> Inl UndefinedBehaviour
                 | Some c \<Rightarrow> bind_result (addNode getHash getReliability node force c)
                     (\<lambda>c'. Inr (update_bucket_at w c' b2))))
             else if length (bucket_contents b1) < unat (kb_k b1) \<or> force
             then Inr (push_back node b1)
             else Inr b1
      else
        bind_result (determineBucket b (getHash node)) (\<lambda>w.
          case bucket_at w b of
            None \<Rightarrow> Inl UndefinedBehaviour
          | Some c \<Rightarrow> bind_result (addNode getHash getReliability node force c)
              (\<lambda>c'. Inr (update_bucket_at w c' b))))"
  by pat_completeness auto

termination
proof (relation "measures [\<lambda>(_, _, _, _, b). kb_height b,
    \<lambda>(_, _, _, _, b). 8 * length (hash (node_hash b)) - kb_index b]", goal_cases)
  case 1
  show ?case by simp
next
  case (2 getHash getReliability node force b b1 b2 w c)
  then show ?case
    using split_child [of getHash b1 b2 "getHash node" w c] by (auto simp: kb_height_leaf)
next
  case (3 getHash getReliability node force b w c)
  then have "w \<noteq> This" by (auto simp: determineBucket_split split: if_splits)
  with 3 kb_height_child [of b w c] show ?case by auto
qed

declare addNode.simps [simp del]

subsection \<open>The remaining operations\<close>

lemma determineBucket_child:
  "isSplit b \<Longrightarrow> determineBucket b h = Inr w \<Longrightarrow> bucket_at w b = Some c \<Longrightarrow> kb_height c < kb_height b"
  by (rule kb_height_child) (auto simp: determineBucket_split split: if_splits)

function removeNode :: "('n \<Rightarrow> chash) \<Rightarrow> 'n \<Rightarrow> 'n kbucket \<Rightarrow> 'n kbucket result" where
  "removeNode getHash node b =
     (if \<not> isSplit b then Inr (set_contents (remove1 node (bucket_contents b)) b)
      else
        bind_result (determineBucket b (getHash node)) (\<lambda>w.
          case bucket_at w b of
            None \<Rightarrow> Inl UndefinedBehaviour
          | Some c \<Rightarrow> bind_result (removeNode getHash node c)
              (\<lambda>c'. Inr (update_bucket_at w c' b))))"
  by pat_completeness auto

termination
  by (relation "measure (\<lambda>(_, _, b). kb_height b)") (auto intro: determineBucket_child)

declare removeNode.simps [simp del]

text \<open>
  The loop of \<^verbatim>\<open>getClosest\<close> in a leaf: \<^verbatim>\<open>while(i < n || it != end) { push_back(*it); i++; }\<close>.
  The iterator \<open>it\<close> stays at the first element.  Dereferencing the end iterator of an empty list
  and incrementing an \<^verbatim>\<open>int\<close> beyond its largest value are undefined.
\<close>

definition INT_MAX :: int where
  "INT_MAX = 2147483647"

function closest_loop :: "int \<Rightarrow> int \<Rightarrow> 'n list \<Rightarrow> 'n list \<Rightarrow> 'n list result" where
  "closest_loop i n contents result_list =
     (if i < n \<or> contents \<noteq> [] then
        (case contents of
           [] \<Rightarrow> Inl UndefinedBehaviour
         | x # _ \<Rightarrow>
             if i \<ge> INT_MAX then Inl UndefinedBehaviour
             else closest_loop (i + 1) n contents (result_list @ [x]))
      else Inr result_list)"
  by pat_completeness auto
termination
  by (relation "measure (\<lambda>(i, _, _, _). nat (INT_MAX - i))") auto

declare closest_loop.simps [simp del]

text \<open>
  The comparison \<^verbatim>\<open>result_list.size() < n\<close> is between \<^verbatim>\<open>size_t\<close> and \<^verbatim>\<open>int\<close>, so \<open>n\<close> is converted to
  an unsigned 64-bit number.
\<close>

function getClosest :: "chash \<Rightarrow> int \<Rightarrow> 'n kbucket \<Rightarrow> 'n list result" where
  "getClosest h n b =
     (if \<not> isSplit b then closest_loop 0 n (bucket_contents b) []
      else
        bind_result (determineBucket b h) (\<lambda>first.
          let second = (if first = First then Second else First)
          in case (bucket_at first b, bucket_at second b) of
               (Some c1, Some c2) \<Rightarrow>
                 bind_result (getClosest h n c1) (\<lambda>result_list.
                   if int (length result_list) < uint (word_of_int n :: size_t)
                   then bind_result (getClosest h n c2)
                          (\<lambda>appendix. Inr (result_list @ appendix))
                   else Inr result_list)
             | _ \<Rightarrow> Inl UndefinedBehaviour))"
  by pat_completeness auto
termination
  by (relation "measure (\<lambda>(_, _, b). kb_height b)")
    (auto intro: kb_height_first kb_height_second simp: determineBucket_split split: if_splits)

declare getClosest.simps [simp del]

fun addNodes ::
  "('n \<Rightarrow> chash) \<Rightarrow> ('n \<Rightarrow> Reliability) \<Rightarrow> 'n list \<Rightarrow> 'n kbucket \<Rightarrow> 'n kbucket result" where
  "addNodes getHash getReliability [] b = Inr b"
| "addNodes getHash getReliability (n # ns) b =
     bind_result (addNode getHash getReliability n False b) (addNodes getHash getReliability ns)"

text \<open>
  \<^verbatim>\<open>rebuild\<close> takes a new own hash and does not use it.  The set of nodes is walked in the order
  of its elements, given here as a list.
\<close>

definition rebuild ::
  "('n \<Rightarrow> chash) \<Rightarrow> ('n \<Rightarrow> Reliability) \<Rightarrow> chash \<Rightarrow> 'n list \<Rightarrow> 'n kbucket \<Rightarrow> 'n kbucket result" where
  "rebuild getHash getReliability node_h node_list b =
     addNodes getHash getReliability node_list (set_split_buckets None None (set_contents [] b))"

fun count :: "'n kbucket \<Rightarrow> int" where
  "count (KBucket i k (Some f) (Some s) cs sp h) = count f + count s"
| "count (KBucket i k f s cs sp h) = int (length cs)"

end
