(* ===== verification/KBucket_Props.thy ===== *)
theory KBucket_Props
  imports KBucket
begin

section \<open>K-buckets: invariant, capacity, termination and histories\<close>

text \<open>
  The tree invariant of the buckets of theory \<open>KBucket\<close>, the induction rule for an addition that
  returns, the bound on the number of contacts, the conditions under which the operations return,
  and the properties of the public operations.
\<close>

subsection \<open>Invariant\<close>

lemma isSplit_childrenE:
  assumes "isSplit b"
  obtains f s where "kb_first b = Some f" "kb_second b = Some s"
  using assms by (rule isSplitE)

text \<open>The contacts of a bucket, leaf by leaf.\<close>

fun kb_nodes :: "'n kbucket \<Rightarrow> 'n list" where
  "kb_nodes (KBucket i k (Some f) (Some s) cs sp h) = kb_nodes f @ kb_nodes s"
| "kb_nodes (KBucket i k f s cs sp h) = cs"

text \<open>
  What every bucket of a tree satisfies: a leaf has no children; a split bucket holds no contacts
  itself, its children look at the next bit, exactly the child on the side of the own hash may be
  split further, and every contact sits on the side its hash asks for.
\<close>

fun kb_inv :: "('n \<Rightarrow> chash) \<Rightarrow> 'n kbucket \<Rightarrow> bool" where
  "kb_inv getHash (KBucket i k (Some f) (Some s) cs sp h) \<longleftrightarrow>
     cs = [] \<and> sp \<and> kb_index f = Suc i \<and> kb_index s = Suc i \<and> kb_k f = k \<and> kb_k s = k \<and>
     node_hash f = h \<and> node_hash s = h \<and>
     getBit h (Suc i) = Inr (splittable s) \<and> splittable f = (\<not> splittable s) \<and>
     (\<forall>n\<in>set (kb_nodes f). getBit (getHash n) (Suc i) = Inr False) \<and>
     (\<forall>n\<in>set (kb_nodes s). getBit (getHash n) (Suc i) = Inr True) \<and>
     kb_inv getHash f \<and> kb_inv getHash s"
| "kb_inv getHash (KBucket i k None None cs sp h) \<longleftrightarrow> True"
| "kb_inv getHash (KBucket i k _ _ cs sp h) \<longleftrightarrow> False"

definition same_frame :: "'n kbucket \<Rightarrow> 'n kbucket \<Rightarrow> bool" where
  "same_frame b b' \<longleftrightarrow> kb_index b' = kb_index b \<and> kb_k b' = kb_k b \<and>
     splittable b' = splittable b \<and> node_hash b' = node_hash b"

lemma kb_nodes_leaf: "\<not> isSplit b \<Longrightarrow> kb_nodes b = bucket_contents b"
  by (cases b rule: kb_nodes.cases) (auto simp: isSplit_def)

lemma kb_nodes_split:
  "kb_first b = Some f \<Longrightarrow> kb_second b = Some s \<Longrightarrow> kb_nodes b = kb_nodes f @ kb_nodes s"
  by (cases b) auto

lemma kb_inv_leaf: "\<not> isSplit b \<Longrightarrow> kb_inv getHash b \<longleftrightarrow> kb_first b = None \<and> kb_second b = None"
  by (cases b; cases "kb_first b"; cases "kb_second b") (auto simp: isSplit_def)

lemma kb_inv_split:
  "kb_first b = Some f \<Longrightarrow> kb_second b = Some s \<Longrightarrow> kb_inv getHash b \<longleftrightarrow>
     bucket_contents b = [] \<and> splittable b \<and>
     kb_index f = Suc (kb_index b) \<and> kb_index s = Suc (kb_index b) \<and> kb_k f = kb_k b \<and> kb_k s = kb_k b \<and>
     node_hash f = node_hash b \<and> node_hash s = node_hash b \<and>
     getBit (node_hash b) (Suc (kb_index b)) = Inr (splittable s) \<and> splittable f = (\<not> splittable s) \<and>
     (\<forall>n\<in>set (kb_nodes f). getBit (getHash n) (Suc (kb_index b)) = Inr False) \<and>
     (\<forall>n\<in>set (kb_nodes s). getBit (getHash n) (Suc (kb_index b)) = Inr True) \<and>
     kb_inv getHash f \<and> kb_inv getHash s"
  by (cases b) auto

lemma mset_distributed:
  assumes "\<forall>n\<in>set ns. i < 8 * length (hash (getHash n))"
  shows "mset (distributed getHash ns i False) + mset (distributed getHash ns i True) = mset ns"
  using assms
proof (induction ns)
  case (Cons n ns)
  then obtain bt where "getBit (getHash n) i = Inr bt" using getBit_total by force
  with Cons show ?case by (cases bt) (simp_all add: distributed_def)
qed (simp add: distributed_def)

lemma same_frame_trans: "same_frame a b \<Longrightarrow> same_frame b c \<Longrightarrow> same_frame a c"
  by (simp add: same_frame_def)

lemma same_frame_simps [simp]: "same_frame b b" "same_frame b (set_contents cs b)"
  "same_frame b (push_back n b)" "same_frame b (set_split_buckets f s b)"
  by (simp_all add: same_frame_def)

lemma split_inv:
  assumes "split getHash b = Inr b'" and "\<not> isSplit b" and "splittable b"
  shows "isSplit b' \<and> kb_inv getHash b' \<and> same_frame b b' \<and> mset (kb_nodes b') = mset (kb_nodes b)"
proof -
  from assms obtain my where my: "getBit (node_hash b) (kb_index b + 1) = Inr my"
    and b': "b' = set_contents [] (set_split_buckets
      (Some (set_contents (distributed getHash (bucket_contents b) (kb_index b + 1) False)
        (KBucket_child (kb_index b + 1) (\<not> my) (node_hash b) (kb_k b))))
      (Some (set_contents (distributed getHash (bucket_contents b) (kb_index b + 1) True)
        (KBucket_child (kb_index b + 1) my (node_hash b) (kb_k b)))) b)"
    and len: "\<forall>n\<in>set (bucket_contents b). kb_index b + 1 < 8 * length (hash (getHash n))"
    by (rule split_spec)
  have "mset (kb_nodes b') = mset (bucket_contents b)"
    using mset_distributed [OF len] by (simp add: b' kb_nodes_split kb_nodes_leaf)
  moreover have "kb_inv getHash b'"
    using my assms(3) by (simp add: b' kb_inv_split kb_nodes_leaf kb_inv_leaf distributed_def)
  ultimately show ?thesis using assms(2) by (simp add: b' kb_nodes_leaf same_frame_def)
qed

lemma set_remove_if: "set (remove_if P xs) \<subseteq> set xs"
  by (auto simp: remove_if_def Let_def dest: in_set_dropD)

lemma length_remove_if [simp]: "length (remove_if P xs) = length xs"
  by (simp add: remove_if_def Let_def)

lemma remove_if_id: "\<forall>x\<in>set xs. \<not> P x \<Longrightarrow> remove_if P xs = xs"
  by (simp add: remove_if_def Let_def filter_id_conv [THEN iffD2])

text \<open>The ways an \<^const>\<open>addNode\<close> that returns can go, as an induction rule.\<close>

lemma addNode_success_induct [consumes 1, case_names room kept forced split descend]:
  assumes "addNode getHash getReliability node force b = Inr b'"
    and "\<And>b. \<not> isSplit b \<Longrightarrow> length (bucket_contents b) < unat (kb_k b) \<Longrightarrow> P b (push_back node b)"
    and "\<And>b cs. \<not> isSplit b \<Longrightarrow> unat (kb_k b) \<le> length (bucket_contents b) \<Longrightarrow>
      cs = remove_if (\<lambda>n. getReliability n = BAD) (bucket_contents b) \<Longrightarrow>
      node \<in> set cs \<or> \<not> splittable b \<and> \<not> force \<Longrightarrow> P b (set_contents cs b)"
    and "\<And>b cs. \<not> isSplit b \<Longrightarrow> unat (kb_k b) \<le> length (bucket_contents b) \<Longrightarrow>
      cs = remove_if (\<lambda>n. getReliability n = BAD) (bucket_contents b) \<Longrightarrow>
      node \<notin> set cs \<Longrightarrow> \<not> splittable b \<Longrightarrow> force \<Longrightarrow> P b (set_contents (cs @ [node]) b)"
    and "\<And>b cs b2 b'. \<not> isSplit b \<Longrightarrow> unat (kb_k b) \<le> length (bucket_contents b) \<Longrightarrow>
      cs = remove_if (\<lambda>n. getReliability n = BAD) (bucket_contents b) \<Longrightarrow>
      node \<notin> set cs \<Longrightarrow> splittable b \<Longrightarrow> split getHash (set_contents cs b) = Inr b2 \<Longrightarrow>
      P b2 b' \<Longrightarrow> P b b'"
    and descend: "\<And>b w c c'. isSplit b \<Longrightarrow> determineBucket b (getHash node) = Inr w \<Longrightarrow>
      bucket_at w b = Some c \<Longrightarrow> P c c' \<Longrightarrow> P b (update_bucket_at w c' b)"
  shows "P b b'"
  using assms(1)
proof (induction getHash\<equiv>getHash getReliability\<equiv>getReliability node\<equiv>node force\<equiv>force b
    arbitrary: b' rule: addNode.induct)
  case (1 b)
  let ?cs = "remove_if (\<lambda>n. getReliability n = BAD) (bucket_contents b)"
  show ?case
  proof (cases "isSplit b")
    case True
    with 1(3) obtain w c c' where "determineBucket b (getHash node) = Inr w" "bucket_at w b = Some c"
      "addNode getHash getReliability node force c = Inr c'" "b' = update_bucket_at w c' b"
      by (subst (asm) addNode.simps) (auto simp: result_simps split: option.splits)
    with True 1(2) show ?thesis by (auto intro: descend)
  next
    case leaf: False
    show ?thesis
    proof (cases "unat (kb_k b) \<le> length (bucket_contents b) \<and> node \<notin> set ?cs \<and> splittable b")
      case True
      with leaf 1(3) obtain b2 w c c' where b2: "split getHash (set_contents ?cs b) = Inr b2"
        and d: "determineBucket b2 (getHash node) = Inr w" "bucket_at w b2 = Some c"
        "addNode getHash getReliability node force c = Inr c'" "b' = update_bucket_at w c' b2"
        by (subst (asm) addNode.simps) (auto simp: Let_def result_simps split: option.splits)
      from split_inv [OF b2] leaf True have "isSplit b2" by simp
      with d 1(1) [OF leaf _ refl _ _ b2 d(1,2)] True have "P b2 b'"
        by (auto intro: descend)
      with assms(5) leaf True b2 show ?thesis by blast
    next
      case False
      with leaf 1(3) assms(2-4) [of b] show ?thesis
        by (subst (asm) addNode.simps) (auto simp: Let_def push_back_def split: if_splits)
    qed
  qed
qed

lemma update_child_inv:
  assumes "isSplit b" "determineBucket b h = Inr w" "bucket_at w b = Some c" "kb_inv getHash b"
    and "kb_inv getHash c'" "same_frame c c'"
    and "\<forall>n\<in>set (kb_nodes c'). n \<in> set (kb_nodes c) \<or> getHash n = h"
  shows "kb_inv getHash (update_bucket_at w c' b)"
proof -
  obtain f s where fs: "kb_first b = Some f" "kb_second b = Some s" using assms(1) by (rule isSplitE)
  from assms(1,2) obtain bt where "getBit h (Suc (kb_index b)) = Inr bt"
    "w = (if bt then Second else First)" by (auto simp: determineBucket_split)
  with assms fs show ?thesis
    by (cases bt) (auto simp: kb_inv_split same_frame_def)
qed

lemma update_child_nodes:
  assumes "isSplit b" "determineBucket b h = Inr w" "bucket_at w b = Some c"
  shows "\<exists>rest. mset (kb_nodes b) = mset (kb_nodes c) + rest \<and>
    (\<forall>c'. mset (kb_nodes (update_bucket_at w c' b)) = mset (kb_nodes c') + rest)"
proof -
  obtain f s where fs: "kb_first b = Some f" "kb_second b = Some s" using assms(1) by (rule isSplitE)
  from assms(1,2) obtain bt where "w = (if bt then Second else First)" by (auto simp: determineBucket_split)
  with assms fs show ?thesis
    by (cases bt) (auto simp: kb_nodes_split)
qed

lemma same_frame_update_child:
  "isSplit b \<Longrightarrow> determineBucket b h = Inr w \<Longrightarrow> same_frame b (update_bucket_at w c b)"
  by (auto simp: determineBucket_split)

lemma addNode_inv:
  assumes "addNode getHash getReliability node force b = Inr b'"
  shows "same_frame b b' \<and> (kb_inv getHash b \<longrightarrow> kb_inv getHash b') \<and>
    set (kb_nodes b') \<subseteq> insert node (set (kb_nodes b))"
  using assms
proof (induction rule: addNode_success_induct)
  case (split b cs b2 b')
  from split_inv [OF split(6)] split(1,5)
  have "kb_inv getHash b2" "same_frame b b2" "set (kb_nodes b2) = set cs"
    by (auto simp: kb_nodes_leaf same_frame_def dest: mset_eq_setD)
  with split(1,3,7) show ?case
    using set_remove_if by (fastforce simp: kb_nodes_leaf intro: same_frame_trans)
next
  case (descend b w c c')
  obtain rest where rest: "mset (kb_nodes b) = mset (kb_nodes c) + rest"
    "\<forall>c'. mset (kb_nodes (update_bucket_at w c' b)) = mset (kb_nodes c') + rest"
    using update_child_nodes [OF descend(1-3)] by blast
  have sets: "set (kb_nodes b) = set (kb_nodes c) \<union> set_mset rest"
    "set (kb_nodes (update_bucket_at w c' b)) = set (kb_nodes c') \<union> set_mset rest"
    by (metis rest set_mset_mset set_mset_union)+
  have "kb_inv getHash b \<Longrightarrow> kb_inv getHash c"
    using descend(1-3) by (auto simp: determineBucket_split kb_inv_split elim!: isSplit_childrenE split: if_splits)
  with descend update_child_inv [OF descend(1-3), of getHash c'] show ?case
    by (auto simp: sets same_frame_update_child)
qed (auto simp: kb_inv_leaf kb_nodes_leaf dest: set_remove_if [THEN subsetD])


lemma child_inv:
  assumes "isSplit b" "determineBucket b h = Inr w" "bucket_at w b = Some c" "kb_inv getHash b"
  shows "kb_inv getHash c \<and> kb_index c = Suc (kb_index b) \<and> node_hash c = node_hash b \<and> kb_k c = kb_k b"
  using assms by (auto simp: determineBucket_split kb_inv_split elim!: isSplit_childrenE split: if_splits)

lemma addNode_mset:
  assumes "addNode getHash getReliability node force b = Inr b'"
    and "\<forall>n\<in>set (kb_nodes b). getReliability n \<noteq> BAD"
  shows "mset (kb_nodes b') = mset (kb_nodes b) \<or> mset (kb_nodes b') = add_mset node (mset (kb_nodes b))"
  using assms
proof (induction rule: addNode_success_induct)
  case (split b cs b2 b')
  from split(1,3,8) have "cs = bucket_contents b" by (simp add: kb_nodes_leaf remove_if_id)
  with split_inv [OF split(6)] split(1,5) have "mset (kb_nodes b2) = mset (kb_nodes b)"
    by (simp add: kb_nodes_leaf)
  with split(7,8) show ?case by (metis set_mset_mset)
next
  case (descend b w c c')
  obtain rest where rest: "mset (kb_nodes b) = mset (kb_nodes c) + rest"
    "\<forall>c'. mset (kb_nodes (update_bucket_at w c' b)) = mset (kb_nodes c') + rest"
    using update_child_nodes [OF descend(1-3)] by blast
  have "set (kb_nodes c) \<subseteq> set (kb_nodes b)"
    by (metis rest(1) set_mset_mset set_mset_union sup_ge1)
  with descend(4,5) rest show ?case by auto
qed (auto simp: kb_nodes_leaf remove_if_id)

lemma addNode_force:
  assumes "addNode getHash getReliability node force b = Inr b'" and "force"
  shows "node \<in> set (kb_nodes b')"
  using assms
proof (induction rule: addNode_success_induct)
  case (descend b w c c')
  obtain rest where "\<forall>c'. mset (kb_nodes (update_bucket_at w c' b)) = mset (kb_nodes c') + rest"
    using update_child_nodes [OF descend(1-3)] by blast
  with descend(4,5) show ?case by (metis UnI1 set_mset_mset set_mset_union)
qed (auto simp: kb_nodes_leaf)

subsection \<open>Capacity\<close>

fun leaves_le :: "nat \<Rightarrow> 'n kbucket \<Rightarrow> bool" where
  "leaves_le m (KBucket i k (Some f) (Some s) cs sp h) \<longleftrightarrow> leaves_le m f \<and> leaves_le m s"
| "leaves_le m (KBucket i k f s cs sp h) \<longleftrightarrow> length cs \<le> m"

lemma leaves_le_leaf: "\<not> isSplit b \<Longrightarrow> leaves_le m b \<longleftrightarrow> length (bucket_contents b) \<le> m"
  by (cases b; cases "kb_first b"; cases "kb_second b") (auto simp: isSplit_def)

lemma leaves_le_split:
  "kb_first b = Some f \<Longrightarrow> kb_second b = Some s \<Longrightarrow> leaves_le m b \<longleftrightarrow> leaves_le m f \<and> leaves_le m s"
  by (cases b) auto

lemma split_leaves_le:
  assumes "split getHash b = Inr b'" and "\<not> isSplit b" and "splittable b" and "leaves_le m b"
  shows "leaves_le m b'"
  using assms(1-3)
proof (rule split_spec)
  fix my
  assume "b' = set_contents [] (set_split_buckets
      (Some (set_contents (distributed getHash (bucket_contents b) (kb_index b + 1) False)
        (KBucket_child (kb_index b + 1) (\<not> my) (node_hash b) (kb_k b))))
      (Some (set_contents (distributed getHash (bucket_contents b) (kb_index b + 1) True)
        (KBucket_child (kb_index b + 1) my (node_hash b) (kb_k b)))) b)"
  with assms(2,4) show ?thesis
    by (auto simp: leaves_le_split leaves_le_leaf distributed_def intro: order_trans [OF length_filter_le])
qed

lemma child_leaves_le:
  assumes "isSplit b" "determineBucket b h = Inr w" "bucket_at w b = Some c"
  shows "leaves_le m b \<Longrightarrow> leaves_le m c"
    and "leaves_le m b \<Longrightarrow> leaves_le m c' \<Longrightarrow> leaves_le m (update_bucket_at w c' b)"
  using assms by (auto simp: determineBucket_split leaves_le_split elim!: isSplit_childrenE split: if_splits)

lemma addNode_leaves_le:
  assumes "addNode getHash getReliability node force b = Inr b'" and "\<not> force"
    and "kb_inv getHash b" and "kb_k b = k" and "leaves_le (unat k) b"
  shows "leaves_le (unat k) b'"
  using assms
proof (induction rule: addNode_success_induct)
  case (split b cs b2 b')
  have "leaves_le (unat k) (set_contents cs b)"
    using split by (simp add: leaves_le_leaf)
  with split split_leaves_le [OF split(6)] split_inv [OF split(6)] show ?case
    by (simp add: same_frame_def)
next
  case (descend b w c c')
  with child_inv [OF descend(1-3)] child_leaves_le [OF descend(1-3)] show ?case by simp
qed (auto simp: leaves_le_leaf)

lemma kb_inv_height:
  "kb_inv getHash b \<Longrightarrow> isSplit b \<Longrightarrow> kb_index b + kb_height b < 8 * length (hash (node_hash b))"
proof (induction b rule: kb_height.induct)
  case (1 i k f s cs sp h)
  then have "Suc i < 8 * length (hash h)" by (auto dest: getBit_bound)
  with 1 show ?case
    by (cases "isSplit f"; cases "isSplit s") (auto simp: kb_height_leaf)
qed (auto simp: isSplit_def)

lemma unsplittable_leaf: "kb_inv getHash b \<Longrightarrow> \<not> splittable b \<Longrightarrow> \<not> isSplit b"
  by (auto simp: kb_inv_split elim!: isSplit_childrenE)

lemma nodes_le_height:
  "kb_inv getHash b \<Longrightarrow> leaves_le m b \<Longrightarrow> length (kb_nodes b) \<le> m * Suc (kb_height b)"
proof (induction b rule: kb_height.induct)
  case (1 i k f s cs sp h)
  then have IH: "length (kb_nodes f) \<le> m * Suc (kb_height f)" "length (kb_nodes s) \<le> m * Suc (kb_height s)"
    and "kb_height f = 0 \<or> kb_height s = 0"
    by (auto simp: kb_height_leaf dest: unsplittable_leaf)
  then show ?case by (auto simp: algebra_simps)
qed auto

lemma kb_inv_length_bound:
  assumes "kb_inv getHash b" "leaves_le m b" "0 < length (hash (node_hash b))"
  shows "length (kb_nodes b) \<le> m * (8 * length (hash (node_hash b)))"
proof -
  have "Suc (kb_height b) \<le> 8 * length (hash (node_hash b))"
    using assms(1,3) kb_inv_height [of getHash b] kb_height_leaf [of b]
    by (cases "isSplit b") (auto simp: Suc_le_eq)
  with nodes_le_height [OF assms(1,2)] show ?thesis
    by (meson le_trans mult_le_mono2)
qed

lemma count_eq: "count b = int (length (kb_nodes b))"
  by (induction b rule: count.induct) auto


subsection \<open>Removal and lookup\<close>

lemma diff_single_union:
  "x \<notin># B \<Longrightarrow> A + B - {#x#} = (A - {#x#}) + B" "x \<notin># A \<Longrightarrow> A + B - {#x#} = A + (B - {#x#})"
  by (simp_all add: multiset_eq_iff not_in_iff)

lemma removeNode_correct:
  assumes "kb_inv getHash b" and "length (hash (node_hash b)) \<le> length (hash (getHash node))"
  shows "\<exists>b'. removeNode getHash node b = Inr b' \<and> kb_inv getHash b' \<and> same_frame b b' \<and>
    mset (kb_nodes b') = mset (kb_nodes b) - {#node#} \<and> (leaves_le m b \<longrightarrow> leaves_le m b')"
  using assms
proof (induction getHash node b rule: removeNode.induct)
  case (1 getHash node b)
  show ?case
  proof (cases "isSplit b")
    case True
    have "Suc (kb_index b) < 8 * length (hash (getHash node))"
      using True 1(2,3) by (auto simp: kb_inv_split elim!: isSplit_childrenE dest!: getBit_bound)
    then obtain bt where bt: "getBit (getHash node) (Suc (kb_index b)) = Inr bt"
      using getBit_total by blast
    obtain f s where fs: "kb_first b = Some f" "kb_second b = Some s" using True by (rule isSplitE)
    define w where "w = (if bt then Second else First)"
    define c where "c = (if bt then s else f)"
    have w: "determineBucket b (getHash node) = Inr w" and c: "bucket_at w b = Some c"
      using True bt fs by (simp_all add: determineBucket_split w_def c_def)
    note child = child_inv [OF True w c 1(2)]
    obtain c' where c': "removeNode getHash node c = Inr c'" "kb_inv getHash c'" "same_frame c c'"
      "mset (kb_nodes c') = mset (kb_nodes c) - {#node#}" "leaves_le m c \<longrightarrow> leaves_le m c'"
      using 1(1) [OF _ w c] True child 1(3) by auto
    have eq: "removeNode getHash node b = Inr (update_bucket_at w c' b)"
      using True w c c' by (subst removeNode.simps) simp
    have sub: "set (kb_nodes c') \<subseteq> set (kb_nodes c)"
      using c'(4) by (metis in_diffD set_mset_mset subsetI)
    have "node \<notin> set (kb_nodes (if bt then f else s))"
      using fs 1(2) bt by (auto simp: kb_inv_split)
    then have nodes: "mset (kb_nodes (update_bucket_at w c' b)) = mset (kb_nodes b) - {#node#}"
      using c'(4) fs by (cases bt) (simp_all add: w_def c_def kb_nodes_split diff_single_union)
    have "kb_inv getHash (update_bucket_at w c' b)"
      using update_child_inv [OF True w c 1(2) c'(2,3)] sub by blast
    moreover have "leaves_le m b \<longrightarrow> leaves_le m (update_bucket_at w c' b)"
      using c'(5) child_leaves_le [OF True w c] by blast
    ultimately show ?thesis
      using eq nodes same_frame_update_child [OF True w] by blast
  next
    case False
    then show ?thesis using 1(2)
      by (subst removeNode.simps)
        (auto simp: kb_nodes_leaf kb_inv_leaf leaves_le_leaf length_remove1)
  qed
qed

text \<open>The contacts of the leaf that a walk by \<^const>\<open>determineBucket\<close> reaches for a hash.\<close>

fun kb_locate :: "chash \<Rightarrow> 'n kbucket \<Rightarrow> 'n list" where
  "kb_locate h (KBucket i k (Some f) (Some s) cs sp h') =
     (case getBit h (Suc i) of Inr bt \<Rightarrow> if bt then kb_locate h s else kb_locate h f | Inl _ \<Rightarrow> [])"
| "kb_locate h (KBucket i k f s cs sp h') = cs"

lemma kb_locate_iff:
  "kb_inv getHash b \<Longrightarrow> n \<in> set (kb_locate (getHash n) b) \<longleftrightarrow> n \<in> set (kb_nodes b)"
proof (induction b rule: kb_nodes.induct)
  case (1 i k f s cs sp h)
  show ?case
  proof (cases "getBit (getHash n) (Suc i)")
    case (Inl e)
    with 1(3) show ?thesis by auto
  next
    case (Inr bt)
    with 1 show ?thesis by (cases bt) auto
  qed
qed simp_all

subsection \<open>Returning\<close>

text \<open>
  A contact whose hash agrees with the own hash on all bits the tree looks at (all but bit 0)
  ends in the deepest bucket.
\<close>

definition twin :: "('n \<Rightarrow> chash) \<Rightarrow> chash \<Rightarrow> 'n \<Rightarrow> bool" where
  "twin getHash h n \<longleftrightarrow> (\<forall>i\<in>{1..<8 * length (hash h)}. getBit (getHash n) i = getBit h i)"

definition on_path :: "('n \<Rightarrow> chash) \<Rightarrow> 'n kbucket \<Rightarrow> bool" where
  "on_path getHash b \<longleftrightarrow> (splittable b \<longrightarrow>
     (\<forall>n\<in>set (kb_nodes b). \<forall>i\<in>{1..kb_index b}. getBit (getHash n) i = getBit (node_hash b) i))"

lemma split_returns:
  assumes "Suc (kb_index b) < 8 * length (hash (node_hash b))"
    and "\<forall>n\<in>set (bucket_contents b). length (hash (getHash n)) = length (hash (node_hash b))"
  shows "\<exists>b'. split getHash b = Inr b'"
proof -
  have loop: "\<exists>b'. split_loop getHash ns b0 = Inr b'"
    if "\<forall>n\<in>set ns. Suc (kb_index b0) < 8 * length (hash (getHash n))" "isSplit b0" for ns b0
    using that
  proof (induction ns arbitrary: b0)
    case (Cons n ns)
    then obtain bt where "getBit (getHash n) (Suc (kb_index b0)) = Inr bt"
      using getBit_total by force
    then show ?case using Cons
      by (cases bt) (auto simp: determineBucket_def elim!: isSplit_childrenE)
  qed simp
  obtain my where "getBit (node_hash b) (Suc (kb_index b)) = Inr my" using assms(1) getBit_total by blast
  then show ?thesis
    using loop [of "bucket_contents b"] assms by (fastforce simp: split_def Let_def result_simps)
qed

lemma child_on_path:
  assumes "isSplit b" "determineBucket b h = Inr w" "bucket_at w b = Some c" "kb_inv getHash b" "on_path getHash b"
  shows "on_path getHash c"
proof -
  obtain f s where fs: "kb_first b = Some f" "kb_second b = Some s" using assms(1) by (rule isSplitE)
  from assms(1,2) obtain bt where bt: "w = (if bt then Second else First)"
    by (auto simp: determineBucket_split)
  show ?thesis
    using assms(3-5) fs bt unfolding on_path_def
    by (cases bt) (simp_all add: kb_inv_split kb_nodes_split atLeastAtMostSuc_conv)
qed


definition twins :: "('n \<Rightarrow> chash) \<Rightarrow> 'n kbucket \<Rightarrow> nat" where
  "twins getHash b = size (filter_mset (twin getHash (node_hash b)) (mset (kb_nodes b)))"

definition add_ready :: "('n \<Rightarrow> chash) \<Rightarrow> ('n \<Rightarrow> Reliability) \<Rightarrow> 'n kbucket \<Rightarrow> bool" where
  "add_ready getHash getReliability b \<longleftrightarrow> kb_inv getHash b \<and> on_path getHash b \<and>
     (\<forall>n\<in>set (kb_nodes b). getReliability n \<noteq> BAD \<and>
        length (hash (getHash n)) = length (hash (node_hash b))) \<and>
     twins getHash b < unat (kb_k b)"

lemma child_ready:
  assumes "isSplit b" "determineBucket b h = Inr w" "bucket_at w b = Some c"
    and "add_ready getHash getReliability b"
  shows "add_ready getHash getReliability c"
proof -
  obtain rest where rest: "mset (kb_nodes b) = mset (kb_nodes c) + rest"
    using update_child_nodes [OF assms(1-3)] by blast
  then have sub: "set (kb_nodes c) \<subseteq> set (kb_nodes b)"
    by (metis set_mset_mset set_mset_union sup_ge1)
  from assms(4) have inv: "kb_inv getHash b" "on_path getHash b" by (simp_all add: add_ready_def)
  note child = child_inv [OF assms(1-3) inv(1)]
  have "twins getHash c \<le> twins getHash b"
    using rest child by (simp add: twins_def)
  with child child_on_path [OF assms(1-3) inv] assms(4) sub show ?thesis
    by (auto simp: add_ready_def)
qed

lemma descend_returns:
  assumes "isSplit b" and "Suc (kb_index b) < 8 * length (hash h)"
  obtains w c where "determineBucket b h = Inr w" "bucket_at w b = Some c"
proof -
  obtain bt where "getBit h (Suc (kb_index b)) = Inr bt" using assms(2) getBit_total by blast
  moreover obtain f s where "kb_first b = Some f" "kb_second b = Some s" using assms(1) by (rule isSplitE)
  ultimately show ?thesis
    using assms(1) that [of "if bt then Second else First" "if bt then s else f"]
    by (simp add: determineBucket_split)
qed

lemma deepest_twins:
  assumes "\<not> isSplit b" "splittable b" "add_ready getHash getReliability b"
    and "unat (kb_k b) \<le> length (bucket_contents b)"
  shows "Suc (kb_index b) < 8 * length (hash (node_hash b))"
proof (rule ccontr)
  assume "\<not> ?thesis"
  then have "\<forall>n\<in>set (kb_nodes b). twin getHash (node_hash b) n"
    using assms(2,3) by (auto simp: add_ready_def on_path_def twin_def)
  then have "twins getHash b = length (bucket_contents b)"
    using assms(1) by (simp add: twins_def kb_nodes_leaf flip: mset_filter)
  with assms(3,4) show False by (simp add: add_ready_def)
qed

lemma split_ready:
  assumes "split getHash b = Inr b'" "\<not> isSplit b" "splittable b" "add_ready getHash getReliability b"
  shows "add_ready getHash getReliability b'"
proof -
  have b': "kb_inv getHash b'" "same_frame b b'" "mset (kb_nodes b') = mset (kb_nodes b)"
    using split_inv [OF assms(1-3)] by simp_all
  then have "set (kb_nodes b') = set (kb_nodes b)" by (metis set_mset_mset)
  with b' assms(4) show ?thesis
    by (simp add: add_ready_def on_path_def twins_def same_frame_def)
qed

lemma addNode_returns:
  assumes "add_ready getHash getReliability b"
    and "length (hash (getHash node)) = length (hash (node_hash b))"
  shows "\<exists>b'. addNode getHash getReliability node force b = Inr b'"
  using assms
proof (induction getHash getReliability node force b rule: addNode.induct)
  case (1 getHash getReliability node force b)
  let ?cs = "remove_if (\<lambda>n. getReliability n = BAD) (bucket_contents b)"
  show ?case
  proof (cases "isSplit b")
    case True
    have "Suc (kb_index b) < 8 * length (hash (getHash node))"
      using True 1(3,4) by (auto simp: add_ready_def kb_inv_split elim!: isSplit_childrenE dest!: getBit_bound)
    with True obtain w c where wc: "determineBucket b (getHash node) = Inr w" "bucket_at w b = Some c"
      by (rule descend_returns)
    have "kb_inv getHash b" using 1(3) by (simp add: add_ready_def)
    then have "length (hash (getHash node)) = length (hash (node_hash c))"
      using child_inv [OF True wc] 1(4) by simp
    then obtain c' where "addNode getHash getReliability node force c = Inr c'"
      using 1(2) [OF _ wc child_ready [OF True wc 1(3)]] True by blast
    with True wc show ?thesis by (subst addNode.simps) simp
  next
    case leaf: False
    have id: "?cs = bucket_contents b"
      using 1(3) leaf by (simp add: remove_if_id add_ready_def kb_nodes_leaf)
    show ?thesis
    proof (cases "unat (kb_k b) \<le> length (bucket_contents b) \<and> node \<notin> set (bucket_contents b) \<and> splittable b")
      case True
      have deep: "Suc (kb_index b) < 8 * length (hash (node_hash b))"
        using deepest_twins [OF leaf _ 1(3)] True by blast
      then obtain b2 where b2: "split getHash b = Inr b2"
        using split_returns [of b getHash] 1(3) leaf by (auto simp: add_ready_def kb_nodes_leaf)
      have inv2: "isSplit b2" "same_frame b b2" using split_inv [OF b2 leaf] True by simp_all
      then obtain w c where wc: "determineBucket b2 (getHash node) = Inr w" "bucket_at w b2 = Some c"
        using descend_returns [of b2 "getHash node"] deep 1(4) by (auto simp: same_frame_def)
      have ready: "add_ready getHash getReliability b2" using split_ready [OF b2 leaf _ 1(3)] True by blast
      then have "kb_inv getHash b2" by (simp add: add_ready_def)
      then have len: "length (hash (getHash node)) = length (hash (node_hash c))"
        using child_inv [OF inv2(1) wc] 1(4) inv2(2) by (simp add: same_frame_def)
      obtain c' where "addNode getHash getReliability node force c = Inr c'"
        using 1(1) [OF leaf _ refl _ _ _ wc child_ready [OF inv2(1) wc ready] len] True b2
        by (auto simp: id)
      with leaf True b2 wc show ?thesis by (subst addNode.simps) (simp add: id Let_def)
    next
      case False
      with leaf show ?thesis by (subst addNode.simps) (auto simp: id Let_def)
    qed
  qed
qed

subsection \<open>The broken search\<close>

lemma closest_loop_diverges:
  "i < n \<or> contents \<noteq> [] \<Longrightarrow> closest_loop i n contents result_list = Inl UndefinedBehaviour"
proof (induction i n contents result_list rule: closest_loop.induct)
  case (1 i n contents result_list)
  then show ?case
    by (subst closest_loop.simps) (auto split: list.splits)
qed

lemma getBit_error: "getBit h i = Inl e \<Longrightarrow> e = UndefinedBehaviour"
  by (auto simp: getBit_def Let_def split: if_splits)

lemma getClosest_undefined:
  "0 < n \<Longrightarrow> getClosest h n b = Inl UndefinedBehaviour"
proof (induction h n b rule: getClosest.induct)
  case (1 h n b)
  show ?case
  proof (cases "isSplit b")
    case False
    with 1(3) show ?thesis
      by (subst getClosest.simps) (simp add: closest_loop_diverges)
  next
    case True
    obtain f s where fs: "kb_first b = Some f" "kb_second b = Some s" using True by (rule isSplitE)
    show ?thesis
    proof (cases "determineBucket b h")
      case (Inl e)
      then have "e = UndefinedBehaviour" using getBit_error True
        by (cases "getBit h (kb_index b + 1)") (auto simp: determineBucket_def)
      with Inl True show ?thesis by (subst getClosest.simps) simp
    next
      case (Inr w)
      then obtain c1 c2 where c: "bucket_at w b = Some c1"
        "bucket_at (if w = First then Second else First) b = Some c2"
        using True fs by (auto simp: determineBucket_split split: if_splits)
      have "getClosest h n c1 = Inl UndefinedBehaviour"
        using 1(1) [OF _ Inr refl refl c] True 1(3) by blast
      with c True Inr show ?thesis
        by (subst getClosest.simps) (simp add: Let_def)
    qed
  qed
qed


subsection \<open>Histories of a bucket\<close>

text \<open>
  The public operations that change a bucket.  The reliability of contacts changes over time, so
  each operation carries the reliabilities it sees.
\<close>

datatype 'n kb_op =
    AddNode "'n \<Rightarrow> Reliability" 'n bool
  | RemoveNode 'n
  | Rebuild "'n \<Rightarrow> Reliability" chash "'n list"

fun kb_step :: "('n \<Rightarrow> chash) \<Rightarrow> 'n kb_op \<Rightarrow> 'n kbucket \<Rightarrow> 'n kbucket result" where
  "kb_step getHash (AddNode rel n force) b = addNode getHash rel n force b"
| "kb_step getHash (RemoveNode n) b = removeNode getHash n b"
| "kb_step getHash (Rebuild rel h ns) b = rebuild getHash rel h ns b"

fun kb_run :: "('n \<Rightarrow> chash) \<Rightarrow> 'n kb_op list \<Rightarrow> 'n kbucket \<Rightarrow> 'n kbucket result" where
  "kb_run getHash [] b = Inr b"
| "kb_run getHash (op # ops) b = bind_result (kb_step getHash op b) (kb_run getHash ops)"

fun op_nodes :: "'n kb_op \<Rightarrow> 'n set" where
  "op_nodes (AddNode rel n force) = {n}"
| "op_nodes (RemoveNode n) = {}"
| "op_nodes (Rebuild rel h ns) = set ns"

fun op_forced :: "'n kb_op \<Rightarrow> bool" where
  "op_forced (AddNode rel n force) \<longleftrightarrow> force"
| "op_forced _ \<longleftrightarrow> False"

lemma addNodes_inv:
  assumes "addNodes getHash getReliability ns b = Inr b'" and "kb_inv getHash b"
  shows "kb_inv getHash b' \<and> same_frame b b' \<and> set (kb_nodes b') \<subseteq> set ns \<union> set (kb_nodes b) \<and>
    (leaves_le (unat (kb_k b)) b \<longrightarrow> leaves_le (unat (kb_k b)) b')"
  using assms
proof (induction ns arbitrary: b)
  case (Cons n ns)
  then obtain b1 where b1: "addNode getHash getReliability n False b = Inr b1"
    and rest: "addNodes getHash getReliability ns b1 = Inr b'"
    by (auto simp: result_simps)
  note inv = addNode_inv [OF b1]
  with Cons.IH [OF rest] Cons.prems(2) have "kb_inv getHash b' \<and> same_frame b1 b' \<and>
    set (kb_nodes b') \<subseteq> set ns \<union> set (kb_nodes b1) \<and>
    (leaves_le (unat (kb_k b1)) b1 \<longrightarrow> leaves_le (unat (kb_k b1)) b')" by blast
  with inv addNode_leaves_le [OF b1 _ Cons.prems(2) refl] show ?case
    by (auto simp: same_frame_def)
qed simp

lemma rebuild_inv:
  assumes "rebuild getHash getReliability h ns b = Inr b'"
  shows "kb_inv getHash b' \<and> same_frame b b' \<and> set (kb_nodes b') \<subseteq> set ns \<and>
    leaves_le (unat (kb_k b)) b'"
proof -
  let ?e = "set_split_buckets None None (set_contents [] b)"
  have "\<not> isSplit ?e" by (simp add: isSplit_def)
  with addNodes_inv [of getHash getReliability ns ?e b'] assms show ?thesis
    by (simp add: rebuild_def kb_inv_leaf kb_nodes_leaf leaves_le_leaf same_frame_def)
qed

lemma removeNode_inv:
  assumes "removeNode getHash node b = Inr b'" and "kb_inv getHash b"
  shows "kb_inv getHash b' \<and> same_frame b b' \<and> set (kb_nodes b') \<subseteq> set (kb_nodes b) \<and>
    (leaves_le m b \<longrightarrow> leaves_le m b')"
  using assms
proof (induction getHash node b arbitrary: b' rule: removeNode.induct)
  case (1 getHash node b)
  show ?case
  proof (cases "isSplit b")
    case True
    with 1(2) obtain w c c' where w: "determineBucket b (getHash node) = Inr w" "bucket_at w b = Some c"
      and c': "removeNode getHash node c = Inr c'" "b' = update_bucket_at w c' b"
      by (subst (asm) removeNode.simps) (auto simp: result_simps split: option.splits)
    have IH: "kb_inv getHash c' \<and> same_frame c c' \<and> set (kb_nodes c') \<subseteq> set (kb_nodes c) \<and>
      (leaves_le m c \<longrightarrow> leaves_le m c')"
      using 1(1) [OF _ w c'(1)] child_inv [OF True w 1(3)] True by blast
    obtain rest where rest: "mset (kb_nodes b) = mset (kb_nodes c) + rest"
      "mset (kb_nodes b') = mset (kb_nodes c') + rest"
      using update_child_nodes [OF True w] c'(2) by blast
    have "set (kb_nodes b) = set (kb_nodes c) \<union> set_mset rest"
      "set (kb_nodes b') = set (kb_nodes c') \<union> set_mset rest"
      by (metis rest set_mset_mset set_mset_union)+
    moreover have "kb_inv getHash b'" using update_child_inv [OF True w 1(3)] IH c'(2) by blast
    moreover have "leaves_le m b \<longrightarrow> leaves_le m b'"
      using child_leaves_le [OF True w] IH c'(2) by blast
    moreover have "same_frame b b'" using same_frame_update_child [OF True w(1)] c'(2) by simp
    ultimately show ?thesis using IH by blast
  next
    case False
    with 1(2,3) show ?thesis
      by (subst (asm) removeNode.simps)
        (auto simp: kb_nodes_leaf kb_inv_leaf leaves_le_leaf length_remove1 dest: set_remove1_subset [THEN subsetD])
  qed
qed

lemma kb_run_inv:
  assumes "kb_run getHash ops b = Inr b'" and "kb_inv getHash b"
  shows "kb_inv getHash b' \<and> same_frame b b' \<and>
    set (kb_nodes b') \<subseteq> set (kb_nodes b) \<union> (\<Union>op\<in>set ops. op_nodes op) \<and>
    (leaves_le (unat (kb_k b)) b \<and> \<not> list_ex op_forced ops \<longrightarrow> leaves_le (unat (kb_k b)) b')"
  using assms
proof (induction ops arbitrary: b)
  case (Cons op ops)
  then obtain b1 where b1: "kb_step getHash op b = Inr b1" and rest: "kb_run getHash ops b1 = Inr b'"
    by (auto simp: result_simps)
  have step: "kb_inv getHash b1 \<and> same_frame b b1 \<and> set (kb_nodes b1) \<subseteq> set (kb_nodes b) \<union> op_nodes op \<and>
    (leaves_le (unat (kb_k b)) b \<and> \<not> op_forced op \<longrightarrow> leaves_le (unat (kb_k b)) b1)"
  proof (cases op)
    case (AddNode rel n force)
    with b1 addNode_inv [of getHash rel n force b b1] Cons.prems(2)
      addNode_leaves_le [of getHash rel n force b b1] show ?thesis by auto
  next
    case (RemoveNode n)
    with b1 removeNode_inv [of getHash n b b1] Cons.prems(2) show ?thesis by auto
  next
    case (Rebuild rel h ns)
    with b1 rebuild_inv [of getHash rel h ns b b1] show ?thesis by auto
  qed
  with Cons.IH [OF rest] show ?case by (auto simp: same_frame_def)
qed simp


subsection \<open>Properties\<close>

definition example_hash :: "int \<Rightarrow> chash" where
  "example_hash n = \<lparr>hash = [word_of_int n], hasher = False\<rparr>"

text \<open>
  (C7) Whatever history of additions, removals and rebuilds a bucket made for the hash \<open>h\<close> has gone
  through, it is a well-formed tree: it still belongs to \<open>h\<close> and \<open>k\<close>, holds only contacts it was
  given, and a contact is in the tree exactly when it is in the leaf its own hash leads to.  As long
  as no addition was forced it holds at most \<open>k\<close> contacts per leaf and so at most \<open>k\<close> times the
  number of bits of the hash.
\<close>

theorem kbucket_history:
  assumes "kb_run getHash ops (KBucket_new h k) = Inr b"
  shows "kb_inv getHash b \<and> kb_index b = 0 \<and> kb_k b = k \<and> hash (node_hash b) = hash h \<and>
    set (kb_nodes b) \<subseteq> (\<Union>op\<in>set ops. op_nodes op) \<and>
    (\<forall>n. n \<in> set (kb_locate (getHash n) b) \<longleftrightarrow> n \<in> set (kb_nodes b)) \<and>
    (\<not> list_ex op_forced ops \<and> hash h \<noteq> [] \<longrightarrow>
       leaves_le (unat k) b \<and> count b \<le> int (unat k * (8 * length (hash h))))"
proof -
  let ?b0 = "KBucket_new h k :: 'a kbucket"
  have b0: "kb_inv getHash ?b0" "leaves_le (unat k) ?b0" "kb_nodes ?b0 = []"
    by (simp_all add: KBucket_new_def)
  note inv = kb_run_inv [OF assms b0(1)]
  then have frame: "kb_index b = 0" "kb_k b = k" "hash (node_hash b) = hash h"
    by (simp_all add: same_frame_def KBucket_new_def Hash_copy_def)
  have cap: "leaves_le (unat k) b" if "\<not> list_ex op_forced ops"
    using inv that b0(2) by (simp add: KBucket_new_def)
  have "count b \<le> int (unat k * (8 * length (hash h)))" if "\<not> list_ex op_forced ops" "hash h \<noteq> []"
    unfolding count_eq of_nat_le_iff
    using kb_inv_length_bound [of getHash b "unat k"] inv cap [OF that(1)] that(2) frame by simp
  with inv frame cap b0(3) show ?thesis by (simp add: kb_locate_iff)
qed

theorem kbucket_history_witness:
  "\<exists>b. kb_run example_hash [AddNode (\<lambda>_. GOOD) 1 False, AddNode (\<lambda>_. GOOD) 64 False,
        AddNode (\<lambda>_. GOOD) 32 False, RemoveNode 1] (KBucket_new (example_hash 0) 1) = Inr b \<and>
     kb_inv example_hash b \<and> kb_nodes b = [32, 64] \<and> count b \<le> 8"
proof -
  let ?r = "kb_run example_hash [AddNode (\<lambda>_. GOOD) 1 False, AddNode (\<lambda>_. GOOD) 64 False,
        AddNode (\<lambda>_. GOOD) 32 False, RemoveNode 1] (KBucket_new (example_hash 0) 1)"
  have "case ?r of Inr b \<Rightarrow> kb_nodes b = [32, 64] | Inl _ \<Rightarrow> False" by code_simp
  then obtain b where b: "?r = Inr b" "kb_nodes b = [32, 64]" by (cases ?r) simp_all
  from kbucket_history [OF b(1)] have "kb_inv example_hash b" "count b \<le> 8"
    by (simp_all add: example_hash_def)
  with b show ?thesis by blast
qed

text \<open>
  (C8) \<^verbatim>\<open>addNode\<close> on a root bucket returns when contacts have hashes as long as the own hash, no
  contact in the tree is BAD, and fewer than \<open>k\<close> contacts agree with the own hash on every bit
  after the first (the bits the tree looks at).  Then the contacts afterwards are those before,
  or those and the new one; a forced addition always leaves the new contact in the tree.
\<close>

theorem addNode_root:
  assumes "kb_inv getHash b" and "kb_index b = 0"
    and "\<forall>n\<in>set (kb_nodes b). getReliability n \<noteq> BAD \<and> length (hash (getHash n)) = length (hash (node_hash b))"
    and "length (hash (getHash node)) = length (hash (node_hash b))"
    and "twins getHash b < unat (kb_k b)"
  shows "\<exists>b'. addNode getHash getReliability node force b = Inr b' \<and> kb_inv getHash b' \<and>
    (mset (kb_nodes b') = mset (kb_nodes b) \<or> mset (kb_nodes b') = add_mset node (mset (kb_nodes b))) \<and>
    (force \<longrightarrow> node \<in> set (kb_nodes b'))"
proof -
  have "add_ready getHash getReliability b"
    using assms by (simp add: add_ready_def on_path_def)
  then obtain b' where b': "addNode getHash getReliability node force b = Inr b'"
    using addNode_returns [of getHash getReliability b node force] assms(4) by blast
  with addNode_inv [OF b'] addNode_mset [OF b'] addNode_force [OF b'] assms(1,3) show ?thesis by blast
qed

theorem addNode_root_witness:
  "\<exists>b'. addNode example_hash (\<lambda>_. GOOD) 64 True (KBucket 0 1 None None [1] True (example_hash 0)) = Inr b' \<and>
     64 \<in> set (kb_nodes b')"
proof -
  have "getBit (example_hash 1) 7 \<noteq> getBit (example_hash 0) 7" by code_simp
  then have "\<not> twin example_hash (example_hash 0) 1"
    unfolding twin_def by (auto simp: example_hash_def)
  then show ?thesis
    using addNode_root [of example_hash "KBucket 0 1 None None [1] True (example_hash 0)" "\<lambda>_. GOOD" 64 True]
    by (auto simp: twins_def) (auto simp: example_hash_def)
qed

text \<open>
  (C27) \<^verbatim>\<open>removeNode\<close> on a well-formed bucket always returns when the hash of the contact is not
  shorter than the own hash, removes exactly one occurrence of the contact if there is one, and keeps
  the tree well-formed; \<^verbatim>\<open>count\<close> counts the contacts.
\<close>

theorem removeNode_removes:
  assumes "kb_inv getHash b" and "length (hash (node_hash b)) \<le> length (hash (getHash node))"
  shows "\<exists>b'. removeNode getHash node b = Inr b' \<and> kb_inv getHash b' \<and>
    mset (kb_nodes b') = mset (kb_nodes b) - {#node#} \<and>
    count b' = count b - (if node \<in> set (kb_nodes b) then 1 else 0)"
proof -
  obtain b' where b': "removeNode getHash node b = Inr b'" "kb_inv getHash b'"
    "mset (kb_nodes b') = mset (kb_nodes b) - {#node#}"
    using removeNode_correct [OF assms] by blast
  have "length (kb_nodes b') = size (mset (kb_nodes b) - {#node#})" by (metis b'(3) size_mset)
  then have "count b' = count b - (if node \<in> set (kb_nodes b) then 1 else 0)"
    unfolding count_eq using size_Diff_singleton_if [of "mset (kb_nodes b)" node]
    by (cases "kb_nodes b") (auto simp: of_nat_diff)
  with b' show ?thesis by blast
qed

theorem removeNode_removes_witness:
  "\<exists>b'. removeNode example_hash 1 (set_contents [1, 2] (KBucket_new (example_hash 0) 2)) = Inr b' \<and>
     count b' = 1"
  using removeNode_removes [of example_hash "set_contents [1, 2] (KBucket_new (example_hash 0) 2)" 1]
  by (auto simp: KBucket_new_def example_hash_def Hash_copy_def)

text \<open>
  A full bucket off the own path never takes a new contact, even when all its contacts are
  BAD: the cleanup permutes and duplicates pointers but never shortens the list.
\<close>

theorem addNode_full_unsplittable:
  assumes "\<not> isSplit b" and "\<not> splittable b" and "unat (kb_k b) \<le> length (bucket_contents b)"
    and "node \<notin> set (bucket_contents b)"
  shows "\<exists>cs. addNode getHash getReliability node False b = Inr (set_contents cs b) \<and>
    length cs = length (bucket_contents b) \<and> set cs \<subseteq> set (bucket_contents b) \<and> node \<notin> set cs"
proof -
  let ?cs = "remove_if (\<lambda>n. getReliability n = BAD) (bucket_contents b)"
  have sub: "set ?cs \<subseteq> set (bucket_contents b)" by (rule set_remove_if)
  then have "node \<notin> set ?cs" using assms(4) by blast
  with assms have "addNode getHash getReliability node False b = Inr (set_contents ?cs b)"
    by (subst addNode.simps) (simp add: Let_def)
  with sub assms(4) show ?thesis
    by (intro exI [of _ ?cs]) auto
qed

theorem addNode_full_unsplittable_witness:
  "addNode example_hash (\<lambda>n. if n = 1 then BAD else GOOD) 3 False
     (KBucket 1 2 None None [1, 2] False (example_hash 64)) =
   Inr (KBucket 1 2 None None [2, 2] False (example_hash 64)) \<and>
   (\<exists>cs. addNode example_hash (\<lambda>n. if n = 1 then BAD else GOOD) 3 False
     (KBucket 1 2 None None [1, 2] False (example_hash 64)) =
       Inr (set_contents cs (KBucket 1 2 None None [1, 2] False (example_hash 64))) \<and> 3 \<notin> set cs)"
  using addNode_full_unsplittable [of "KBucket 1 2 None None [1, 2] False (example_hash 64)" 3
      example_hash "\<lambda>n. if n = 1 then BAD else GOOD"]
  by (auto simp: isSplit_def addNode.simps remove_if_def)

text \<open>
  \<^verbatim>\<open>getClosest\<close> never returns a list: asked for one contact or more it always runs into
  undefined behaviour, because the loop over a leaf does not advance its iterator and goes on as long
  as either side of its condition holds.
\<close>

theorem getClosest_positive:
  "0 < n \<Longrightarrow> getClosest h n b = Inl UndefinedBehaviour"
  by (rule getClosest_undefined)

theorem getClosest_positive_witness:
  "getClosest (example_hash 5) 1 (KBucket_new (example_hash 0) 8 :: int kbucket) = Inl UndefinedBehaviour"
  using getClosest_positive [of 1] by simp

text \<open>
  \<^verbatim>\<open>rebuild\<close> drops every contact that is not in the given set and gives a well-formed tree with
  at most \<open>k\<close> contacts per leaf, but the new own hash it is called with has no effect: the tree stays
  organised around the old one.
\<close>

theorem rebuild_keeps_hash:
  assumes "rebuild getHash getReliability new_hash ns b = Inr b'"
  shows "kb_inv getHash b' \<and> set (kb_nodes b') \<subseteq> set ns \<and> leaves_le (unat (kb_k b)) b' \<and>
    node_hash b' = node_hash b \<and> rebuild getHash getReliability other_hash ns b = Inr b'"
  using rebuild_inv [OF assms] assms by (simp add: same_frame_def rebuild_def)

theorem rebuild_keeps_hash_witness:
  "\<exists>b'. rebuild example_hash (\<lambda>_. GOOD) (example_hash 255) [7, 9]
      (set_contents [1] (KBucket_new (example_hash 0) 2)) = Inr b' \<and>
     kb_nodes b' = [7, 9] \<and> node_hash b' = example_hash 0"
proof -
  let ?r = "rebuild example_hash (\<lambda>_. GOOD) (example_hash 255) [7, 9]
      (set_contents [1] (KBucket_new (example_hash 0) 2))"
  have "case ?r of Inr b \<Rightarrow> kb_nodes b = [7, 9] | Inl _ \<Rightarrow> False" by code_simp
  then obtain b where b: "?r = Inr b" "kb_nodes b = [7, 9]" by (cases ?r) simp_all
  from rebuild_keeps_hash [OF b(1)] have "node_hash b = example_hash 0"
    by (simp add: KBucket_new_def example_hash_def Hash_copy_def)
  with b show ?thesis by blast
qed

end
