(* ===== verification/Common_Config.thy ===== *)
theory Common_Config
  imports P2P_Prelude
begin

section \<open>Configuration, singletons, versions, errors, logging (src/common, src/p2pnet)\<close>

text \<open>
  The configuration manager with its defaults and fallback, the two singleton templates over an
  explicit store of live objects, the version string, the error codes with their messages, and the
  component names of the log.  The property tree of the boost library is modelled by its documented
  behaviour on dotted paths: a map from paths to text, in which \<^verbatim>\<open>put\<close> creates the inner nodes.
\<close>

subsection \<open>Property trees\<close>

type_synonym config_t = "string \<rightharpoonup> string"

fun dot_prefixes :: "string \<Rightarrow> string \<Rightarrow> string list" where
  "dot_prefixes acc [] = []"
| "dot_prefixes acc (c # cs) =
     (if c = CHR ''.'' then acc # dot_prefixes (acc @ [c]) cs else dot_prefixes (acc @ [c]) cs)"

definition ptree_put :: "string \<Rightarrow> string \<Rightarrow> config_t \<Rightarrow> config_t" where
  "ptree_put path v t =
     (fold (\<lambda>q t. if t q = None then t(q \<mapsto> []) else t) (dot_prefixes [] path) t)(path \<mapsto> v)"

text \<open>\<^verbatim>\<open>get<T>\<close> with the translation \<open>conv\<close> of text to \<open>T\<close>.\<close>

definition ptree_get :: "(string \<Rightarrow> 'a option) \<Rightarrow> string \<Rightarrow> config_t \<Rightarrow> 'a result" where
  "ptree_get conv path t =
     (case t path of
        None \<Rightarrow> Inl (LibraryException ''ptree_bad_path'')
      | Some v \<Rightarrow> (case conv v of
            None \<Rightarrow> Inl (LibraryException ''ptree_bad_data'')
          | Some x \<Rightarrow> Inr x))"

definition show_bool :: "bool \<Rightarrow> string" where
  "show_bool b = (if b then ''true'' else ''false'')"

subsection \<open>ConfigManager\<close>

record ConfigManager =
  internal_config :: config_t
  internal_config_defaults :: config_t
  config_directory :: string
  config_file :: string

definition default_settings :: "(string \<times> string) list" where
  "default_settings =
    [(''policies.outgoing_only'', show_bool False),
     (''api.unix.enabled'', show_bool True),
     (''api.unix.user_sock_name'', ''unix_api.sock''),
     (''api.unix.disable_user_sock'', show_bool False),
     (''api.unix.system_sock_path'', ''/var/run/p2pnet/unix_api.sock''),
     (''transport.udp.enabled'', show_bool True),
     (''transport.udp.local_ip'', ''0::0''),
     (''transport.udp.port'', show_nat 2185),
     (''transport.udp.mtu'', show_nat 1438),
     (''transport.udp.keepalive_timer'', show_nat 3),
     (''transport.udp.inactivity_timeout'', show_nat 30),
     (''transport.udp.outgoing_only'', show_bool False),
     (''overlay.connection.limit'', show_nat 1000),
     (''overlay.connection.key_rotation_spam_limit'', show_nat 5),
     (''overlay.connection.timeout'', show_nat 120),
     (''overlay.key_provider.history_size'', show_nat 10),
     (''overlay.key_provider.renew_interval'', show_nat 600),
     (''p2p.allow_loopback'', show_bool True),
     (''p2p.listen.max_connections'', show_nat 128),
     (''discovery.bootstrap.filename'', ''bootstrap.txt''),
     (''discovery.udpv4.enabled'', show_bool True),
     (''discovery.udpv4.timer'', show_nat 10),
     (''discovery.udpv4.local_ip'', ''0.0.0.0''),
     (''discovery.udpv4.multicast.ip'', ''239.192.152.144''),
     (''discovery.udpv4.multicast.port'', show_nat 28915),
     (''discovery.udpv6.enabled'', show_bool True),
     (''discovery.udpv6.timer'', show_nat 10),
     (''discovery.udpv6.local_ip'', ''0::0''),
     (''discovery.udpv6.multicast.ip'', ''ff08::BD02''),
     (''discovery.udpv6.multicast.port'', show_nat 28915)]"

definition initDefaults :: "ConfigManager \<Rightarrow> ConfigManager" where
  "initDefaults this = this\<lparr>internal_config_defaults :=
     fold (\<lambda>(path, v). ptree_put path v) default_settings (internal_config_defaults this)\<rparr>"

definition getDefaults :: "ConfigManager \<Rightarrow> config_t" where
  "getDefaults this = internal_config_defaults this"

text \<open>The fallback to the defaults is taken on a missing path only, not on bad data.\<close>

definition getValue :: "(string \<Rightarrow> 'a option) \<Rightarrow> ConfigManager \<Rightarrow> string \<Rightarrow> 'a result" where
  "getValue conv this path =
     (case ptree_get conv path (internal_config this) of
        Inl e \<Rightarrow> if e = LibraryException ''ptree_bad_path'' then ptree_get conv path (getDefaults this)
                 else Inl e
      | Inr x \<Rightarrow> Inr x)"

datatype permissions_t = SYSTEM | USER

record environment =
  env_config_dir :: "string option"
  env_uid :: nat
  env_home :: "string option"
  env_pw_dir :: string

definition getPermissions :: "environment \<Rightarrow> permissions_t" where
  "getPermissions env = (if env_uid env = 0 then SYSTEM else USER)"

definition getDefaultDirectory :: "environment \<Rightarrow> string" where
  "getDefaultDirectory env =
     (case env_config_dir env of
        Some d \<Rightarrow> d
      | None \<Rightarrow>
          if getPermissions env = SYSTEM then ''/etc/p2pnet/''
          else (case env_home env of Some home \<Rightarrow> home | None \<Rightarrow> env_pw_dir env) @ ''/.p2pnet/'')"

definition getDefaultFile :: string where
  "getDefaultFile = ''p2pnet.json''"

definition setDirectory :: "string \<Rightarrow> ConfigManager \<Rightarrow> ConfigManager" where
  "setDirectory directory this = this\<lparr>config_directory := directory\<rparr>"

definition setFile :: "string \<Rightarrow> ConfigManager \<Rightarrow> ConfigManager" where
  "setFile filename this = this\<lparr>config_file := filename\<rparr>"

definition resetToDefaults :: "ConfigManager \<Rightarrow> ConfigManager" where
  "resetToDefaults this = this\<lparr>internal_config := Map.empty\<rparr>"

text \<open>\<open>read_json\<close> gives what the file at a path parses to, \<open>None\<close> for a parser error.\<close>

definition loadFromFile :: "(string \<Rightarrow> config_t option) \<Rightarrow> ConfigManager \<Rightarrow> ConfigManager" where
  "loadFromFile read_json this =
     (case read_json (config_directory this @ config_file this) of
        Some t \<Rightarrow> this\<lparr>internal_config := t\<rparr>
      | None \<Rightarrow> this\<lparr>internal_config := internal_config_defaults this\<rparr>)"

text \<open>The constructor; the second component is the file it writes, with its content.\<close>

definition ConfigManager_new ::
  "environment \<Rightarrow> (string \<Rightarrow> config_t option) \<Rightarrow> ConfigManager \<times> (string \<times> config_t)" where
  "ConfigManager_new env read_json =
     (let this0 = initDefaults \<lparr>internal_config = Map.empty, internal_config_defaults = Map.empty,
            config_directory = [], config_file = []\<rparr>;
          this1 = this0\<lparr>config_directory := getDefaultDirectory env, config_file := getDefaultFile\<rparr>;
          this2 = loadFromFile read_json this1
      in (this2, (config_directory this2 @ ''defaults.json'', getDefaults this2)))"

definition getDirectory :: "ConfigManager \<Rightarrow> string" where
  "getDirectory this = config_directory this"

definition getFile :: "ConfigManager \<Rightarrow> string" where
  "getFile this = config_file this"

subsection \<open>Singletons\<close>

text \<open>
  A store of objects by address: which are alive, and the static pointer of the template.  In
  \<^verbatim>\<open>clear\<close> a local variable named \<open>instance\<close> receives the pointer and the object is deleted; the
  static pointer inside \<^verbatim>\<open>getInstance\<close> is not reset.
\<close>

record singleton =
  static_instance :: "nat option"
  live_objects :: "nat list"
  next_address :: nat

definition Singleton_getInstance :: "singleton \<Rightarrow> nat \<times> singleton" where
  "Singleton_getInstance s =
     (case static_instance s of
        Some p \<Rightarrow> (p, s)
      | None \<Rightarrow>
          let p = next_address s
          in (p, s\<lparr>static_instance := Some p, live_objects := p # live_objects s,
                  next_address := Suc p\<rparr>))"

definition Singleton_clear :: "singleton \<Rightarrow> singleton result" where
  "Singleton_clear s =
     (let (p, s1) = Singleton_getInstance s
      in if p \<in> set (live_objects s1) then Inr (s1\<lparr>live_objects := removeAll p (live_objects s1)\<rparr>)
         else Inl UndefinedBehaviour)"

text \<open>
  \<^verbatim>\<open>SharedSingleton\<close> keeps a weak pointer: the object lives as long as a shared pointer handed out
  is held; \<^const>\<open>live_objects\<close> are the objects still held.
\<close>

definition SharedSingleton_getInstance :: "singleton \<Rightarrow> nat \<times> singleton" where
  "SharedSingleton_getInstance s =
     (let locked = (case static_instance s of
                      Some p \<Rightarrow> if p \<in> set (live_objects s) then Some p else None
                    | None \<Rightarrow> None)
      in case locked of
           Some p \<Rightarrow> (p, s)
         | None \<Rightarrow>
             let p = next_address s
             in (p, s\<lparr>static_instance := Some p, live_objects := p # live_objects s,
                     next_address := Suc p\<rparr>))"

subsection \<open>Version\<close>

definition P2PNET_VERSION :: u32 where
  "P2PNET_VERSION = 0"

definition P2PNET_CHANNEL :: string where
  "P2PNET_CHANNEL = ''dev''"

definition getMyVersion :: u32 where
  "getMyVersion = P2PNET_VERSION"

definition pad_zero :: "nat \<Rightarrow> string \<Rightarrow> string" where
  "pad_zero w s = replicate (w - length s) (CHR ''0'') @ s"

definition makeVersionString :: "u32 \<Rightarrow> u32 \<Rightarrow> u32 \<Rightarrow> string \<Rightarrow> string" where
  "makeVersionString major minor build channel =
     show_nat (unat major) @ ''.'' @ pad_zero 2 (show_nat (unat minor)) @ ''.'' @
     pad_zero 4 (show_nat (unat build)) @ ''-'' @ channel"

text \<open>\<^verbatim>\<open>getMyVersionString\<close> for the version number \<open>v\<close> compiled in.\<close>

definition version_string :: "u32 \<Rightarrow> string" where
  "version_string v =
     (let major = v div 1000000;
          minor = (v - major * 1000000) div 10000;
          build = v - major * 1000000 - minor * 1000
      in makeVersionString major minor build P2PNET_CHANNEL)"

definition getMyVersionString :: string where
  "getMyVersionString = version_string getMyVersion"

subsection \<open>Error codes\<close>

datatype P2PError =
    success | daemon_connection_problem | too_many_nodes | too_many_sockets
  | nonexistent_node | nonexistent_socket | nodemanager_db_non_consistent
  | timed_out | connection_reset | no_such_interface | no_transport
  | not_connected | message_parse_error

fun error_code :: "P2PError \<Rightarrow> int" where
  "error_code success = 0"
| "error_code daemon_connection_problem = 256"
| "error_code too_many_nodes = 257"
| "error_code too_many_sockets = 258"
| "error_code nonexistent_node = 259"
| "error_code nonexistent_socket = 260"
| "error_code nodemanager_db_non_consistent = 261"
| "error_code timed_out = 110"
| "error_code connection_reset = 104"
| "error_code no_such_interface = 180"
| "error_code no_transport = 181"
| "error_code not_connected = 107"
| "error_code message_parse_error = 107"

definition P2PErrorCategory_name :: string where
  "P2PErrorCategory_name = ''p2pnet''"

declare P2PErrorCategory_name_def [simp]

definition message_c :: "int \<Rightarrow> string" where
  "message_c error_value =
     (if error_value = error_code daemon_connection_problem then ''Daemon connection problem''
      else if error_value = error_code too_many_nodes then ''Node limit exceeded''
      else if error_value = error_code too_many_sockets then ''Socket limit on specific Node exceeded''
      else if error_value = error_code nonexistent_node then ''Node doesn't exist''
      else if error_value = error_code nonexistent_socket then ''Socket doesn't exist on specific Node''
      else if error_value = error_code nodemanager_db_non_consistent then ''NodeManager DB is inconsistent''
      else ''Unknown error'')"

definition category_message :: "int \<Rightarrow> string" where
  "category_message error_value = message_c error_value"

definition p2p_getErrorMessage :: "P2PError \<Rightarrow> string" where
  "p2p_getErrorMessage context = message_c (error_code context)"

subsection \<open>Logging\<close>

datatype log_class = LOG_NONE | LOG_ERROR

definition log_tag :: "log_class \<Rightarrow> string" where
  "log_tag c = (case c of LOG_ERROR \<Rightarrow> ''(EE) '' | _ \<Rightarrow> [])"

text \<open>The demangled name of the class without its outer namespace.\<close>

definition getComponentName :: "string \<Rightarrow> string" where
  "getComponentName demangled_name =
     (if take 8 demangled_name = ''p2pnet::'' then drop 8 demangled_name else demangled_name)"

text \<open>
  Demangling with g++: \<open>cxa\<close> is \<^verbatim>\<open>abi::__cxa_demangle\<close> of the C++ runtime, which gives a status and
  a text.
\<close>

definition demangle :: "(string \<Rightarrow> int \<times> string) \<Rightarrow> string \<Rightarrow> string" where
  "demangle cxa name = (case cxa name of (status, res) \<Rightarrow> if status = 0 then res else name)"

text \<open>
  The static clock of the log: ticks since the epoch of the steady clock, started by the first object
  that logs.  A line begins with the time; \<open>show_span\<close> prints a span of ticks in seconds.
\<close>

record Loggable =
  start_clock :: int
  clock_started :: bool

definition Loggable_static :: Loggable where
  "Loggable_static = \<lparr>start_clock = 0, clock_started = False\<rparr>"

definition Loggable_new :: "int \<Rightarrow> Loggable \<Rightarrow> Loggable" where
  "Loggable_new now l = (if \<not> clock_started l then l\<lparr>start_clock := now, clock_started := True\<rparr> else l)"

definition getTimeFromStart :: "int \<Rightarrow> Loggable \<Rightarrow> int" where
  "getTimeFromStart now_clock l = now_clock - start_clock l"

definition log_component :: "(int \<Rightarrow> string) \<Rightarrow> int \<Rightarrow> string \<Rightarrow> log_class \<Rightarrow> Loggable \<Rightarrow> string" where
  "log_component show_span now component c l =
     ''('' @ show_span (getTimeFromStart now l) @ '') ['' @ component @ ''] '' @ log_tag c"

definition log_this ::
  "(int \<Rightarrow> string) \<Rightarrow> (string \<Rightarrow> int \<times> string) \<Rightarrow> int \<Rightarrow> string \<Rightarrow> log_class \<Rightarrow> Loggable \<Rightarrow> string" where
  "log_this show_span cxa now type_name c l =
     log_component show_span now (getComponentName (demangle cxa type_name)) c l"

subsection \<open>Properties\<close>

text \<open>
  The time in a log line counts from the first object that logs, however many are made after it.  A
  line logged by name before any such object has the time since the epoch of the clock.
\<close>

lemma log_clock:
  "getTimeFromStart now (fold Loggable_new nows Loggable_static) = now - (case nows of [] \<Rightarrow> 0 | t # _ \<Rightarrow> t)"
proof -
  have "clock_started l \<Longrightarrow> fold Loggable_new ts l = l" for ts l
    by (induction ts) (simp_all add: Loggable_new_def)
  then show ?thesis
    by (simp add: getTimeFromStart_def Loggable_static_def Loggable_new_def split: list.split)
qed

lemma fold_inner_nodes:
  "t p = Some v \<Longrightarrow> fold (\<lambda>q t. if t q = None then t(q \<mapsto> []) else t) qs t p = Some v"
proof (induction qs arbitrary: t)
  case (Cons q qs)
  then have "(if t q = None then t(q \<mapsto> []) else t) p = Some v" by auto
  then show ?case using Cons.IH by simp
qed simp

lemma ptree_put_same [simp]: "ptree_put p v t p = Some v"
  by (simp add: ptree_put_def)

lemma ptree_put_other: "q \<noteq> p \<Longrightarrow> t p = Some v \<Longrightarrow> ptree_put q w t p = Some v"
  by (simp add: ptree_put_def fold_inner_nodes)

lemma fold_put_keep:
  "p \<notin> fst ` set kvs \<Longrightarrow> t p = Some v \<Longrightarrow> fold (\<lambda>(q, w). ptree_put q w) kvs t p = Some v"
  by (induction kvs arbitrary: t) (auto simp: ptree_put_other)

lemma fold_put_lookup:
  "distinct (map fst kvs) \<Longrightarrow> (p, v) \<in> set kvs \<Longrightarrow> fold (\<lambda>(q, w). ptree_put q w) kvs t p = Some v"
proof (induction kvs arbitrary: t)
  case (Cons kv kvs)
  then show ?case by (cases kv) (auto intro: fold_put_keep)
qed simp

lemma distinct_default_settings: "distinct (map fst default_settings)"
  by (simp add: default_settings_def)

lemma ConfigManager_new_defaults:
  "(path, v) \<in> set default_settings \<Longrightarrow>
     internal_config_defaults (fst (ConfigManager_new env read_json)) path = Some v"
  by (simp add: ConfigManager_new_def initDefaults_def loadFromFile_def Let_def
      fold_put_lookup distinct_default_settings split: option.split)

lemma ConfigManager_new_config:
  "internal_config (fst (ConfigManager_new env read_json)) =
     (case read_json (getDefaultDirectory env @ getDefaultFile) of
        Some t \<Rightarrow> t | None \<Rightarrow> internal_config_defaults (fst (ConfigManager_new env read_json)))"
  by (simp add: ConfigManager_new_def loadFromFile_def Let_def split: option.split)

text \<open>Without a configuration file every setting has its default.\<close>

lemma config_default:
  assumes "(path, v) \<in> set default_settings" and "read_json (getDefaultDirectory env @ getDefaultFile) = None"
    and "conv v = Some x"
  shows "getValue conv (fst (ConfigManager_new env read_json)) path = Inr x"
  using ConfigManager_new_config [of env read_json] ConfigManager_new_defaults [OF assms(1), of env read_json] assms(2,3)
  by (simp add: getValue_def getDefaults_def ptree_get_def)

lemma ConfigManager_new_directory: "getDirectory (fst (ConfigManager_new env read_json)) = getDefaultDirectory env"
  by (simp add: ConfigManager_new_def loadFromFile_def getDirectory_def initDefaults_def Let_def split: option.split)



text \<open>
  \<^verbatim>\<open>getInstance\<close> hands out one live object as long as \<^verbatim>\<open>clear\<close> is not called.  After \<^verbatim>\<open>clear\<close>
  it hands out the deleted object, and a second \<^verbatim>\<open>clear\<close> deletes it again.  The shared variant never
  hands out a dead object.
\<close>

theorem singleton_lifetime:
  assumes "\<forall>p. static_instance s = Some p \<longrightarrow> p \<in> set (live_objects s)"
    and "Singleton_getInstance s = (p, s1)" and "Singleton_clear s1 = r"
  shows "p \<in> set (live_objects s1) \<and> Singleton_getInstance s1 = (p, s1) \<and>
    (\<exists>s2. r = Inr s2 \<and> Singleton_getInstance s2 = (p, s2) \<and> p \<notin> set (live_objects s2) \<and>
       Singleton_clear s2 = Inl UndefinedBehaviour) \<and>
    (case SharedSingleton_getInstance s' of (q, s1') \<Rightarrow>
       q \<in> set (live_objects s1') \<and> SharedSingleton_getInstance s1' = (q, s1'))"
proof -
  have s1: "static_instance s1 = Some p" "p \<in> set (live_objects s1)"
    using assms(1,2) by (auto simp: Singleton_getInstance_def Let_def split: option.splits)
  let ?s2 = "s1\<lparr>live_objects := removeAll p (live_objects s1)\<rparr>"
  have "r = Inr ?s2" "Singleton_getInstance ?s2 = (p, ?s2)" "Singleton_clear ?s2 = Inl UndefinedBehaviour"
    using assms(3) s1 by (simp_all add: Singleton_getInstance_def Singleton_clear_def)
  moreover have "case SharedSingleton_getInstance s' of (q, s1') \<Rightarrow>
       q \<in> set (live_objects s1') \<and> SharedSingleton_getInstance s1' = (q, s1')"
    by (auto simp: SharedSingleton_getInstance_def Let_def split: option.split)
  ultimately show ?thesis
    using s1 by (auto simp: Singleton_getInstance_def)
qed

theorem singleton_lifetime_witness:
  "\<exists>s2. Singleton_clear \<lparr>static_instance = Some 0, live_objects = [0], next_address = 1\<rparr> = Inr s2 \<and>
     fst (Singleton_getInstance s2) \<notin> set (live_objects s2)"
  using singleton_lifetime [of "\<lparr>static_instance = Some 0, live_objects = [0], next_address = 1\<rparr>" 0
      "\<lparr>static_instance = Some 0, live_objects = [0], next_address = 1\<rparr>" _ undefined, OF _ _ refl]
  by (auto simp: Singleton_getInstance_def)

text \<open>
  For the version number composed of major, minor and build as its comment says, the printed
  build is the build plus 9000 times the minor: one factor in the subtraction has three zeros
  instead of four.
\<close>

theorem version_string_build:
  assumes "mi < 100" and "bi < 10000" and "ma < 4000"
  shows "version_string (word_of_nat (ma * 1000000 + mi * 10000 + bi)) =
    makeVersionString (word_of_nat ma) (word_of_nat mi) (word_of_nat (bi + mi * 9000)) P2PNET_CHANNEL"
proof -
  let ?v = "word_of_nat (ma * 1000000 + mi * 10000 + bi) :: u32"
  have major: "?v div 1000000 = word_of_nat ma"
    using assms by (simp add: word_unat_eq_iff unat_div unat_u32_of_nat del: of_nat_add of_nat_mult)
  have rest: "?v - word_of_nat ma * 1000000 = word_of_nat (mi * 10000 + bi)"
    by simp
  have minor: "(word_of_nat (mi * 10000 + bi) :: u32) div 10000 = word_of_nat mi"
    using assms by (simp add: word_unat_eq_iff unat_div unat_u32_of_nat del: of_nat_add of_nat_mult)
  have build: "(word_of_nat (mi * 10000 + bi) :: u32) - word_of_nat mi * 1000 = word_of_nat (bi + mi * 9000)"
    by (simp add: algebra_simps)
  show ?thesis
    unfolding version_string_def Let_def major rest minor build ..
qed

theorem version_string_build_witness: "version_string 10000 = ''0.01.9000-dev''"
  using version_string_build [of 1 0 0]
  by (simp add: makeVersionString_def P2PNET_CHANNEL_def pad_zero_def show_nat_def digits.simps)

text \<open>
  The error codes are pairwise different but for one pair, and exactly six of the thirteen
  have a message of their own.
\<close>

theorem error_codes:
  "(error_code a = error_code b \<longleftrightarrow> a = b \<or> {a, b} = {not_connected, message_parse_error}) \<and>
   (p2p_getErrorMessage a = ''Unknown error'' \<longleftrightarrow>
      a \<in> {success, timed_out, connection_reset, no_such_interface, no_transport, not_connected,
           message_parse_error})"
  by (cases a; cases b) (simp_all add: p2p_getErrorMessage_def message_c_def doubleton_eq_iff)

end
