(* ===== verification/Crypto_Keys.thy ===== *)
theory Crypto_Keys
  imports Crypto_Hash
begin

section \<open>Keys (src/common/crypto/AES, ECDH, PrivateKeyDSA, PublicKeyDSA, src/library/Crypto.cpp)\<close>

text \<open>
  The key classes own a possibly null pointer to a key of the cryptographic library, or octet
  strings.  The library is not part of the sources: its keys are values of type variables and the
  calls made to it are the fields of the records below.  Random numbers are explicit: a generated
  key or a seed is an argument of the operation that draws it.
\<close>

record ('sk, 'pk) botan_ecdsa =
  ecdsa_private_key :: "nat \<Rightarrow> 'sk result"
  ecdsa_private_value :: "'sk \<Rightarrow> nat"
  ecdsa_public_part :: "'sk \<Rightarrow> 'pk"
  pkcs8_load :: "bytes \<Rightarrow> 'sk option result"
  pkcs8_ber :: "'sk \<Rightarrow> bytes"
  pkcs8_pem :: "'sk \<Rightarrow> string"
  x509_load :: "bytes \<Rightarrow> 'pk option result"
  x509_ber :: "'pk \<Rightarrow> bytes"
  x509_pem :: "'pk \<Rightarrow> string"
  check_key :: "'pk \<Rightarrow> bool"
  sign_message :: "'sk \<Rightarrow> string \<Rightarrow> nat \<Rightarrow> bytes \<Rightarrow> bytes"
  verify_message :: "'pk \<Rightarrow> string \<Rightarrow> bytes \<Rightarrow> bytes \<Rightarrow> bool"
  eme_encrypt :: "'pk \<Rightarrow> string \<Rightarrow> nat \<Rightarrow> bytes \<Rightarrow> bytes result"
  eme_decrypt :: "'sk \<Rightarrow> string \<Rightarrow> bytes \<Rightarrow> bytes result"

record 'dh botan_ecdh =
  ecdh_load :: "bytes \<Rightarrow> 'dh option result"
  ecdh_ber :: "'dh \<Rightarrow> bytes"
  ecdh_public_value :: "'dh \<Rightarrow> bytes"
  ecdh_derive_key :: "'dh \<Rightarrow> string \<Rightarrow> nat \<Rightarrow> bytes \<Rightarrow> string \<Rightarrow> string"

datatype cipher_dir = ENCRYPTION | DECRYPTION

text \<open>Dereferencing a null owning pointer.\<close>

definition deref :: "'a option \<Rightarrow> 'a result" where
  "deref p = (case p of None \<Rightarrow> Inl UndefinedBehaviour | Some k \<Rightarrow> Inr k)"

lemma deref_simps [simp, result_simps]:
  "deref None = Inl UndefinedBehaviour" "deref (Some k) = Inr k"
  by (simp_all add: deref_def)

lemma deref_eq_Inr_iff [result_simps]: "deref p = Inr k \<longleftrightarrow> p = Some k"
  by (cases p) simp_all

subsection \<open>PrivateKeyDSA\<close>

definition dsa_byte_length :: nat where
  "dsa_byte_length = 256 div 8"

record 'sk PrivateKeyDSA =
  key_private :: "'sk option"

definition PrivateKeyDSA_new :: "'sk PrivateKeyDSA" where
  "PrivateKeyDSA_new = \<lparr>key_private = None\<rparr>"

definition PrivateKeyDSA_copy :: "'sk PrivateKeyDSA \<Rightarrow> 'sk PrivateKeyDSA result" where
  "PrivateKeyDSA_copy rvalue =
     bind_result (deref (key_private rvalue)) (\<lambda>k. Inr \<lparr>key_private = Some k\<rparr>)"

text \<open>Moves swap with the moved-from object: (new object or left side, moved-from object).\<close>

definition PrivateKeyDSA_move :: "'sk PrivateKeyDSA \<Rightarrow> 'sk PrivateKeyDSA \<times> 'sk PrivateKeyDSA" where
  "PrivateKeyDSA_move rvalue = (\<lparr>key_private = key_private rvalue\<rparr>, rvalue\<lparr>key_private := None\<rparr>)"

definition PrivateKeyDSA_assign :: "'sk PrivateKeyDSA \<Rightarrow> 'sk PrivateKeyDSA \<Rightarrow> 'sk PrivateKeyDSA result" where
  "PrivateKeyDSA_assign this rvalue =
     bind_result (deref (key_private rvalue)) (\<lambda>k. Inr (this\<lparr>key_private := Some k\<rparr>))"

definition PrivateKeyDSA_move_assign ::
  "'sk PrivateKeyDSA \<Rightarrow> 'sk PrivateKeyDSA \<Rightarrow> 'sk PrivateKeyDSA \<times> 'sk PrivateKeyDSA" where
  "PrivateKeyDSA_move_assign this rvalue =
     (this\<lparr>key_private := key_private rvalue\<rparr>, rvalue\<lparr>key_private := key_private this\<rparr>)"

definition PrivateKeyDSA_eq ::
  "('sk, 'pk) botan_ecdsa \<Rightarrow> 'sk PrivateKeyDSA \<Rightarrow> 'sk PrivateKeyDSA \<Rightarrow> bool result" where
  "PrivateKeyDSA_eq B this rvalue =
     bind_result (deref (key_private this)) (\<lambda>k.
     bind_result (deref (key_private rvalue)) (\<lambda>k'.
       Inr (ecdsa_private_value B k = ecdsa_private_value B k')))"

definition PrivateKeyDSA_generateKey :: "'sk \<Rightarrow> 'sk PrivateKeyDSA \<Rightarrow> 'sk PrivateKeyDSA" where
  "PrivateKeyDSA_generateKey fresh this = this\<lparr>key_private := Some fresh\<rparr>"

definition PrivateKeyDSA_generateNewKey :: "'sk \<Rightarrow> 'sk PrivateKeyDSA" where
  "PrivateKeyDSA_generateNewKey fresh = PrivateKeyDSA_generateKey fresh PrivateKeyDSA_new"

definition PrivateKeyDSA_decrypt ::
  "('sk, 'pk) botan_ecdsa \<Rightarrow> string \<Rightarrow> 'sk PrivateKeyDSA \<Rightarrow> string \<Rightarrow> string result" where
  "PrivateKeyDSA_decrypt B keccak_name this enc_data =
     bind_result (deref (key_private this)) (\<lambda>k.
     bind_result (Hash_getAlgoName keccak_name) (\<lambda>algo.
     bind_result (eme_decrypt B k (''EME1('' @ algo @ '')'') (bytes_of_string enc_data)) (\<lambda>v.
       Inr (string_of_bytes v))))"

definition PrivateKeyDSA_sign ::
  "('sk, 'pk) botan_ecdsa \<Rightarrow> string \<Rightarrow> nat \<Rightarrow> 'sk PrivateKeyDSA \<Rightarrow> string \<Rightarrow> string result" where
  "PrivateKeyDSA_sign B keccak_name rng this data =
     bind_result (deref (key_private this)) (\<lambda>k.
     bind_result (Hash_getAlgoName keccak_name) (\<lambda>algo.
       Inr (string_of_bytes (sign_message B k (''EMSA1('' @ algo @ '')'') rng (bytes_of_string data)))))"

definition PrivateKeyDSA_signRaw ::
  "('sk, 'pk) botan_ecdsa \<Rightarrow> nat \<Rightarrow> 'sk PrivateKeyDSA \<Rightarrow> string \<Rightarrow> string result" where
  "PrivateKeyDSA_signRaw B rng this data =
     bind_result (deref (key_private this)) (\<lambda>k.
       Inr (string_of_bytes (sign_message B k ''Raw'' rng (bytes_of_string data))))"

text \<open>A key of another kind leaves a null pointer behind (the failed \<^verbatim>\<open>dynamic_cast\<close>).\<close>

definition PrivateKeyDSA_fromPEM ::
  "('sk, 'pk) botan_ecdsa \<Rightarrow> 'sk PrivateKeyDSA \<Rightarrow> string \<Rightarrow> 'sk PrivateKeyDSA result" where
  "PrivateKeyDSA_fromPEM B this pem =
     bind_result (pkcs8_load B (bytes_of_string pem)) (\<lambda>k. Inr (this\<lparr>key_private := k\<rparr>))"

definition PrivateKeyDSA_toPEM :: "('sk, 'pk) botan_ecdsa \<Rightarrow> 'sk PrivateKeyDSA \<Rightarrow> string result" where
  "PrivateKeyDSA_toPEM B this = bind_result (deref (key_private this)) (\<lambda>k. Inr (pkcs8_pem B k))"

definition PrivateKeyDSA_fromBER ::
  "('sk, 'pk) botan_ecdsa \<Rightarrow> 'sk PrivateKeyDSA \<Rightarrow> bytes \<Rightarrow> 'sk PrivateKeyDSA result" where
  "PrivateKeyDSA_fromBER B this ber =
     bind_result (pkcs8_load B ber) (\<lambda>k. Inr (this\<lparr>key_private := k\<rparr>))"

definition PrivateKeyDSA_toBER :: "('sk, 'pk) botan_ecdsa \<Rightarrow> 'sk PrivateKeyDSA \<Rightarrow> bytes result" where
  "PrivateKeyDSA_toBER B this = bind_result (deref (key_private this)) (\<lambda>k. Inr (pkcs8_ber B k))"

definition PrivateKeyDSA_setAsBinaryVector ::
  "('sk, 'pk) botan_ecdsa \<Rightarrow> (bytes \<Rightarrow> nat) \<Rightarrow> 'sk PrivateKeyDSA \<Rightarrow> bytes \<Rightarrow> 'sk PrivateKeyDSA result" where
  "PrivateKeyDSA_setAsBinaryVector B bi_decode this v =
     bind_result (ecdsa_private_key B (bi_decode v)) (\<lambda>k. Inr (this\<lparr>key_private := Some k\<rparr>))"

text \<open>
  The value is copied from its last byte backwards into a vector of \<^const>\<open>dsa_byte_length\<close> zero
  bytes; a longer value is written in front of the vector.
\<close>

definition PrivateKeyDSA_toBinaryVector ::
  "('sk, 'pk) botan_ecdsa \<Rightarrow> (nat \<Rightarrow> bytes) \<Rightarrow> 'sk PrivateKeyDSA \<Rightarrow> bytes result" where
  "PrivateKeyDSA_toBinaryVector B bi_encode this =
     bind_result (deref (key_private this)) (\<lambda>k.
       let vectorized_val = bi_encode (ecdsa_private_value B k)
       in if length vectorized_val \<le> dsa_byte_length
          then Inr (replicate (dsa_byte_length - length vectorized_val) 0 @ vectorized_val)
          else Inl UndefinedBehaviour)"

subsection \<open>PublicKeyDSA\<close>

record 'pk PublicKeyDSA =
  key_public :: "'pk option"

definition PublicKeyDSA_new :: "'pk PublicKeyDSA" where
  "PublicKeyDSA_new = \<lparr>key_public = None\<rparr>"

definition PublicKeyDSA_of_private ::
  "('sk, 'pk) botan_ecdsa \<Rightarrow> 'sk PrivateKeyDSA \<Rightarrow> 'pk PublicKeyDSA result" where
  "PublicKeyDSA_of_private B privkey_dsa =
     bind_result (deref (key_private privkey_dsa)) (\<lambda>k. Inr \<lparr>key_public = Some (ecdsa_public_part B k)\<rparr>)"

definition PrivateKeyDSA_derivePublicKey ::
  "('sk, 'pk) botan_ecdsa \<Rightarrow> 'sk PrivateKeyDSA \<Rightarrow> 'pk PublicKeyDSA result" where
  "PrivateKeyDSA_derivePublicKey B this = PublicKeyDSA_of_private B this"

definition PublicKeyDSA_copy :: "'pk PublicKeyDSA \<Rightarrow> 'pk PublicKeyDSA result" where
  "PublicKeyDSA_copy rvalue =
     bind_result (deref (key_public rvalue)) (\<lambda>k. Inr \<lparr>key_public = Some k\<rparr>)"

definition PublicKeyDSA_move :: "'pk PublicKeyDSA \<Rightarrow> 'pk PublicKeyDSA \<times> 'pk PublicKeyDSA" where
  "PublicKeyDSA_move rvalue = (\<lparr>key_public = key_public rvalue\<rparr>, rvalue\<lparr>key_public := None\<rparr>)"

definition PublicKeyDSA_assign :: "'pk PublicKeyDSA \<Rightarrow> 'pk PublicKeyDSA \<Rightarrow> 'pk PublicKeyDSA result" where
  "PublicKeyDSA_assign this rvalue =
     bind_result (deref (key_public rvalue)) (\<lambda>k. Inr (this\<lparr>key_public := Some k\<rparr>))"

definition PublicKeyDSA_move_assign ::
  "'pk PublicKeyDSA \<Rightarrow> 'pk PublicKeyDSA \<Rightarrow> 'pk PublicKeyDSA \<times> 'pk PublicKeyDSA" where
  "PublicKeyDSA_move_assign this rvalue =
     (this\<lparr>key_public := key_public rvalue\<rparr>, rvalue\<lparr>key_public := key_public this\<rparr>)"

definition PublicKeyDSA_isPresent :: "'pk PublicKeyDSA \<Rightarrow> bool" where
  "PublicKeyDSA_isPresent this \<longleftrightarrow> key_public this \<noteq> None"

definition PublicKeyDSA_encrypt ::
  "('sk, 'pk) botan_ecdsa \<Rightarrow> string \<Rightarrow> nat \<Rightarrow> 'pk PublicKeyDSA \<Rightarrow> string \<Rightarrow> string result" where
  "PublicKeyDSA_encrypt B keccak_name rng this data =
     bind_result (deref (key_public this)) (\<lambda>k.
     bind_result (Hash_getAlgoName keccak_name) (\<lambda>algo.
     bind_result (eme_encrypt B k (''EME1('' @ algo @ '')'') rng (bytes_of_string data)) (\<lambda>v.
       Inr (string_of_bytes v))))"

definition PublicKeyDSA_verify ::
  "('sk, 'pk) botan_ecdsa \<Rightarrow> string \<Rightarrow> 'pk PublicKeyDSA \<Rightarrow> string \<Rightarrow> string \<Rightarrow> bool result" where
  "PublicKeyDSA_verify B keccak_name this data signature =
     bind_result (deref (key_public this)) (\<lambda>k.
     bind_result (Hash_getAlgoName keccak_name) (\<lambda>algo.
       Inr (verify_message B k (''EMSA1('' @ algo @ '')'') (bytes_of_string data) (bytes_of_string signature))))"

definition PublicKeyDSA_verifyRaw ::
  "('sk, 'pk) botan_ecdsa \<Rightarrow> 'pk PublicKeyDSA \<Rightarrow> string \<Rightarrow> string \<Rightarrow> bool result" where
  "PublicKeyDSA_verifyRaw B this data signature =
     bind_result (deref (key_public this)) (\<lambda>k.
       Inr (verify_message B k ''Raw'' (bytes_of_string data) (bytes_of_string signature)))"

definition PublicKeyDSA_fromPEM ::
  "('sk, 'pk) botan_ecdsa \<Rightarrow> 'pk PublicKeyDSA \<Rightarrow> string \<Rightarrow> 'pk PublicKeyDSA result" where
  "PublicKeyDSA_fromPEM B this pem =
     bind_result (x509_load B (bytes_of_string pem)) (\<lambda>k. Inr (this\<lparr>key_public := k\<rparr>))"

definition PublicKeyDSA_toPEM :: "('sk, 'pk) botan_ecdsa \<Rightarrow> 'pk PublicKeyDSA \<Rightarrow> string result" where
  "PublicKeyDSA_toPEM B this = bind_result (deref (key_public this)) (\<lambda>k. Inr (x509_pem B k))"

definition PublicKeyDSA_validate :: "('sk, 'pk) botan_ecdsa \<Rightarrow> 'pk PublicKeyDSA \<Rightarrow> bool result" where
  "PublicKeyDSA_validate B this = bind_result (deref (key_public this)) (\<lambda>k. Inr (check_key B k))"

definition PublicKeyDSA_setAsBinaryVector ::
  "('sk, 'pk) botan_ecdsa \<Rightarrow> 'pk PublicKeyDSA \<Rightarrow> bytes \<Rightarrow> 'pk PublicKeyDSA result" where
  "PublicKeyDSA_setAsBinaryVector B this v =
     bind_result (x509_load B v) (\<lambda>k. Inr (this\<lparr>key_public := k\<rparr>))"

definition PublicKeyDSA_toBinaryVector :: "('sk, 'pk) botan_ecdsa \<Rightarrow> 'pk PublicKeyDSA \<Rightarrow> bytes result" where
  "PublicKeyDSA_toBinaryVector B this = bind_result (deref (key_public this)) (\<lambda>k. Inr (x509_ber B k))"

text \<open>The hash of a public key; the parameter is passed by value, so the key is copied first.\<close>

definition Hash_of_pubkey ::
  "('sk, 'pk) botan_ecdsa \<Rightarrow> (string \<Rightarrow> bytes) \<Rightarrow> 'pk PublicKeyDSA \<Rightarrow> chash result" where
  "Hash_of_pubkey B keccak pubkey =
     bind_result (PublicKeyDSA_copy pubkey) (\<lambda>dsa_pubkey.
     bind_result (ms_toBinaryString (PublicKeyDSA_toBinaryVector B) dsa_pubkey) (\<lambda>s.
       Hash_compute keccak Hash_default s))"

subsection \<open>ECDH\<close>

record 'dh ECDH =
  ecdh_private :: "'dh option"

definition ECDH_new :: "'dh ECDH" where
  "ECDH_new = \<lparr>ecdh_private = None\<rparr>"

definition ECDH_setAsBinaryVector :: "'dh botan_ecdh \<Rightarrow> 'dh ECDH \<Rightarrow> bytes \<Rightarrow> 'dh ECDH result" where
  "ECDH_setAsBinaryVector D this v =
     bind_result (ecdh_load D v) (\<lambda>k. Inr (this\<lparr>ecdh_private := k\<rparr>))"

definition ECDH_toBinaryVector :: "'dh botan_ecdh \<Rightarrow> 'dh ECDH \<Rightarrow> bytes result" where
  "ECDH_toBinaryVector D this = bind_result (deref (ecdh_private this)) (\<lambda>k. Inr (ecdh_ber D k))"

definition ECDH_of_vector :: "'dh botan_ecdh \<Rightarrow> bytes \<Rightarrow> 'dh ECDH result" where
  "ECDH_of_vector D v = ECDH_setAsBinaryVector D ECDH_new v"

definition ECDH_copy :: "'dh ECDH \<Rightarrow> 'dh ECDH result" where
  "ECDH_copy rvalue = bind_result (deref (ecdh_private rvalue)) (\<lambda>k. Inr \<lparr>ecdh_private = Some k\<rparr>)"

definition ECDH_move :: "'dh ECDH \<Rightarrow> 'dh ECDH \<times> 'dh ECDH" where
  "ECDH_move rvalue = (\<lparr>ecdh_private = ecdh_private rvalue\<rparr>, rvalue\<lparr>ecdh_private := None\<rparr>)"

definition ECDH_assign :: "'dh ECDH \<Rightarrow> 'dh ECDH \<Rightarrow> 'dh ECDH result" where
  "ECDH_assign this rvalue =
     bind_result (deref (ecdh_private rvalue)) (\<lambda>k. Inr (this\<lparr>ecdh_private := Some k\<rparr>))"

definition ECDH_move_assign :: "'dh ECDH \<Rightarrow> 'dh ECDH \<Rightarrow> 'dh ECDH \<times> 'dh ECDH" where
  "ECDH_move_assign this rvalue =
     (this\<lparr>ecdh_private := ecdh_private rvalue\<rparr>, rvalue\<lparr>ecdh_private := ecdh_private this\<rparr>)"

definition ECDH_isPresent :: "'dh ECDH \<Rightarrow> bool" where
  "ECDH_isPresent this \<longleftrightarrow> ecdh_private this \<noteq> None"

definition ECDH_generateKey :: "'dh \<Rightarrow> 'dh ECDH \<Rightarrow> 'dh ECDH" where
  "ECDH_generateKey fresh this = this\<lparr>ecdh_private := Some fresh\<rparr>"

definition ECDH_generateNewKey :: "'dh \<Rightarrow> 'dh ECDH" where
  "ECDH_generateNewKey fresh = ECDH_generateKey fresh ECDH_new"

definition ECDH_deriveSymmetricKey ::
  "'dh botan_ecdh \<Rightarrow> string \<Rightarrow> 'dh ECDH \<Rightarrow> nat \<Rightarrow> string \<Rightarrow> string \<Rightarrow> string result" where
  "ECDH_deriveSymmetricKey D keccak_name this key_length other_pubkey session_param =
     bind_result (deref (ecdh_private this)) (\<lambda>k.
     bind_result (Hash_getAlgoName keccak_name) (\<lambda>algo.
       Inr (ecdh_derive_key D k (''KDF2('' @ algo @ '')'') key_length (bytes_of_string other_pubkey)
         session_param)))"

definition ECDH_derivePublicKey :: "'dh botan_ecdh \<Rightarrow> 'dh ECDH \<Rightarrow> string result" where
  "ECDH_derivePublicKey D this =
     bind_result (deref (ecdh_private this)) (\<lambda>k. Inr (string_of_bytes (ecdh_public_value D k)))"

subsection \<open>AES\<close>

text \<open>A symmetric key and an initialisation vector, both octet strings, empty at first.\<close>

record AES =
  aes_key :: bytes
  aes_iv :: bytes

definition AES_new :: AES where
  "AES_new = \<lparr>aes_key = [], aes_iv = []\<rparr>"

definition AES_keySize :: nat where
  "AES_keySize = 128 div 8"

definition AES_vectorSize :: nat where
  "AES_vectorSize = AES_keySize * 2"

definition AES_isPresent :: "AES \<Rightarrow> bool" where
  "AES_isPresent this \<longleftrightarrow> length (aes_key this) > 0 \<and> length (aes_iv this) > 0"

definition AES_encrypt ::
  "(string \<Rightarrow> bytes \<Rightarrow> bytes \<Rightarrow> cipher_dir \<Rightarrow> string \<Rightarrow> string result) \<Rightarrow> AES \<Rightarrow> string \<Rightarrow> string result" where
  "AES_encrypt pipe this data = pipe ''AES-128/CBC'' (aes_key this) (aes_iv this) ENCRYPTION data"

definition AES_decrypt ::
  "(string \<Rightarrow> bytes \<Rightarrow> bytes \<Rightarrow> cipher_dir \<Rightarrow> string \<Rightarrow> string result) \<Rightarrow> AES \<Rightarrow> string \<Rightarrow> string result" where
  "AES_decrypt pipe this data = pipe ''AES-128/CBC'' (aes_key this) (aes_iv this) DECRYPTION data"

text \<open>Iterators beyond the end of a short vector are undefined; a longer one is cut.\<close>

definition AES_setAsBinaryVector :: "AES \<Rightarrow> bytes \<Rightarrow> AES result" where
  "AES_setAsBinaryVector this v =
     (if length v < AES_vectorSize then Inl UndefinedBehaviour
      else Inr (this\<lparr>aes_key := take AES_keySize v,
                  aes_iv := take (AES_vectorSize - AES_keySize) (drop AES_keySize v)\<rparr>))"

definition AES_toBinaryVector :: "AES \<Rightarrow> bytes" where
  "AES_toBinaryVector this = aes_key this @ aes_iv this"

subsection \<open>Key pairs of the client library\<close>

definition generateKeyPair ::
  "('sk, 'pk) botan_ecdsa \<Rightarrow> (nat \<Rightarrow> bytes) \<Rightarrow> (bytes \<Rightarrow> nat) \<Rightarrow> 'sk \<Rightarrow> (string \<times> string) result" where
  "generateKeyPair B bi_encode bi_decode fresh =
     (let new_private_key = PrivateKeyDSA_generateNewKey fresh in
      bind_result (PrivateKeyDSA_derivePublicKey B new_private_key) (\<lambda>new_public_key.
      bind_result (ms_toBase58 bi_decode (PrivateKeyDSA_toBinaryVector B bi_encode) new_private_key) (\<lambda>private_b58.
      bind_result (ms_toBase58 bi_decode (PublicKeyDSA_toBinaryVector B) new_public_key) (\<lambda>public_b58.
        Inr (private_b58, public_b58)))))"

text \<open>
  A fresh buffer of \<^verbatim>\<open>size()+1\<close> characters filled by \<^verbatim>\<open>strcpy\<close>, which stops at the first NUL and
  writes one; the bytes behind it keep their unspecified values \<open>junk\<close>.
\<close>

definition c_buffer :: "(nat \<Rightarrow> char) \<Rightarrow> string \<Rightarrow> string" where
  "c_buffer junk s =
     (let copied = takeWhile (\<lambda>c. c \<noteq> CHR 0x00) s
      in copied @ CHR 0x00 # map junk [Suc (length copied)..<length s + 1])"

definition c_string :: "string \<Rightarrow> string" where
  "c_string buf = takeWhile (\<lambda>c. c \<noteq> CHR 0x00) buf"

definition p2p_generateKeyPair ::
  "('sk, 'pk) botan_ecdsa \<Rightarrow> (nat \<Rightarrow> bytes) \<Rightarrow> (bytes \<Rightarrow> nat) \<Rightarrow> (nat \<Rightarrow> char) \<Rightarrow> 'sk \<Rightarrow> (string \<times> string) result" where
  "p2p_generateKeyPair B bi_encode bi_decode junk fresh =
     bind_result (generateKeyPair B bi_encode bi_decode fresh)
       (\<lambda>(private_b58, public_b58). Inr (c_buffer junk private_b58, c_buffer junk public_b58))"

lemmas key_defs [cpp_defs] =
  PrivateKeyDSA_new_def PrivateKeyDSA_copy_def PrivateKeyDSA_assign_def PrivateKeyDSA_eq_def
  PrivateKeyDSA_generateKey_def PrivateKeyDSA_generateNewKey_def PrivateKeyDSA_decrypt_def
  PrivateKeyDSA_sign_def PrivateKeyDSA_signRaw_def PrivateKeyDSA_setAsBinaryVector_def
  PrivateKeyDSA_toBinaryVector_def PublicKeyDSA_of_private_def PrivateKeyDSA_derivePublicKey_def
  PublicKeyDSA_copy_def PublicKeyDSA_assign_def PublicKeyDSA_encrypt_def PublicKeyDSA_verify_def
  PublicKeyDSA_verifyRaw_def PublicKeyDSA_setAsBinaryVector_def PublicKeyDSA_toBinaryVector_def
  Hash_of_pubkey_def

lemmas aes_defs [cpp_defs] =
  AES_new_def AES_keySize_def AES_vectorSize_def AES_isPresent_def AES_encrypt_def AES_decrypt_def
  AES_setAsBinaryVector_def AES_toBinaryVector_def

subsection \<open>Binary forms\<close>

text \<open>Octet strings of exactly 32 bytes are read back unchanged.\<close>

interpretation aes_string: math_string AES_new AES_setAsBinaryVector
  "\<lambda>t. Inr (AES_toBinaryVector t)" "\<lambda>v. length v = AES_vectorSize"
proof
  fix v :: bytes and t :: AES
  assume "length v = AES_vectorSize"
  then show "\<exists>t'. AES_setAsBinaryVector t v = Inr t' \<and> Inr (AES_toBinaryVector t') = Inr v"
    by (simp add: aes_defs)
qed

text \<open>
  What a private key relies on: the library builds a key from every number between 1 and the
  order of the group, and the key has that number as its private value.
\<close>

definition ecdsa_values :: "('sk, 'pk) botan_ecdsa \<Rightarrow> nat \<Rightarrow> bool" where
  "ecdsa_values B order \<longleftrightarrow>
     (\<forall>n. 0 < n \<and> n < order \<longrightarrow> (\<exists>k. ecdsa_private_key B n = Inr k \<and> ecdsa_private_value B k = n))"

definition private_vector :: "nat \<Rightarrow> bytes \<Rightarrow> bool" where
  "private_vector order v \<longleftrightarrow> length v = dsa_byte_length \<and> 0 < be_value v \<and> be_value v < order"

lemma padded_be_bytes:
  assumes "length v = n"
  shows "replicate (n - length (be_bytes (be_value v))) 0 @ be_bytes (be_value v) = v"
proof -
  have "v = takeWhile (\<lambda>x. x = 0) v @ dropWhile (\<lambda>x. x = 0) v" by simp
  moreover have "takeWhile (\<lambda>x. x = 0) v = replicate (n - length (dropWhile (\<lambda>x. x = 0) v)) 0"
  proof (rule replicate_eqI)
    show "length (takeWhile (\<lambda>x. x = 0) v) = n - length (dropWhile (\<lambda>x. x = 0) v)"
      using assms by (metis add_diff_cancel_right' length_append takeWhile_dropWhile_id)
  qed (auto dest: set_takeWhileD)
  ultimately show ?thesis by (metis be_bytes_be_value)
qed

lemma private_key_numeric:
  assumes "ecdsa_values B order"
  shows "numeric_math_string (PrivateKeyDSA_setAsBinaryVector B be_value)
    (PrivateKeyDSA_toBinaryVector B be_bytes) (private_vector order)"
proof
  fix v t
  assume v: "private_vector order v"
  then obtain k where k: "ecdsa_private_key B (be_value v) = Inr k" "ecdsa_private_value B k = be_value v"
    using assms by (auto simp: ecdsa_values_def private_vector_def)
  have "length (be_bytes (be_value v)) \<le> dsa_byte_length"
    using v be_value_less [of v] by (simp add: private_vector_def length_be_bytes_le)
  then show "\<exists>t'. PrivateKeyDSA_setAsBinaryVector B be_value t v = Inr t' \<and>
      PrivateKeyDSA_toBinaryVector B be_bytes t' = Inr v"
    using k v padded_be_bytes [of v dsa_byte_length]
    by (simp add: PrivateKeyDSA_setAsBinaryVector_def PrivateKeyDSA_toBinaryVector_def private_vector_def)
  show "PrivateKeyDSA_setAsBinaryVector B be_value t (dropWhile (\<lambda>b. b = 0) v) =
      PrivateKeyDSA_setAsBinaryVector B be_value t v"
    by (simp add: PrivateKeyDSA_setAsBinaryVector_def flip: be_bytes_be_value)
qed

text \<open>
  The same with the library instantiated by plain numbers: a private key is its value, a public
  key too, and a signature carries the padding scheme and the data.
\<close>

definition plain_ecdsa :: "(nat, nat) botan_ecdsa" where
  "plain_ecdsa = \<lparr>ecdsa_private_key = (\<lambda>n. if n = 0 then Inl (LibraryException ''invalid'') else Inr n),
     ecdsa_private_value = id, ecdsa_public_part = id,
     pkcs8_load = (\<lambda>v. Inr (Some (be_value v))), pkcs8_ber = be_bytes, pkcs8_pem = show_nat,
     x509_load = (\<lambda>v. Inr (Some (be_value v))), x509_ber = be_bytes, x509_pem = show_nat,
     check_key = (\<lambda>n. n \<noteq> 0),
     sign_message = (\<lambda>k pad rng m. be_bytes k @ bytes_of_string pad @ m),
     verify_message = (\<lambda>k pad m s. s = be_bytes k @ bytes_of_string pad @ m),
     eme_encrypt = (\<lambda>k pad rng m. Inr (be_bytes k @ m)),
     eme_decrypt = (\<lambda>k pad c. Inr (drop (length (be_bytes k)) c))\<rparr>"

lemma plain_ecdsa_values: "ecdsa_values plain_ecdsa order"
  by (simp add: ecdsa_values_def plain_ecdsa_def)

interpretation private_key_string: numeric_math_string PrivateKeyDSA_new
  "PrivateKeyDSA_setAsBinaryVector plain_ecdsa be_value" "PrivateKeyDSA_toBinaryVector plain_ecdsa be_bytes"
  "private_vector (256 ^ 32)"
  by (rule private_key_numeric [OF plain_ecdsa_values])

subsection \<open>Properties\<close>

text \<open>
  (C23) The base 58 text of a private key restores an equal key: the 32-byte form keeps the
  leading zero bytes of the value, base 58 drops them, and reading the text as a number makes up
  for it.
\<close>

theorem private_key_base58:
  assumes "ecdsa_values B order" and "order \<le> 256 ^ 32"
    and "key_private t = Some k" and "0 < ecdsa_private_value B k" and "ecdsa_private_value B k < order"
  shows "\<exists>s t'. ms_toBase58 be_value (PrivateKeyDSA_toBinaryVector B be_bytes) t = Inr s \<and>
    ms_fromBase58 be_bytes (PrivateKeyDSA_setAsBinaryVector B be_value) PrivateKeyDSA_new s = Inr t' \<and>
    PrivateKeyDSA_eq B t' t = Inr True"
proof -
  let ?n = "ecdsa_private_value B k"
  let ?v = "replicate (dsa_byte_length - length (be_bytes ?n)) 0 @ be_bytes ?n"
  have len: "length (be_bytes ?n) \<le> dsa_byte_length"
    using assms(2,5) by (simp add: length_be_bytes_le dsa_byte_length_def)
  then have v: "PrivateKeyDSA_toBinaryVector B be_bytes t = Inr ?v"
    using assms(3) by (simp add: PrivateKeyDSA_toBinaryVector_def Let_def)
  moreover have "private_vector order ?v"
    using assms(4,5) len by (simp add: private_vector_def)
  moreover have "length ?v < 2 ^ 30"
    using len by (simp add: dsa_byte_length_def)
  ultimately obtain s t' where st: "ms_toBase58 be_value (PrivateKeyDSA_toBinaryVector B be_bytes) t = Inr s"
    "ms_fromBase58 be_bytes (PrivateKeyDSA_setAsBinaryVector B be_value) PrivateKeyDSA_new s = Inr t'"
    "PrivateKeyDSA_toBinaryVector B be_bytes t' = PrivateKeyDSA_toBinaryVector B be_bytes t"
    using numeric_math_string.reread_base58 [OF private_key_numeric [OF assms(1)]] by blast
  obtain k' where k': "key_private t' = Some k'"
    "replicate (dsa_byte_length - length (be_bytes (ecdsa_private_value B k'))) 0 @ be_bytes (ecdsa_private_value B k') = ?v"
    using st(3) v by (auto simp: PrivateKeyDSA_toBinaryVector_def Let_def result_simps split: if_splits)
  have "ecdsa_private_value B k' = ?n"
    using arg_cong [OF k'(2), of be_value] by simp
  with st k'(1) assms(3) show ?thesis by (simp add: PrivateKeyDSA_eq_def)
qed

theorem private_key_base58_witness:
  "\<exists>s t'. ms_toBase58 be_value (PrivateKeyDSA_toBinaryVector plain_ecdsa be_bytes) \<lparr>key_private = Some 77\<rparr> = Inr s \<and>
    ms_fromBase58 be_bytes (PrivateKeyDSA_setAsBinaryVector plain_ecdsa be_value) PrivateKeyDSA_new s = Inr t' \<and>
    PrivateKeyDSA_eq plain_ecdsa t' \<lparr>key_private = Some 77\<rparr> = Inr True"
  using private_key_base58 [OF plain_ecdsa_values order_refl, of "\<lparr>key_private = Some 77\<rparr>" 77]
  by (simp add: plain_ecdsa_def)



text \<open>What one side makes of its own session key and the other side's public value.\<close>

definition session_key ::
  "'dh botan_ecdh \<Rightarrow> string \<Rightarrow> 'dh \<Rightarrow> nat \<Rightarrow> string \<Rightarrow> string \<Rightarrow> AES result" where
  "session_key D algo fresh n other_pubkey param =
     bind_result (ECDH_deriveSymmetricKey D algo (ECDH_generateNewKey fresh) n other_pubkey param)
       (ms_fromBinaryString AES_setAsBinaryVector AES_new)"

definition plain_ecdh :: "nat botan_ecdh" where
  "plain_ecdh = \<lparr>ecdh_load = (\<lambda>v. Inr (Some (be_value v))), ecdh_ber = be_bytes, ecdh_public_value = be_bytes,
     ecdh_derive_key = (\<lambda>a kdf n v p. replicate n (if a * be_value v > 9 then CHR ''k'' else CHR ''l''))\<rparr>"

lemma aes_of_string:
  assumes "\<And>alg key iv m. length key = 16 \<Longrightarrow> length iv = 16 \<Longrightarrow>
      \<exists>c. pipe alg key iv ENCRYPTION m = Inr c \<and> pipe alg key iv DECRYPTION c = Inr m"
  shows "if length s < AES_vectorSize
    then ms_fromBinaryString AES_setAsBinaryVector AES_new s = Inl UndefinedBehaviour
    else \<exists>t c. ms_fromBinaryString AES_setAsBinaryVector AES_new s = Inr t \<and> AES_isPresent t \<and>
       AES_encrypt pipe t m = Inr c \<and> AES_decrypt pipe t c = Inr m"
  using assms [of "take 16 (bytes_of_string s)" "take 16 (drop 16 (bytes_of_string s))" "''AES-128/CBC''" m]
  by (cases s) (simp_all add: ms_defs aes_defs bytes_of_string_def)



lemma base58_no_nul: "CHR 0x00 \<notin> set (encodeToBase58 be_value s)"
proof -
  have "CHR 0x00 \<notin> set base58_alphabet" by (simp add: base58_alphabet_def)
  moreover have "set (encodeToBase58 be_value s) \<subseteq> set base58_alphabet"
  proof
    fix c
    assume "c \<in> set (encodeToBase58 be_value s)"
    then obtain d where "c = base58_alphabet ! d" "d \<in> set (digits 58 (be_value (bytes_of_string s)))"
      by (auto simp: encodeToBase58_digits)
    then show "c \<in> set base58_alphabet" by (simp add: digits_less)
  qed
  ultimately show ?thesis by blast
qed

lemma c_buffer_no_nul: "CHR 0x00 \<notin> set s \<Longrightarrow> c_buffer junk s = s @ [CHR 0x00]"
proof -
  assume "CHR 0x00 \<notin> set s"
  then have t: "takeWhile (\<lambda>c. c \<noteq> CHR 0x00) s = s" by (auto simp: takeWhile_eq_all_conv)
  show ?thesis unfolding c_buffer_def Let_def t by simp
qed

lemma c_string_c_buffer: "CHR 0x00 \<notin> set s \<Longrightarrow> c_string (c_buffer junk s) = s"
  unfolding c_string_def by (subst c_buffer_no_nul, assumption, subst takeWhile_append2) auto

lemma length_c_buffer: "CHR 0x00 \<notin> set s \<Longrightarrow> length (c_buffer junk s) = length s + 1"
  by (simp add: c_buffer_no_nul)

text \<open>
  The C interface hands out exactly the base 58 texts of the C++ one, as terminated strings:
  no byte of them is NUL, and \<^verbatim>\<open>strcpy\<close> fills the buffers it is given.
\<close>

theorem p2p_generateKeyPair_strings:
  "if length (be_bytes (ecdsa_private_value B fresh)) \<le> dsa_byte_length
   then \<exists>priv pub privb pubb. generateKeyPair B be_bytes be_value fresh = Inr (priv, pub) \<and>
     p2p_generateKeyPair B be_bytes be_value junk fresh = Inr (privb, pubb) \<and>
     c_string privb = priv \<and> c_string pubb = pub \<and>
     length privb = length priv + 1 \<and> length pubb = length pub + 1
   else p2p_generateKeyPair B be_bytes be_value junk fresh = Inl UndefinedBehaviour"
  by (simp add: p2p_generateKeyPair_def generateKeyPair_def PrivateKeyDSA_generateNewKey_def
      PrivateKeyDSA_generateKey_def PrivateKeyDSA_new_def PrivateKeyDSA_derivePublicKey_def
      PublicKeyDSA_of_private_def PublicKeyDSA_toBinaryVector_def PrivateKeyDSA_toBinaryVector_def
      ms_toBase58_def ms_toBinaryString_def Let_def c_string_c_buffer length_c_buffer base58_no_nul)

end
