(* ===== verification/Key_Provider.thy ===== *)
theory Key_Provider
  imports Crypto_Keys Common_Config
begin

section \<open>Key rotation (src/daemon/overlay/KeyProvider.h, KeyProvider.cpp)\<close>

text \<open>
  The key provider keeps a history of identities, newest first, and makes a new one whenever its
  timer fires.  The time and the fresh key are arguments of the operation that draws them.
\<close>

subsection \<open>KeyInfo\<close>

record ('sk, 'pk) KeyInfo =
  ki_private_key :: "'sk PrivateKeyDSA"
  ki_public_key :: "'pk PublicKeyDSA"
  ki_th :: chash
  expiration_time :: time_point
  lose_time :: time_point

definition KeyInfo_new :: "('sk, 'pk) KeyInfo" where
  "KeyInfo_new = \<lparr>ki_private_key = PrivateKeyDSA_new, ki_public_key = PublicKeyDSA_new,
     ki_th = Hash_default, expiration_time = 0, lose_time = 0\<rparr>"

text \<open>The implicit copy constructor copies the members; copying an absent key dereferences null.\<close>

definition KeyInfo_copy :: "('sk, 'pk) KeyInfo \<Rightarrow> ('sk, 'pk) KeyInfo result" where
  "KeyInfo_copy ki =
     bind_result (PrivateKeyDSA_copy (ki_private_key ki)) (\<lambda>priv.
     bind_result (PublicKeyDSA_copy (ki_public_key ki)) (\<lambda>pub.
       Inr \<lparr>ki_private_key = priv, ki_public_key = pub, ki_th = Hash_copy (ki_th ki),
            expiration_time = expiration_time ki, lose_time = lose_time ki\<rparr>))"

record KeyInfo_pb =
  ecdsa_key :: string
  pb_expiration_time :: int
  pb_lose_time :: int

definition KeyInfo_fromProtobuf ::
  "('sk, 'pk) botan_ecdsa \<Rightarrow> (string \<Rightarrow> bytes) \<Rightarrow> ('sk, 'pk) KeyInfo \<Rightarrow> KeyInfo_pb \<Rightarrow> ('sk, 'pk) KeyInfo result" where
  "KeyInfo_fromProtobuf B keccak this key_info_s =
     bind_result (ms_setAsBinaryString (PublicKeyDSA_setAsBinaryVector B) (ki_public_key this)
         (ecdsa_key key_info_s)) (\<lambda>pub.
     bind_result (Hash_of_pubkey B keccak pub) (\<lambda>th.
       Inr (this\<lparr>ki_public_key := pub, ki_th := fst (Hash_move_assign (ki_th this) th),
              expiration_time := from_time_t (pb_expiration_time key_info_s),
              lose_time := from_time_t (pb_lose_time key_info_s)\<rparr>)))"

definition KeyInfo_toProtobuf ::
  "('sk, 'pk) botan_ecdsa \<Rightarrow> ('sk, 'pk) KeyInfo \<Rightarrow> KeyInfo_pb result" where
  "KeyInfo_toProtobuf B this =
     bind_result (ms_toBinaryString (PublicKeyDSA_toBinaryVector B) (ki_public_key this)) (\<lambda>key.
       Inr \<lparr>ecdsa_key = key, pb_expiration_time = to_time_t (expiration_time this),
            pb_lose_time = to_time_t (lose_time this)\<rparr>)"

subsection \<open>KeyProvider\<close>

record ('sk, 'pk) KeyProvider =
  history :: "('sk, 'pk) KeyInfo list"
  max_history_size :: u32
  expiration_interval :: seconds
  lose_interval :: seconds
  timer_expiry :: "time_point option"
  rotations_posted :: nat

text \<open>
  \<^verbatim>\<open>renewKeys\<close>.  A rotation handler is posted when there was a key before; it captures the local
  \<open>new_info\<close> by reference and is counted only.  The log line reads the front of the history.
\<close>

definition renewKeys ::
  "('sk, 'pk) botan_ecdsa \<Rightarrow> (string \<Rightarrow> bytes) \<Rightarrow> time_point \<Rightarrow> 'sk \<Rightarrow>
   ('sk, 'pk) KeyProvider \<Rightarrow> ('sk, 'pk) KeyProvider result" where
  "renewKeys B keccak now fresh this =
     (let private_key = PrivateKeyDSA_generateNewKey fresh in
      bind_result (PrivateKeyDSA_derivePublicKey B private_key) (\<lambda>public_key.
      bind_result (PublicKeyDSA_of_private B private_key) (\<lambda>converted.
      bind_result (Hash_of_pubkey B keccak converted) (\<lambda>th.
      let new_info = KeyInfo_new\<lparr>expiration_time := now + ticks (expiration_interval this),
              lose_time := now + ticks (lose_interval this),
              ki_private_key := private_key, ki_public_key := public_key,
              ki_th := fst (Hash_move_assign Hash_default th)\<rparr>;
          this1 = (if history this \<noteq> [] then this\<lparr>rotations_posted := Suc (rotations_posted this)\<rparr> else this)
      in bind_result (KeyInfo_copy new_info) (\<lambda>pushed.
         let history1 = pushed # history this1;
             history2 = (if unat (max_history_size this1) < length history1 then butlast history1 else history1)
         in if history2 = [] then Inl UndefinedBehaviour
            else Inr (this1\<lparr>history := history2, timer_expiry := Some (expiration_time new_info)\<rparr>))))))"

text \<open>
  Joining the previous generator thread and starting a new one that runs \<^verbatim>\<open>renewKeys\<close>: seen from
  the io thread, one renewal.
\<close>

definition loopGenerate ::
  "('sk, 'pk) botan_ecdsa \<Rightarrow> (string \<Rightarrow> bytes) \<Rightarrow> time_point \<Rightarrow> 'sk \<Rightarrow>
   ('sk, 'pk) KeyProvider \<Rightarrow> ('sk, 'pk) KeyProvider result" where
  "loopGenerate B keccak now fresh this = renewKeys B keccak now fresh this"

text \<open>
  The constructor: both sizes are \<^verbatim>\<open>unsigned int\<close> and their sum and product wrap around before
  they become seconds.
\<close>

definition KeyProvider_new ::
  "('sk, 'pk) botan_ecdsa \<Rightarrow> (string \<Rightarrow> bytes) \<Rightarrow> u32 \<Rightarrow> u32 \<Rightarrow> time_point \<Rightarrow> 'sk \<Rightarrow>
   ('sk, 'pk) KeyProvider result" where
  "KeyProvider_new B keccak history_size renew_interval now fresh =
     (let max_size = history_size + 1
      in loopGenerate B keccak now fresh
           \<lparr>history = [], max_history_size = max_size, expiration_interval = uint renew_interval,
            lose_interval = uint (renew_interval * max_size), timer_expiry = None, rotations_posted = 0\<rparr>)"

definition getKeyInfo :: "('sk, 'pk) KeyProvider \<Rightarrow> nat \<Rightarrow> ('sk, 'pk) KeyInfo option result" where
  "getKeyInfo this offset =
     (if offset < length (history this)
      then bind_result (KeyInfo_copy (history this ! offset)) (\<lambda>ki. Inr (Some ki))
      else Inr None)"

definition getKeyInfo_th :: "('sk, 'pk) KeyProvider \<Rightarrow> chash \<Rightarrow> ('sk, 'pk) KeyInfo option result" where
  "getKeyInfo_th this recent_th =
     (case find (\<lambda>ki. Hash_eq (ki_th ki) recent_th) (history this) of
        None \<Rightarrow> Inr None
      | Some ki \<Rightarrow> bind_result (KeyInfo_copy ki) (\<lambda>ki'. Inr (Some ki')))"

subsection \<open>The history of a provider\<close>

text \<open>The identity a renewal at a given time with a given fresh key puts into the history.\<close>

definition issued ::
  "('sk, 'pk) botan_ecdsa \<Rightarrow> (string \<Rightarrow> bytes) \<Rightarrow> seconds \<Rightarrow> seconds \<Rightarrow> time_point \<times> 'sk \<Rightarrow> ('sk, 'pk) KeyInfo" where
  "issued B keccak expire lose ev = (case ev of (now, fresh) \<Rightarrow>
     \<lparr>ki_private_key = \<lparr>key_private = Some fresh\<rparr>,
      ki_public_key = \<lparr>key_public = Some (ecdsa_public_part B fresh)\<rparr>,
      ki_th = \<lparr>hash = keccak (string_of_bytes (x509_ber B (ecdsa_public_part B fresh))), hasher = False\<rparr>,
      expiration_time = now + ticks expire, lose_time = now + ticks lose\<rparr>)"

lemma KeyInfo_copy_issued [simp]:
  "KeyInfo_copy (issued B keccak e l ev) = Inr (issued B keccak e l ev)"
  by (cases ev) (simp add: KeyInfo_copy_def issued_def key_defs Hash_copy_def)

lemma renewKeys_history:
  assumes "0 < unat (max_history_size kp)" and "length (history kp) \<le> unat (max_history_size kp)"
  shows "\<exists>kp'. renewKeys B keccak now fresh kp = Inr kp' \<and>
    history kp' = take (unat (max_history_size kp))
      (issued B keccak (expiration_interval kp) (lose_interval kp) (now, fresh) # history kp) \<and>
    max_history_size kp' = max_history_size kp \<and> expiration_interval kp' = expiration_interval kp \<and>
    lose_interval kp' = lose_interval kp \<and> timer_expiry kp' = Some (now + ticks (expiration_interval kp))"
proof -
  note defs = renewKeys_def Let_def key_defs KeyInfo_copy_def KeyInfo_new_def Hash_move_assign_def
    Hash_compute_def Hash_setAsBinaryVector_def Hash_default_def Hash_copy_def ms_toBinaryString_def issued_def
  show ?thesis
  proof (cases "length (history kp) = unat (max_history_size kp)")
    case True
    then have "butlast (x # history kp) = take (unat (max_history_size kp)) (x # history kp)"
      "take (unat (max_history_size kp)) (x # history kp) \<noteq> []" for x
      using assms(1) by (simp_all add: butlast_conv_take del: butlast.simps)
    with True show ?thesis by (simp add: defs del: butlast.simps)
  next
    case False
    with assms(2) show ?thesis by (simp add: defs)
  qed
qed

fun renewals ::
  "('sk, 'pk) botan_ecdsa \<Rightarrow> (string \<Rightarrow> bytes) \<Rightarrow> (time_point \<times> 'sk) list \<Rightarrow>
   ('sk, 'pk) KeyProvider \<Rightarrow> ('sk, 'pk) KeyProvider result" where
  "renewals B keccak [] kp = Inr kp"
| "renewals B keccak ((now, fresh) # evs) kp =
     bind_result (loopGenerate B keccak now fresh kp) (renewals B keccak evs)"

lemma renewals_history:
  assumes "0 < unat (max_history_size kp)" and "length (history kp) \<le> unat (max_history_size kp)"
  shows "\<exists>kp'. renewals B keccak evs kp = Inr kp' \<and> max_history_size kp' = max_history_size kp \<and>
    history kp' = take (unat (max_history_size kp))
      (map (issued B keccak (expiration_interval kp) (lose_interval kp)) (rev evs) @ history kp)"
  using assms
proof (induction evs arbitrary: kp)
  case (Cons ev evs)
  obtain now fresh where ev: "ev = (now, fresh)" by (cases ev)
  obtain kp1 where kp1: "renewKeys B keccak now fresh kp = Inr kp1"
    "history kp1 = take (unat (max_history_size kp))
      (issued B keccak (expiration_interval kp) (lose_interval kp) ev # history kp)"
    "max_history_size kp1 = max_history_size kp" "expiration_interval kp1 = expiration_interval kp"
    "lose_interval kp1 = lose_interval kp"
    using renewKeys_history [OF Cons.prems] ev by blast
  have "length (history kp1) \<le> unat (max_history_size kp1)" by (simp add: kp1)
  with Cons.IH [of kp1] Cons.prems(1) obtain kp' where "renewals B keccak evs kp1 = Inr kp'"
    "max_history_size kp' = max_history_size kp"
    "history kp' = take (unat (max_history_size kp))
      (map (issued B keccak (expiration_interval kp) (lose_interval kp)) (rev evs) @ history kp1)"
    by (auto simp: kp1(3-5))
  then show ?case
    by (simp add: ev [symmetric] kp1(1,2) loopGenerate_def) (simp add: ev kp1(1) loopGenerate_def take_append)
qed simp

lemma KeyProvider_history:
  assumes "history_size \<noteq> - 1"
  shows "\<exists>kp. bind_result (KeyProvider_new B keccak history_size renew now fresh) (renewals B keccak evs) = Inr kp \<and>
    history kp = map (issued B keccak (uint renew) (uint (renew * (history_size + 1))))
      (take (Suc (unat history_size)) (rev ((now, fresh) # evs)))"
proof -
  let ?kp0 = "\<lparr>history = [], max_history_size = history_size + 1, expiration_interval = uint renew,
    lose_interval = uint (renew * (history_size + 1)), timer_expiry = None, rotations_posted = 0\<rparr>"
  have size: "unat (history_size + 1) = Suc (unat history_size)"
    using assms by (rule unat_Suc_u32)
  have run: "bind_result (KeyProvider_new B keccak history_size renew now fresh) (renewals B keccak evs) =
      renewals B keccak ((now, fresh) # evs) ?kp0"
    by (simp add: KeyProvider_new_def Let_def)
  show ?thesis
    unfolding run using renewals_history [of ?kp0 B keccak "(now, fresh) # evs"]
    by (simp only: KeyProvider.simps size take_map append_Nil2) auto
qed

subsection \<open>Properties\<close>

text \<open>
  (C14) After any sequence of renewals the history holds exactly the most recent identities, newest
  first, \<open>history_size + 1\<close> of them at most; the current key always exists, and the key at an offset
  is the one made that many renewals ago.  The size setting must not be the largest 32-bit number,
  for which the limit wraps around to zero.
\<close>

theorem key_history:
  assumes "history_size \<noteq> - 1"
  shows "\<exists>kp. bind_result (KeyProvider_new B keccak history_size renew now fresh) (renewals B keccak evs) = Inr kp \<and>
    history kp = map (issued B keccak (uint renew) (uint (renew * (history_size + 1))))
      (take (Suc (unat history_size)) (rev ((now, fresh) # evs))) \<and>
    (\<forall>i. getKeyInfo kp i = Inr (if i < min (Suc (length evs)) (Suc (unat history_size))
       then Some (issued B keccak (uint renew) (uint (renew * (history_size + 1))) (rev ((now, fresh) # evs) ! i))
       else None))"
proof -
  obtain kp where kp: "bind_result (KeyProvider_new B keccak history_size renew now fresh) (renewals B keccak evs) = Inr kp"
    and h: "history kp = map (issued B keccak (uint renew) (uint (renew * (history_size + 1))))
      (take (Suc (unat history_size)) (rev ((now, fresh) # evs)))"
    using KeyProvider_history [OF assms, of B keccak renew now fresh evs] by blast
  have "getKeyInfo kp i = Inr (if i < min (Suc (length evs)) (Suc (unat history_size))
       then Some (issued B keccak (uint renew) (uint (renew * (history_size + 1))) (rev ((now, fresh) # evs) ! i))
       else None)" for i
    by (simp add: getKeyInfo_def h del: rev.simps)
  with kp h show ?thesis by blast
qed

theorem key_history_witness:
  "\<exists>kp. bind_result (KeyProvider_new plain_ecdsa bytes_of_string 1 600 0 3)
      (renewals plain_ecdsa bytes_of_string [(5, 4), (9, 6)]) = Inr kp \<and> length (history kp) = 2"
proof -
  have "(1 :: u32) \<noteq> - 1" by simp
  from key_history [OF this, of plain_ecdsa bytes_of_string 600 0 3 "[(5, 4), (9, 6)]"]
  obtain kp where "bind_result (KeyProvider_new plain_ecdsa bytes_of_string 1 600 0 3)
      (renewals plain_ecdsa bytes_of_string [(5, 4), (9, 6)]) = Inr kp"
    and h: "history kp = map (issued plain_ecdsa bytes_of_string (uint (600 :: u32)) (uint (600 * (1 + 1) :: u32)))
      (take (Suc (unat (1 :: u32))) (rev [(0, 3), (5, 4), (9, 6)]))"
    by blast
  moreover have "length (history kp) = 2" unfolding h length_map by simp
  ultimately show ?thesis by blast
qed

text \<open>
  (C16) When the timer fires on time, a key leaves the history exactly when its lose time has come:
  after the renewal at time \<open>t\<close> the history holds the keys made so far whose lose time is later than
  \<open>t\<close>.  This needs the product of interval and size to fit 32 bits.
\<close>

theorem key_lose_time:
  assumes "history_size \<noteq> - 1" and "0 < renew"
    and "unat renew * Suc (unat history_size) < 2 ^ 32"
    and evs: "(now, fresh) # evs = map (\<lambda>i. (t0 + int i * ticks (uint renew), key i)) [0..<Suc n]"
  shows "\<exists>kp. bind_result (KeyProvider_new B keccak history_size renew now fresh) (renewals B keccak evs) = Inr kp \<and>
    history kp = filter (\<lambda>ki. t0 + int n * ticks (uint renew) < lose_time ki)
      (rev (map (issued B keccak (uint renew) (uint (renew * (history_size + 1)))) ((now, fresh) # evs)))"
proof -
  let ?I = "issued B keccak (uint renew) (uint (renew * (history_size + 1)))"
  let ?m = "Suc (unat history_size)"
  let ?xs = "rev (map ?I ((now, fresh) # evs))"
  have "unat (renew * (history_size + 1)) = (unat renew * ?m) mod 2 ^ LENGTH(32)"
    by (simp only: unat_word_ariths(2) unat_Suc_u32 [OF assms(1)])
  also have "\<dots> = unat renew * ?m"
    using assms(3) by (intro mod_less) simp
  finally have prod: "uint (renew * (history_size + 1)) = uint renew * int ?m"
    by (metis uint_nat of_nat_mult)
  have pos: "0 < ticks (uint renew)"
    using assms(2) by (simp add: ticks_def word_less_def)
  have len: "length ?xs = Suc n"
    unfolding evs by simp
  have nth: "lose_time (?xs ! j) = t0 + int (n - j) * ticks (uint renew) + ticks (uint renew) * int ?m"
    if "j < Suc n" for j
    unfolding evs using that by (simp add: rev_nth nth_append issued_def prod ticks_def less_Suc_eq_le del: upt_Suc)
  have "filter (\<lambda>ki. t0 + int n * ticks (uint renew) < lose_time ki) ?xs = take ?m ?xs"
  proof (rule filter_eq_take_nth)
    fix j
    assume "j < length ?xs"
    then have j: "j < Suc n" using len by simp
    have "lose_time (?xs ! j) = t0 + int n * ticks (uint renew) + (int ?m - int j) * ticks (uint renew)"
      unfolding nth [OF j] using j by (simp add: algebra_simps of_nat_diff)
    moreover have "0 < (int ?m - int j) * ticks (uint renew) \<longleftrightarrow> j < ?m"
      using zero_less_mult_iff [of "int ?m - int j" "ticks (uint renew)"] pos by linarith
    ultimately show "t0 + int n * ticks (uint renew) < lose_time (?xs ! j) \<longleftrightarrow> j < ?m"
      by presburger
  qed
  then show ?thesis
    using KeyProvider_history [OF assms(1), of B keccak renew now fresh evs] by (simp only: rev_map take_map)
qed

theorem key_lose_time_witness:
  "\<exists>kp. bind_result (KeyProvider_new plain_ecdsa bytes_of_string 1 600 0 1)
      (renewals plain_ecdsa bytes_of_string [(600000000000, 2), (1200000000000, 3)]) = Inr kp \<and>
     history kp = filter (\<lambda>ki. 1200000000000 < lose_time ki)
       (rev (map (issued plain_ecdsa bytes_of_string 600 1200) [(0, 1), (600000000000, 2), (1200000000000, 3)]))"
proof -
  have "[0..<Suc 2] = [0, 1, 2]" by (simp add: upt_rec)
  then have "(0 :: int, 1 :: nat) # [(600000000000, 2), (1200000000000, 3)] =
      map (\<lambda>i. (0 + int i * ticks (uint (600 :: u32)), Suc i)) [0..<Suc 2]"
    by (simp add: ticks_def)
  from key_lose_time [OF _ _ _ this, of 1 plain_ecdsa bytes_of_string] show ?thesis
    by (simp add: ticks_def)
qed

text \<open>
  An identity sent to a peer and read there names the same public key and the same hash, with
  both times cut to whole seconds: the hash a node announces is the one its peers compute.
\<close>

theorem key_info_roundtrip:
  assumes "\<And>pk. x509_load B (x509_ber B pk) = Inr (Some pk)"
  shows "\<exists>pb ki. KeyInfo_toProtobuf B (issued B keccak e l (now, fresh)) = Inr pb \<and>
    KeyInfo_fromProtobuf B keccak KeyInfo_new pb = Inr ki \<and>
    ki_public_key ki = ki_public_key (issued B keccak e l (now, fresh)) \<and>
    Hash_eq (ki_th ki) (ki_th (issued B keccak e l (now, fresh))) \<and>
    expiration_time ki = from_time_t (to_time_t (now + ticks e)) \<and>
    lose_time ki = from_time_t (to_time_t (now + ticks l))"
  by (simp add: KeyInfo_toProtobuf_def KeyInfo_fromProtobuf_def issued_def KeyInfo_new_def key_defs ms_defs
      Hash_defs assms)

theorem key_info_roundtrip_witness:
  "\<exists>pb ki. KeyInfo_toProtobuf plain_ecdsa (issued plain_ecdsa bytes_of_string 600 6600 (0, 3)) = Inr pb \<and>
    KeyInfo_fromProtobuf plain_ecdsa bytes_of_string KeyInfo_new pb = Inr ki \<and>
    ki_public_key ki = \<lparr>key_public = Some 3\<rparr> \<and> expiration_time ki = 600000000000"
proof -
  have "x509_load plain_ecdsa (x509_ber plain_ecdsa pk) = Inr (Some pk)" for pk
    by (simp add: plain_ecdsa_def)
  from key_info_roundtrip [OF this, of bytes_of_string 600 6600 0 3] show ?thesis
    by (auto simp: issued_def plain_ecdsa_def ticks_def to_time_t_def from_time_t_def)
qed

end
