(* ===== verification/Overlay.thy ===== *)
theory Overlay
  imports Key_Provider
begin

section \<open>The overlay network (src/daemon/overlay/Connection.cpp, Socket.cpp, Processor.h)\<close>

text \<open>
  An overlay connection belongs to one peer, known by its transport hash (TH), and sends through the
  transport connections it has heard the peer on.  The overlay socket finds the connection for a
  message and the processors for its payloads.  Transport connections, callbacks and processors are
  values of type variables; what an operation does to the outside is a list of events.
\<close>

subsection \<open>Messages (OverlayProtocol.proto) and payload kinds (PayloadParams.h)\<close>

record overlay_header =
  src_th :: string
  dest_th :: "string option"

record overlay_payload =
  pl_type :: u32
  pl_content :: string

record overlay_body =
  open_multipayload :: "overlay_payload list"
  encrypted_multipayload :: string

record overlay_message =
  om_header :: overlay_header
  om_body :: overlay_body

datatype handshake_stage = INIT | REPLY | PUBKEY_ROTATION | CONNECTION_REQUEST

record SignedHandshake =
  key_info :: KeyInfo_pb
  ecdh_key :: "string option"

record Handshake =
  stage :: handshake_stage
  signed_handshake :: SignedHandshake
  new_key_signature :: string
  old_key_signature :: "string option"

datatype PayloadType = UNKNOWN | HANDSHAKE | ONION | DHT

fun PayloadType_value :: "PayloadType \<Rightarrow> u32" where
  "PayloadType_value UNKNOWN = 255"
| "PayloadType_value HANDSHAKE = 1"
| "PayloadType_value ONION = 2"
| "PayloadType_value DHT = 3"

subsection \<open>Connections\<close>

datatype ConnState =
    CLOSED | SEARCHING_TRANSPORT | FOUND_TRANSPORT | HANDSHAKE_INIT_SENT | HANDSHAKE_REPLY_SENT
  | ESTABLISHED | LOST

record ('sk, 'pk, 'dh, 'tc, 'cb) OConnection =
  conn_state :: ConnState
  node_info :: "('sk, 'pk) KeyInfo"
  session_ecdh_key :: "'dh ECDH"
  session_aes_key :: AES
  transport_connections :: "'tc list"
  connect_callbacks :: "('cb \<times> time_point) list"
  callback_timer :: "(time_point \<times> 'cb) option"

datatype ('tc, 'cb, 'pr) overlay_event =
    TransportSend 'tc overlay_message
  | SendCallback P2PError
  | PostedSendCallback P2PError
  | ConnectCallback 'cb P2PError
  | Processed 'pr overlay_payload

definition OConnection_new :: "chash \<Rightarrow> ('sk, 'pk, 'dh, 'tc, 'cb) OConnection" where
  "OConnection_new th = \<lparr>conn_state = CLOSED, node_info = KeyInfo_new\<lparr>ki_th := Hash_assign Hash_default th\<rparr>,
     session_ecdh_key = ECDH_new, session_aes_key = AES_new, transport_connections = [],
     connect_callbacks = [], callback_timer = None\<rparr>"

text \<open>\<^verbatim>\<open>onConnect\<close> and \<^verbatim>\<open>onDisconnect\<close> are empty.\<close>

definition setState :: "ConnState \<Rightarrow> ('sk, 'pk, 'dh, 'tc, 'cb) OConnection \<Rightarrow> ('sk, 'pk, 'dh, 'tc, 'cb) OConnection" where
  "setState st c = c\<lparr>conn_state := st\<rparr>"

definition connected :: "('sk, 'pk, 'dh, 'tc, 'cb) OConnection \<Rightarrow> bool" where
  "connected c \<longleftrightarrow> conn_state c = ESTABLISHED"

definition genMessageSkel_th :: "chash \<Rightarrow> chash \<Rightarrow> overlay_message" where
  "genMessageSkel_th from to =
     \<lparr>om_header = \<lparr>src_th = Hash_toBinaryString from, dest_th = Some (Hash_toBinaryString to)\<rparr>,
      om_body = \<lparr>open_multipayload = [], encrypted_multipayload = []\<rparr>\<rparr>"

text \<open>The own identity is read through the key provider: no key there is an empty optional.\<close>

definition localKeyInfo :: "('sk, 'pk) KeyProvider \<Rightarrow> ('sk, 'pk) KeyInfo result" where
  "localKeyInfo kp = bind_result (getKeyInfo kp 0) deref"

text \<open>The peer's identity is returned by value, so it is copied.\<close>

definition remoteKeyInfo :: "('sk, 'pk, 'dh, 'tc, 'cb) OConnection \<Rightarrow> ('sk, 'pk) KeyInfo result" where
  "remoteKeyInfo c = KeyInfo_copy (node_info c)"

definition genMessageSkel ::
  "('sk, 'pk) KeyProvider \<Rightarrow> ('sk, 'pk, 'dh, 'tc, 'cb) OConnection \<Rightarrow> overlay_message result" where
  "genMessageSkel kp c =
     bind_result (localKeyInfo kp) (\<lambda>local.
     bind_result (remoteKeyInfo c) (\<lambda>remote.
       Inr (genMessageSkel_th (ki_th local) (ki_th remote))))"

text \<open>
  \<^verbatim>\<open>Socket::send\<close>: the message goes to every transport connection that is alive; if there is none
  the connection starts to search and the callback reports it at once.
\<close>

definition Socket_send ::
  "('tc \<Rightarrow> bool) \<Rightarrow> overlay_message \<Rightarrow> ('sk, 'pk, 'dh, 'tc, 'cb) OConnection \<Rightarrow>
   ('sk, 'pk, 'dh, 'tc, 'cb) OConnection \<times> ('tc, 'cb, 'pr) overlay_event list" where
  "Socket_send alive message c =
     (let live = filter alive (transport_connections c)
      in if live \<noteq> [] then (c, map (\<lambda>tc. TransportSend tc message) live)
         else (setState SEARCHING_TRANSPORT c, [SendCallback no_transport]))"

definition OConnection_send_message ::
  "('tc \<Rightarrow> bool) \<Rightarrow> overlay_message \<Rightarrow> ('sk, 'pk, 'dh, 'tc, 'cb) OConnection \<Rightarrow>
   ('sk, 'pk, 'dh, 'tc, 'cb) OConnection \<times> ('tc, 'cb, 'pr) overlay_event list" where
  "OConnection_send_message alive message c = Socket_send alive message c"

definition OConnection_send ::
  "('tc \<Rightarrow> bool) \<Rightarrow> (string \<Rightarrow> bytes \<Rightarrow> bytes \<Rightarrow> cipher_dir \<Rightarrow> string \<Rightarrow> string result) \<Rightarrow>
   (overlay_payload list \<Rightarrow> string) \<Rightarrow> ('sk, 'pk) KeyProvider \<Rightarrow> overlay_payload \<Rightarrow> bool \<Rightarrow> bool \<Rightarrow>
   ('sk, 'pk, 'dh, 'tc, 'cb) OConnection \<Rightarrow>
   (('sk, 'pk, 'dh, 'tc, 'cb) OConnection \<times> ('tc, 'cb, 'pr) overlay_event list) result" where
  "OConnection_send alive pipe serialize kp payload encrypted force_non_connected c =
     bind_result (genMessageSkel kp c) (\<lambda>message.
       if encrypted \<and> connected c then
         bind_result (AES_encrypt pipe (session_aes_key c) (serialize [payload])) (\<lambda>e.
           Inr (OConnection_send_message alive
             (message\<lparr>om_body := (om_body message)\<lparr>encrypted_multipayload := e\<rparr>\<rparr>) c))
       else if \<not> encrypted \<and> (connected c \<or> force_non_connected) then
         Inr (OConnection_send_message alive
           (message\<lparr>om_body := (om_body message)\<lparr>open_multipayload := [payload]\<rparr>\<rparr>) c)
       else Inr (c, [PostedSendCallback not_connected]))"

definition updateTransport ::
  "'tc \<Rightarrow> bool \<Rightarrow> ('sk, 'pk, 'dh, 'tc, 'cb) OConnection \<Rightarrow> ('sk, 'pk, 'dh, 'tc, 'cb) OConnection" where
  "updateTransport tconn verified c =
     (let rest = remove1 tconn (transport_connections c);
          c1 = c\<lparr>transport_connections := (if verified then tconn # rest else rest @ [tconn])\<rparr>
      in if conn_state c1 = SEARCHING_TRANSPORT then setState FOUND_TRANSPORT c1 else c1)"

definition updateExpirationTime ::
  "time_point \<Rightarrow> ('sk, 'pk, 'dh, 'tc, 'cb) OConnection \<Rightarrow> ('sk, 'pk, 'dh, 'tc, 'cb) OConnection" where
  "updateExpirationTime expiry c =
     (if expiry > expiration_time (node_info c)
      then c\<lparr>node_info := (node_info c)\<lparr>expiration_time := expiry\<rparr>\<rparr> else c)"

definition updateLoseTime ::
  "time_point \<Rightarrow> ('sk, 'pk, 'dh, 'tc, 'cb) OConnection \<Rightarrow> ('sk, 'pk, 'dh, 'tc, 'cb) OConnection" where
  "updateLoseTime lost c = c\<lparr>node_info := (node_info c)\<lparr>lose_time := lost\<rparr>\<rparr>"

definition disconnect ::
  "('sk, 'pk, 'dh, 'tc, 'cb) OConnection \<Rightarrow> ('sk, 'pk, 'dh, 'tc, 'cb) OConnection" where
  "disconnect c = setState CLOSED c"

definition OConnection_delete ::
  "('sk, 'pk, 'dh, 'tc, 'cb) OConnection \<Rightarrow> ('sk, 'pk, 'dh, 'tc, 'cb) OConnection" where
  "OConnection_delete c = disconnect c"

text \<open>
  \<^verbatim>\<open>connect\<close>.  Setting the expiry of the timer cancels the wait that was pending, whose handler
  then sees an error and does nothing; so the timer holds one callback.  The handshake is composed
  only when a transport has been found: its key part is the own identity, its session key fresh.
\<close>

definition opening_handshake :: "KeyInfo_pb \<Rightarrow> string \<Rightarrow> string \<Rightarrow> Handshake" where
  "opening_handshake info dh sig =
     \<lparr>stage = INIT, signed_handshake = \<lparr>key_info = info, ecdh_key = Some dh\<rparr>, new_key_signature = sig,
      old_key_signature = None\<rparr>"

definition handshake_payload ::
  "('sk, 'pk) botan_ecdsa \<Rightarrow> 'dh botan_ecdh \<Rightarrow> string \<Rightarrow> nat \<Rightarrow> (SignedHandshake \<Rightarrow> string) \<Rightarrow> (Handshake \<Rightarrow> string) \<Rightarrow>
   ('sk, 'pk) KeyProvider \<Rightarrow> 'dh ECDH \<Rightarrow> overlay_payload result" where
  "handshake_payload B D keccak_name rng ser_signed ser_handshake kp ecdh =
     bind_result (localKeyInfo kp) (\<lambda>local.
     bind_result (KeyInfo_toProtobuf B local) (\<lambda>info.
     bind_result (ECDH_derivePublicKey D ecdh) (\<lambda>dh.
     bind_result (PrivateKeyDSA_sign B keccak_name rng (ki_private_key local)
         (ser_signed \<lparr>key_info = info, ecdh_key = Some dh\<rparr>)) (\<lambda>sig.
       Inr \<lparr>pl_type = PayloadType_value HANDSHAKE, pl_content = ser_handshake (opening_handshake info dh sig)\<rparr>))))"

definition OConnection_connect ::
  "('tc \<Rightarrow> bool) \<Rightarrow> (string \<Rightarrow> bytes \<Rightarrow> bytes \<Rightarrow> cipher_dir \<Rightarrow> string \<Rightarrow> string result) \<Rightarrow>
   (overlay_payload list \<Rightarrow> string) \<Rightarrow> ('sk, 'pk) KeyProvider \<Rightarrow>
   ('dh ECDH \<Rightarrow> overlay_payload result) \<Rightarrow> 'dh \<Rightarrow> time_point \<Rightarrow> u32 \<Rightarrow> 'cb \<Rightarrow>
   ('sk, 'pk, 'dh, 'tc, 'cb) OConnection \<Rightarrow>
   (('sk, 'pk, 'dh, 'tc, 'cb) OConnection \<times> ('tc, 'cb, 'pr) overlay_event list) result" where
  "OConnection_connect alive pipe serialize kp handshake fresh now timeout callback c =
     (if conn_state c = ESTABLISHED then Inr (c, [ConnectCallback callback success])
      else
        let timeout_time = now + ticks (uint timeout);
            c1 = c\<lparr>connect_callbacks := connect_callbacks c @ [(callback, timeout_time)],
                   callback_timer := Some (timeout_time, callback)\<rparr>
        in if conn_state c1 = FOUND_TRANSPORT then
             let c2 = c1\<lparr>session_ecdh_key := ECDH_generateKey fresh (session_ecdh_key c1)\<rparr>
             in bind_result (handshake (session_ecdh_key c2)) (\<lambda>payload.
                bind_result (OConnection_send alive pipe serialize kp payload False True c2) (\<lambda>(c3, evs).
                  Inr (setState HANDSHAKE_INIT_SENT c3, evs)))
           else Inr (c1, []))"

definition connectTimeout ::
  "('sk, 'pk, 'dh, 'tc, 'cb) OConnection \<Rightarrow>
   ('sk, 'pk, 'dh, 'tc, 'cb) OConnection \<times> ('tc, 'cb, 'pr) overlay_event list" where
  "connectTimeout c =
     (case callback_timer c of
        None \<Rightarrow> (c, [])
      | Some (_, callback) \<Rightarrow> (c\<lparr>callback_timer := None\<rparr>, [ConnectCallback callback timed_out]))"

text \<open>
  \<^verbatim>\<open>process\<close>: \<open>processors\<close> is the registry of the socket and \<open>mandatory\<close> what each processor answers
  to \<^verbatim>\<open>isEncryptionMandatory\<close>.  A handshake payload is parsed and handed to \<^verbatim>\<open>processHandshake\<close>,
  whose body is empty.
\<close>

definition fire ::
  "(u32 \<Rightarrow> 'pr list) \<Rightarrow> ('pr \<Rightarrow> bool) \<Rightarrow> overlay_payload \<times> bool \<Rightarrow> ('tc, 'cb, 'pr) overlay_event list" where
  "fire processors mandatory pp = (case pp of (payload, encrypted) \<Rightarrow>
     map (\<lambda>p. Processed p payload)
       (filter (\<lambda>p. \<not> (mandatory p \<and> \<not> encrypted)) (processors (pl_type payload))))"

definition OConnection_process ::
  "(string \<Rightarrow> bytes \<Rightarrow> bytes \<Rightarrow> cipher_dir \<Rightarrow> string \<Rightarrow> string result) \<Rightarrow> (string \<Rightarrow> overlay_payload list) \<Rightarrow>
   (u32 \<Rightarrow> 'pr list) \<Rightarrow> ('pr \<Rightarrow> bool) \<Rightarrow> 'tc \<Rightarrow> overlay_header \<Rightarrow> overlay_body \<Rightarrow>
   ('sk, 'pk, 'dh, 'tc, 'cb) OConnection \<Rightarrow>
   (('sk, 'pk, 'dh, 'tc, 'cb) OConnection \<times> ('tc, 'cb, 'pr) overlay_event list) result" where
  "OConnection_process pipe parse_multi processors mandatory origin header body c =
     (let c1 = updateTransport origin False c;
          dest = (case dest_th header of
                    Some s \<Rightarrow> Hash_setAsBinaryVector Hash_default (bytes_of_string s)
                  | None \<Rightarrow> Hash_default)
      in if Hash_bool dest then
           bind_result
             (if connected c1
              then bind_result (AES_decrypt pipe (session_aes_key c1) (encrypted_multipayload body))
                     (\<lambda>d. Inr (map (\<lambda>p. (p, True)) (parse_multi d)))
              else Inr [])
             (\<lambda>enc. Inr (c1, concat (map (fire processors mandatory)
                (map (\<lambda>p. (p, False)) (open_multipayload body) @ enc))))
         else Inr (c1, []))"

subsection \<open>The socket\<close>

text \<open>
  Connections are kept in a map ordered by TH; hashes are equal exactly when their bytes are, so
  the bytes are the keys.  A multimap keeps the processors of one type in insertion order.
\<close>

record ('sk, 'pk, 'dh, 'tc, 'cb, 'pr) OSocket =
  key_provider :: "('sk, 'pk) KeyProvider"
  maximum_connections :: u32
  connections :: "bytes \<rightharpoonup> ('sk, 'pk, 'dh, 'tc, 'cb) OConnection"
  processors :: "(PayloadType \<times> 'pr) list"

text \<open>The key provider, a member, is built before the body reads the limit.\<close>

definition OSocket_new ::
  "('sk, 'pk) botan_ecdsa \<Rightarrow> (string \<Rightarrow> bytes) \<Rightarrow> (string \<Rightarrow> u32 option) \<Rightarrow> ConfigManager \<Rightarrow> time_point \<Rightarrow> 'sk \<Rightarrow>
   ('sk, 'pk, 'dh, 'tc, 'cb, 'pr) OSocket result" where
  "OSocket_new B keccak conv config now fresh =
     bind_result (getValue conv config ''overlay.key_provider.history_size'') (\<lambda>history_size.
     bind_result (getValue conv config ''overlay.key_provider.renew_interval'') (\<lambda>renew_interval.
     bind_result (KeyProvider_new B keccak history_size renew_interval now fresh) (\<lambda>kp.
     bind_result (getValue conv config ''overlay.connection.limit'') (\<lambda>limit.
       Inr \<lparr>key_provider = kp, maximum_connections = limit, connections = Map.empty, processors = []\<rparr>))))"

definition registerProcessor ::
  "PayloadType \<Rightarrow> 'pr \<Rightarrow> ('sk, 'pk, 'dh, 'tc, 'cb, 'pr) OSocket \<Rightarrow> ('sk, 'pk, 'dh, 'tc, 'cb, 'pr) OSocket" where
  "registerProcessor payload_type processor s =
     s\<lparr>processors := processors s @ [(payload_type, processor)]\<rparr>"

definition getProcessors :: "('sk, 'pk, 'dh, 'tc, 'cb, 'pr) OSocket \<Rightarrow> u32 \<Rightarrow> 'pr list" where
  "getProcessors s ty = map snd (filter (\<lambda>(t, _). PayloadType_value t = ty) (processors s))"

definition processSelf ::
  "(string \<Rightarrow> bytes \<Rightarrow> bytes \<Rightarrow> cipher_dir \<Rightarrow> string \<Rightarrow> string result) \<Rightarrow> (string \<Rightarrow> overlay_payload list) \<Rightarrow>
   ('pr \<Rightarrow> bool) \<Rightarrow> 'tc \<Rightarrow> overlay_header \<Rightarrow> overlay_body \<Rightarrow>
   ('sk, 'pk, 'dh, 'tc, 'cb, 'pr) OSocket \<Rightarrow>
   (('sk, 'pk, 'dh, 'tc, 'cb, 'pr) OSocket \<times> ('tc, 'cb, 'pr) overlay_event list) result" where
  "processSelf pipe parse_multi mandatory origin header body s =
     (let key = bytes_of_string (src_th header)
      in case connections s key of
           None \<Rightarrow> Inl UndefinedBehaviour
         | Some c \<Rightarrow>
             bind_result (OConnection_process pipe parse_multi (getProcessors s) mandatory origin header body c)
               (\<lambda>(c', evs). Inr (s\<lparr>connections := (connections s)(key \<mapsto> c')\<rparr>, evs)))"

definition processRelay ::
  "('sk, 'pk, 'dh, 'tc, 'cb, 'pr) OSocket \<Rightarrow>
   (('sk, 'pk, 'dh, 'tc, 'cb, 'pr) OSocket \<times> ('tc, 'cb, 'pr) overlay_event list) result" where
  "processRelay s = Inr (s, [])"

text \<open>Both branches on the policy setting are empty; reading it may fail.\<close>

definition processRequest ::
  "bool result \<Rightarrow> ('sk, 'pk, 'dh, 'tc, 'cb, 'pr) OSocket \<Rightarrow>
   (('sk, 'pk, 'dh, 'tc, 'cb, 'pr) OSocket \<times> ('tc, 'cb, 'pr) overlay_event list) result" where
  "processRequest outgoing_only s = bind_result outgoing_only (\<lambda>_. Inr (s, []))"

text \<open>The destination is read from the source field of the header (line 38).\<close>

definition OSocket_process ::
  "(string \<Rightarrow> bytes \<Rightarrow> bytes \<Rightarrow> cipher_dir \<Rightarrow> string \<Rightarrow> string result) \<Rightarrow> (string \<Rightarrow> overlay_payload list) \<Rightarrow>
   (string \<Rightarrow> overlay_message option) \<Rightarrow> bool result \<Rightarrow> ('pr \<Rightarrow> bool) \<Rightarrow> 'tc \<Rightarrow> string \<Rightarrow>
   ('sk, 'pk, 'dh, 'tc, 'cb, 'pr) OSocket \<Rightarrow>
   (('sk, 'pk, 'dh, 'tc, 'cb, 'pr) OSocket \<times> ('tc, 'cb, 'pr) overlay_event list) result" where
  "OSocket_process pipe parse_multi parse outgoing_only mandatory origin data s =
     (case parse data of
        None \<Rightarrow> Inr (s, [])
      | Some message \<Rightarrow>
          let header = om_header message; body = om_body message;
              dest = (if dest_th header \<noteq> None
                      then Hash_setAsBinaryVector Hash_default (bytes_of_string (src_th header))
                      else Hash_default)
          in bind_result (localKeyInfo (key_provider s)) (\<lambda>local.
               if Hash_eq dest (ki_th local) then processSelf pipe parse_multi mandatory origin header body s
               else if Hash_bool dest then processRelay s
               else processRequest outgoing_only s))"

text \<open>
  \<^verbatim>\<open>connect\<close> looks the connection up or makes one; a new one is not put into the map.  The second
  component is the connection used.
\<close>

definition OSocket_connect ::
  "(('sk, 'pk, 'dh, 'tc, 'cb) OConnection \<Rightarrow>
     (('sk, 'pk, 'dh, 'tc, 'cb) OConnection \<times> ('tc, 'cb, 'pr) overlay_event list) result) \<Rightarrow> chash \<Rightarrow>
   ('sk, 'pk, 'dh, 'tc, 'cb, 'pr) OSocket \<Rightarrow>
   (('sk, 'pk, 'dh, 'tc, 'cb, 'pr) OSocket \<times> ('sk, 'pk, 'dh, 'tc, 'cb) OConnection \<times>
    ('tc, 'cb, 'pr) overlay_event list) result" where
  "OSocket_connect conn_connect dest s =
     (case connections s (hash dest) of
        Some c \<Rightarrow> bind_result (conn_connect c)
          (\<lambda>(c', evs). Inr (s\<lparr>connections := (connections s)(hash dest \<mapsto> c')\<rparr>, c', evs))
      | None \<Rightarrow> bind_result (conn_connect (OConnection_new dest)) (\<lambda>(c', evs). Inr (s, c', evs)))"

subsection \<open>What can happen to a connection\<close>

text \<open>
  The connections that can arise from a new one by the operations of the class, with whatever
  arguments and surroundings, as long as none of them fails.
\<close>

inductive conn_reach ::
  "chash \<Rightarrow> ('sk, 'pk, 'dh, 'tc, 'cb) OConnection \<Rightarrow> ('tc, 'cb, 'pr) overlay_event list \<Rightarrow> bool" for th where
  reach_new: "conn_reach th (OConnection_new th) []"
| reach_connect: "conn_reach th c tr \<Longrightarrow>
    OConnection_connect alive pipe serialize kp handshake fresh now timeout callback c = Inr (c', evs) \<Longrightarrow>
    conn_reach th c' (tr @ evs)"
| reach_timeout: "conn_reach th c tr \<Longrightarrow> connectTimeout c = (c', evs) \<Longrightarrow> conn_reach th c' (tr @ evs)"
| reach_disconnect: "conn_reach th c tr \<Longrightarrow> conn_reach th (disconnect c) tr"
| reach_send: "conn_reach th c tr \<Longrightarrow>
    OConnection_send alive pipe serialize kp payload encrypted force c = Inr (c', evs) \<Longrightarrow>
    conn_reach th c' (tr @ evs)"
| reach_send_message: "conn_reach th c tr \<Longrightarrow>
    OConnection_send_message alive message c = (c', evs) \<Longrightarrow> conn_reach th c' (tr @ evs)"
| reach_process: "conn_reach th c tr \<Longrightarrow>
    OConnection_process pipe parse_multi procs mandatory origin header body c = Inr (c', evs) \<Longrightarrow>
    conn_reach th c' (tr @ evs)"
| reach_transport: "conn_reach th c tr \<Longrightarrow> conn_reach th (updateTransport tconn verified c) tr"
| reach_expiration: "conn_reach th c tr \<Longrightarrow> conn_reach th (updateExpirationTime t c) tr"
| reach_lose: "conn_reach th c tr \<Longrightarrow> conn_reach th (updateLoseTime t c) tr"

definition conn_inv :: "chash \<Rightarrow> ('sk, 'pk, 'dh, 'tc, 'cb) OConnection \<Rightarrow> bool" where
  "conn_inv th c \<longleftrightarrow> conn_state c \<in> {CLOSED, SEARCHING_TRANSPORT, FOUND_TRANSPORT} \<and>
     key_private (ki_private_key (node_info c)) = None \<and> hash (ki_th (node_info c)) = hash th \<and>
     distinct (transport_connections c)"

lemma no_private_key_send:
  assumes "key_private (ki_private_key (node_info c)) = None"
  shows "OConnection_send alive pipe serialize kp payload encrypted force c \<noteq> Inr r"
proof -
  have "\<exists>e. genMessageSkel kp c = Inl e"
    using assms by (cases "localKeyInfo kp")
      (simp_all add: genMessageSkel_def remoteKeyInfo_def KeyInfo_copy_def PrivateKeyDSA_copy_def)
  then show ?thesis by (auto simp: OConnection_send_def)
qed

lemma updateTransport_inv: "conn_inv th c \<Longrightarrow> conn_inv th (updateTransport tconn verified c)"
  by (auto simp: conn_inv_def updateTransport_def setState_def Let_def)

lemma OConnection_process_conn:
  "OConnection_process pipe parse_multi procs mandatory origin header body c = Inr (c', evs) \<Longrightarrow>
     c' = updateTransport origin False c"
  by (auto simp: OConnection_process_def Let_def result_simps split: if_splits)

lemma Socket_send_inv: "conn_inv th c \<Longrightarrow> Socket_send alive message c = (c', evs) \<Longrightarrow> conn_inv th c'"
  by (auto simp: Socket_send_def conn_inv_def setState_def Let_def split: if_splits)

lemma connect_inv:
  assumes "conn_inv th c"
    and "OConnection_connect alive pipe serialize kp handshake fresh now timeout callback c = Inr (c', evs)"
  shows "conn_inv th c'"
proof (cases "conn_state c = FOUND_TRANSPORT")
  case True
  let ?c2 = "c\<lparr>connect_callbacks := connect_callbacks c @ [(callback, now + ticks (uint timeout))],
      callback_timer := Some (now + ticks (uint timeout), callback),
      session_ecdh_key := ECDH_generateKey fresh (session_ecdh_key c)\<rparr>"
  have "OConnection_send alive pipe serialize kp payload False True ?c2 \<noteq> Inr (c3, evs)" for payload c3
    using assms(1) by (intro no_private_key_send) (simp add: conn_inv_def)
  with True assms(2) have False
    by (auto simp: OConnection_connect_def Let_def result_simps)
  then show ?thesis ..
next
  case False
  with assms show ?thesis by (auto simp: OConnection_connect_def Let_def conn_inv_def)
qed

definition no_success :: "('tc, 'cb, 'pr) overlay_event list \<Rightarrow> bool" where
  "no_success evs \<longleftrightarrow> (\<forall>cb. ConnectCallback cb success \<notin> set evs)"

lemma no_success_append [simp]: "no_success (xs @ ys) \<longleftrightarrow> no_success xs \<and> no_success ys"
  by (auto simp: no_success_def)

lemma connect_no_success:
  assumes "conn_inv th c"
    and "OConnection_connect alive pipe serialize kp handshake fresh now timeout callback c = Inr (c', evs)"
  shows "no_success evs"
  using assms connect_inv [OF assms]
  by (auto simp: OConnection_connect_def Let_def conn_inv_def no_success_def setState_def result_simps
      split: if_splits)

lemma conn_reach_inv: "conn_reach th c tr \<Longrightarrow> conn_inv th c \<and> no_success tr"
proof (induction rule: conn_reach.induct)
  case reach_new
  show ?case
    by (simp add: conn_inv_def OConnection_new_def KeyInfo_new_def PrivateKeyDSA_new_def Hash_assign_def
        no_success_def)
next
  case (reach_connect c tr alive pipe serialize kp handshake fresh now timeout callback c' evs)
  then show ?case using connect_inv connect_no_success by (metis no_success_append)
next
  case (reach_timeout c tr c' evs)
  then show ?case by (auto simp: connectTimeout_def conn_inv_def no_success_def split: option.splits prod.splits)
next
  case (reach_disconnect c tr)
  then show ?case by (simp add: disconnect_def setState_def conn_inv_def)
next
  case (reach_send c tr alive pipe serialize kp payload encrypted force c' evs)
  then show ?case
    using no_private_key_send [of c alive pipe serialize kp payload encrypted force "(c', evs)"]
    by (simp add: conn_inv_def)
next
  case (reach_send_message c tr alive message c' evs)
  then have "Socket_send alive message c = (c', evs)" by (simp add: OConnection_send_message_def)
  moreover have "no_success evs"
    using calculation by (auto simp: Socket_send_def no_success_def Let_def split: if_splits)
  ultimately show ?case using reach_send_message.IH by (auto intro: Socket_send_inv)
next
  case (reach_process c tr pipe parse_multi procs mandatory origin header body c' evs)
  then have "no_success evs"
    by (auto simp: OConnection_process_def no_success_def fire_def Let_def result_simps split: if_splits)
  with reach_process OConnection_process_conn updateTransport_inv show ?case
    by (metis no_success_append)
next
  case (reach_transport c tr tconn verified)
  then show ?case by (simp add: updateTransport_inv)
next
  case (reach_expiration c tr t)
  then show ?case by (simp add: updateExpirationTime_def conn_inv_def)
next
  case (reach_lose c tr t)
  then show ?case by (simp add: updateLoseTime_def conn_inv_def)
qed

subsection \<open>Properties\<close>

text \<open>
  (C36) No overlay connection is ever established: whatever is done with it, a connection stays in
  one of its three first states, its list of transports has no duplicates, no connect callback
  reports success, and sending a payload fails, because composing the header copies the peer's
  identity, which has no private key.
\<close>

theorem overlay_never_established:
  assumes "conn_reach th c tr"
  shows "conn_state c \<in> {CLOSED, SEARCHING_TRANSPORT, FOUND_TRANSPORT} \<and> \<not> connected c \<and>
    hash (ki_th (node_info c)) = hash th \<and> distinct (transport_connections c) \<and>
    (\<forall>cb. ConnectCallback cb success \<notin> set tr) \<and>
    OConnection_send alive pipe serialize kp payload encrypted force c \<noteq> Inr (c', evs)"
  using conn_reach_inv [OF assms]
    no_private_key_send [of c alive pipe serialize kp payload encrypted force "(c', evs)"]
  by (auto simp: conn_inv_def connected_def no_success_def)

theorem overlay_never_established_witness:
  "\<not> connected (updateTransport 1 True (disconnect
     (OConnection_new (Hash_setAsBinaryVector Hash_default [7])) :: (nat, nat, nat, nat, nat) OConnection))"
proof -
  have "conn_reach (Hash_setAsBinaryVector Hash_default [7]) (updateTransport 1 True (disconnect
     (OConnection_new (Hash_setAsBinaryVector Hash_default [7])) :: (nat, nat, nat, nat, nat) OConnection))
     ([] :: (nat, nat, nat) overlay_event list)"
    by (intro reach_transport reach_disconnect reach_new)
  from overlay_never_established [OF this] show ?thesis by blast
qed


definition established_example :: "(nat, nat, nat, nat, nat) OConnection" where
  "established_example = setState ESTABLISHED (OConnection_new Hash_default)"


text \<open>
  A message that a peer addresses to this node is not delivered: the socket compares the
  sender's hash, not the addressee's, with its own, takes the message for one to be relayed and drops
  it.  A message that claims to come from this node itself is processed, and without a connection
  under that hash the socket dereferences the end of its map.
\<close>

theorem overlay_misrouted:
  assumes "parse data = Some \<lparr>om_header = \<lparr>src_th = src, dest_th = Some dest\<rparr>, om_body = body\<rparr>"
    and "localKeyInfo (key_provider s) = Inr local" and "src \<noteq> []"
  shows "OSocket_process pipe parse_multi parse outgoing_only mandatory origin data s =
    (if bytes_of_string src \<noteq> hash (ki_th local) then Inr (s, [])
     else case connections s (bytes_of_string src) of
       None \<Rightarrow> Inl UndefinedBehaviour
     | Some c \<Rightarrow> bind_result (OConnection_process pipe parse_multi (getProcessors s) mandatory origin
           \<lparr>src_th = src, dest_th = Some dest\<rparr> body c)
         (\<lambda>(c', evs). Inr (s\<lparr>connections := (connections s)(bytes_of_string src \<mapsto> c')\<rparr>, evs)))"
  using assms by (cases src) (auto simp: OSocket_process_def processSelf_def processRelay_def Let_def Hash_eq_def
      Hash_bool_def Hash_setAsBinaryVector_def bytes_of_string_def split: option.split)

definition example_provider :: "(nat, nat) KeyProvider" where
  "example_provider = \<lparr>history = [issued plain_ecdsa bytes_of_string 600 6600 (0, 3)], max_history_size = 11,
     expiration_interval = 600, lose_interval = 6600, timer_expiry = None, rotations_posted = 0\<rparr>"

definition example_socket :: "(nat, nat, nat, nat, nat, nat) OSocket" where
  "example_socket = \<lparr>key_provider = example_provider, maximum_connections = 1000, connections = Map.empty,
     processors = []\<rparr>"

lemma localKeyInfo_example:
  "localKeyInfo example_provider = Inr (issued plain_ecdsa bytes_of_string 600 6600 (0, 3))"
  by (simp add: localKeyInfo_def getKeyInfo_def example_provider_def)

definition example_parse :: "string \<Rightarrow> overlay_message option" where
  "example_parse d = Some \<lparr>om_header = \<lparr>src_th = ''peer'', dest_th = Some d\<rparr>,
     om_body = \<lparr>open_multipayload = [], encrypted_multipayload = []\<rparr>\<rparr>"

theorem overlay_misrouted_witness:
  "OSocket_process (\<lambda>_ _ _ _. Inr) (\<lambda>_. []) example_parse (Inr False) (\<lambda>_. True) 1 [CHR 0x03] example_socket =
     Inr (example_socket, [])"
proof -
  let ?ki = "issued plain_ecdsa bytes_of_string 600 6600 (0, 3)"
  have "be_bytes 3 = [3]" by code_simp
  then have "length (hash (ki_th ?ki)) = 1"
    by (simp add: issued_def plain_ecdsa_def)
  then have ne: "bytes_of_string ''peer'' \<noteq> hash (ki_th ?ki)"
    by (auto dest: arg_cong [of _ _ length])
  have "localKeyInfo (key_provider example_socket) = Inr ?ki"
    by (simp add: example_socket_def localKeyInfo_example)
  note misrouted = overlay_misrouted [OF example_parse_def this]
  show ?thesis
    by (subst misrouted) (simp_all add: ne)
qed

text \<open>Several calls of \<^verbatim>\<open>connect\<close>, each with its time and callback.\<close>

fun connect_calls ::
  "('cb \<Rightarrow> time_point \<Rightarrow> ('sk, 'pk, 'dh, 'tc, 'cb) OConnection \<Rightarrow>
     (('sk, 'pk, 'dh, 'tc, 'cb) OConnection \<times> ('tc, 'cb, 'pr) overlay_event list) result) \<Rightarrow>
   (time_point \<times> 'cb) list \<Rightarrow> ('sk, 'pk, 'dh, 'tc, 'cb) OConnection \<Rightarrow>
   (('sk, 'pk, 'dh, 'tc, 'cb) OConnection \<times> ('tc, 'cb, 'pr) overlay_event list) result" where
  "connect_calls conn [] c = Inr (c, [])"
| "connect_calls conn ((now, callback) # calls) c =
     bind_result (conn callback now c) (\<lambda>(c1, evs1).
     bind_result (connect_calls conn calls c1) (\<lambda>(c2, evs2). Inr (c2, evs1 @ evs2)))"

lemma connect_waiting:
  "conn_state c \<noteq> ESTABLISHED \<Longrightarrow> conn_state c \<noteq> FOUND_TRANSPORT \<Longrightarrow>
     OConnection_connect alive pipe serialize kp handshake fresh now timeout cb c =
     Inr (c\<lparr>connect_callbacks := connect_callbacks c @ [(cb, now + ticks (uint timeout))],
            callback_timer := Some (now + ticks (uint timeout), cb)\<rparr>, [])"
  by (simp add: OConnection_connect_def Let_def)

lemma connect_calls_waiting:
  assumes "conn_state c \<notin> {ESTABLISHED, FOUND_TRANSPORT}"
  shows "\<exists>c'. connect_calls (\<lambda>callback now. OConnection_connect alive pipe serialize kp handshake fresh now timeout callback)
      calls c = Inr (c', []) \<and> conn_state c' = conn_state c \<and>
    connect_callbacks c' = connect_callbacks c @ map (\<lambda>(now, cb). (cb, now + ticks (uint timeout))) calls \<and>
    callback_timer c' = (if calls = [] then callback_timer c
      else Some (fst (last calls) + ticks (uint timeout), snd (last calls)))"
  using assms
proof (induction calls arbitrary: c)
  case (Cons call calls)
  obtain now cb where call: "call = (now, cb)" by (cases call)
  let ?c1 = "c\<lparr>connect_callbacks := connect_callbacks c @ [(cb, now + ticks (uint timeout))],
                callback_timer := Some (now + ticks (uint timeout), cb)\<rparr>"
  show ?case
    using Cons.IH [of ?c1] Cons.prems by (auto simp: call connect_waiting)
qed simp

text \<open>
  Of several calls of \<^verbatim>\<open>connect\<close> on a connection without a transport only the last is ever
  answered: the timer is set anew each time, which cancels the earlier waits.  When it expires, one
  callback reports the timeout; the other callbacks stay in the list and are never called.
\<close>

theorem connect_superseded:
  assumes "conn_state c \<notin> {ESTABLISHED, FOUND_TRANSPORT}" and "calls \<noteq> []"
  shows "\<exists>c'. connect_calls (\<lambda>callback now. OConnection_connect alive pipe serialize kp handshake fresh now timeout callback)
      calls c = Inr (c', []) \<and>
    (\<exists>c''. connectTimeout c' = (c'', [ConnectCallback (snd (last calls)) timed_out]) \<and>
       connectTimeout c'' = (c'', []) \<and> length (connect_callbacks c'') = length (connect_callbacks c) + length calls)"
  using connect_calls_waiting [OF assms(1), of alive pipe serialize kp handshake fresh timeout calls] assms(2)
  by (auto simp: connectTimeout_def)

definition example_connect ::
  "nat \<Rightarrow> time_point \<Rightarrow> (nat, nat, nat, nat, nat) OConnection \<Rightarrow>
   ((nat, nat, nat, nat, nat) OConnection \<times> (nat, nat, nat) overlay_event list) result" where
  "example_connect = (\<lambda>callback now. OConnection_connect (\<lambda>_. False) (\<lambda>_ _ _ _. Inr) (\<lambda>_. []) example_provider
     (\<lambda>_. Inl BadFunctionCall) 0 now 120 callback)"

theorem connect_superseded_witness:
  "\<exists>c'. connect_calls example_connect [(0, 10), (5, 11)] (OConnection_new Hash_default) = Inr (c', []) \<and>
    snd (connectTimeout c') = [ConnectCallback 11 timed_out :: (nat, nat, nat) overlay_event]"
proof -
  let ?calls = "[(0, 10), (5, 11)] :: (time_point \<times> nat) list"
  let ?c = "OConnection_new Hash_default :: (nat, nat, nat, nat, nat) OConnection"
  have "\<exists>c'. connect_calls example_connect ?calls ?c = Inr (c', []) \<and>
    (\<exists>c''. connectTimeout c' = (c'', [ConnectCallback (snd (last ?calls)) timed_out :: (nat, nat, nat) overlay_event]) \<and>
       connectTimeout c'' = (c'', [] :: (nat, nat, nat) overlay_event list) \<and>
       length (connect_callbacks c'') = length (connect_callbacks ?c) + length ?calls)"
    unfolding example_connect_def by (rule connect_superseded) (simp_all add: OConnection_new_def)
  then show ?thesis by fastforce
qed

text \<open>
  (C18) The handshake a connection opens with is authentic.  Whatever renewals the key provider has
  gone through, the payload is made, and whoever parses it finds in it an identity whose name is the
  hash the sender goes by in its messages and whose key accepts the signature over the signed part,
  and the public value of the session key.
\<close>

theorem handshake_authentic:
  fixes B :: "('sk, 'pk) botan_ecdsa"
  assumes "\<And>k pad rng m. verify_message B (ecdsa_public_part B k) pad m (sign_message B k pad rng m)"
    and "\<And>k. x509_load B (x509_ber B k) = Inr (Some k)" 
    and "\<And>info dh sig. parse_handshake (ser_handshake (opening_handshake info dh sig)) = opening_handshake info dh sig"
    and "history_size \<noteq> - 1"
    and "bind_result (KeyProvider_new B keccak history_size renew now fresh) (renewals B keccak evs) = Inr kp"
  shows "\<exists>local payload ki. localKeyInfo kp = Inr local \<and>
    handshake_payload B D name rng ser_signed ser_handshake kp (ECDH_generateKey dh ecdh) = Inr payload \<and>
    pl_type payload = PayloadType_value HANDSHAKE \<and>
    (let h = parse_handshake (pl_content payload); signed = signed_handshake h in
     stage h = INIT \<and> ecdh_key signed = Some (string_of_bytes (ecdh_public_value D dh)) \<and>
     KeyInfo_fromProtobuf B keccak KeyInfo_new (key_info signed) = Inr ki \<and> Hash_eq (ki_th ki) (ki_th local) \<and>
     PublicKeyDSA_verify B name (ki_public_key ki) (ser_signed signed) (new_key_signature h) = Inr True)"
proof -
  let ?i = "issued B keccak (uint renew) (uint (renew * (history_size + 1)))"
  have "history kp = map ?i (take (Suc (unat history_size)) (rev ((now, fresh) # evs)))"
    using KeyProvider_history [OF assms(4), of B keccak renew now fresh evs] assms(5) by simp
  moreover obtain ev rest where "rev ((now, fresh) # evs) = ev # rest" by (cases "rev ((now, fresh) # evs)") simp_all
  ultimately have local: "localKeyInfo kp = Inr (?i ev)"
    by (simp add: localKeyInfo_def getKeyInfo_def del: rev.simps)
  obtain t k where ev: "ev = (t, k)" by fastforce
  show ?thesis
    unfolding handshake_payload_def local opening_handshake_def
    using assms(1,2) assms(3) [unfolded opening_handshake_def]
    by (simp add: ev issued_def KeyInfo_toProtobuf_def KeyInfo_fromProtobuf_def KeyInfo_new_def key_defs Hash_of_pubkey_def
        Hash_compute_def Hash_getAlgoName_def Hash_default_def Hash_move_assign_def Hash_setAsBinaryVector_def Hash_eq_def
        ms_toBinaryString_def ms_setAsBinaryString_def ECDH_generateKey_def ECDH_derivePublicKey_def Let_def)
qed

text \<open>A serializer of opening handshakes and its parser, for examples: every text is preceded by its length in unary.\<close>

definition plain_text :: "string \<Rightarrow> string" where
  "plain_text s = replicate (length s) (CHR ''1'') @ CHR ''0'' # s"

definition plain_split :: "string \<Rightarrow> string \<times> string" where
  "plain_split s = (let n = length (takeWhile (\<lambda>c. c = CHR ''1'') s) in (take n (drop (Suc n) s), drop (Suc (n + n)) s))"

definition plain_int :: "int \<Rightarrow> string" where
  "plain_int i = (if i < 0 then CHR ''-'' else CHR ''+'') # show_nat (nat \<bar>i\<bar>)"

definition int_of_plain :: "string \<Rightarrow> int" where
  "int_of_plain s = (if hd s = CHR ''-'' then - 1 else 1) * int (decimal_value (tl s))"

definition plain_ser_handshake :: "Handshake \<Rightarrow> string" where
  "plain_ser_handshake h =
     (let signed = signed_handshake h; info = key_info signed in
      concat (map plain_text [ecdsa_key info, plain_int (pb_expiration_time info), plain_int (pb_lose_time info),
        (case ecdh_key signed of Some dh \<Rightarrow> dh | None \<Rightarrow> []), new_key_signature h]))"

definition plain_parse_handshake :: "string \<Rightarrow> Handshake" where
  "plain_parse_handshake s =
     (let (key, s1) = plain_split s; (e, s2) = plain_split s1; (l, s3) = plain_split s2; (dh, s4) = plain_split s3;
          (sig, _) = plain_split s4
      in opening_handshake \<lparr>ecdsa_key = key, pb_expiration_time = int_of_plain e, pb_lose_time = int_of_plain l\<rparr> dh sig)"

lemma plain_split_text [simp]: "plain_split (plain_text s @ rest) = (s, rest)"
  by (simp add: plain_split_def plain_text_def takeWhile_tail takeWhile_append)

lemma int_of_plain_int [simp]: "int_of_plain (plain_int i) = i"
  by (simp add: int_of_plain_def plain_int_def)

lemma plain_handshake_codec:
  "plain_parse_handshake (plain_ser_handshake (opening_handshake info dh sig)) = opening_handshake info dh sig"
  using plain_split_text [of sig "[]"]
  by (simp add: plain_parse_handshake_def plain_ser_handshake_def opening_handshake_def)

theorem handshake_authentic_witness:
  "\<exists>kp local payload ki. bind_result (KeyProvider_new plain_ecdsa bytes_of_string 1 600 0 5) (renewals plain_ecdsa bytes_of_string [(9, 77)]) =
      Inr kp \<and> localKeyInfo kp = Inr local \<and>
    handshake_payload plain_ecdsa plain_ecdh ''Keccak-1600(224)'' 0 (\<lambda>_. ''m'') plain_ser_handshake kp (ECDH_generateKey 3 ECDH_new) = Inr payload \<and>
    (let h = plain_parse_handshake (pl_content payload) in
     KeyInfo_fromProtobuf plain_ecdsa bytes_of_string KeyInfo_new (key_info (signed_handshake h)) = Inr ki \<and>
     Hash_eq (ki_th ki) (ki_th local) \<and>
     PublicKeyDSA_verify plain_ecdsa ''Keccak-1600(224)'' (ki_public_key ki) ''m'' (new_key_signature h) = Inr True)"
proof -
  obtain kp where kp: "bind_result (KeyProvider_new plain_ecdsa bytes_of_string 1 600 0 5)
      (renewals plain_ecdsa bytes_of_string [(9, 77)]) = Inr kp"
    using KeyProvider_history [of 1 plain_ecdsa bytes_of_string 600 0 5 "[(9, 77)]"] by auto
  have laws: "verify_message plain_ecdsa (ecdsa_public_part plain_ecdsa k) pad m (sign_message plain_ecdsa k pad rng m)"
    "x509_load plain_ecdsa (x509_ber plain_ecdsa pk) = Inr (Some pk)" for k pad rng m pk
    by (simp_all add: plain_ecdsa_def)
  have "(1 :: u32) \<noteq> - 1" by simp
  from handshake_authentic [OF laws plain_handshake_codec this kp, where ser_signed = "\<lambda>_. ''m''" and D = plain_ecdh
      and name = "''Keccak-1600(224)''" and rng = 0 and dh = 3 and ecdh = ECDH_new]
  show ?thesis unfolding Let_def using kp by blast
qed

end
