(* ===== verification/DHT_Service.thy ===== *)
theory DHT_Service
  imports KBucket_Props
begin

section \<open>The Kademlia service (src/daemon/dht/DHTService.h, DHTService.cpp, DHT.proto)\<close>

text \<open>
  The base class of the DHT: it answers queries from its bucket tree and runs iterative searches.
  The functions a subclass must supply (\<^verbatim>\<open>send\<close>, \<^verbatim>\<open>foundNode\<close>, \<^verbatim>\<open>getSerializedContact\<close>) are events or
  arguments.  \<^verbatim>\<open>getClosestTo\<close> is virtual: its base implementation is \<open>getClosestTo_base\<close>, and \<open>process\<close>
  takes the implementation in use as an argument.  The value \<open>None\<close> stands for a call that never
  returns.
\<close>

datatype DHTMessageType = STORE | FIND_NODE | FIND_VALUE | DELETE | FIND_NODE_REPLY | FIND_VALUE_REPLY

record dht_part =
  dht_ns :: string
  dht_hash :: string
  message_type :: DHTMessageType
  serialized_contact_list :: "string list"

datatype RPC_Status = READY | SENT_REQUEST

record 'n Search =
  searching_hash :: chash
  closest_node :: "'n option"
  shortlist :: "('n \<times> RPC_Status) list"

record 'n DHTService =
  alpha :: u16
  dht_k :: u16
  dht_B :: u16
  tExpire :: seconds
  tRefresh :: seconds
  tReplicate :: seconds
  tRepublish :: seconds
  searches :: "'n Search list"
  k_buckets :: "'n kbucket"

datatype dht_event = DHTSend chash dht_part | FoundNode string

definition DHTService_new ::
  "u16 \<Rightarrow> u16 \<Rightarrow> u16 \<Rightarrow> seconds \<Rightarrow> seconds \<Rightarrow> seconds \<Rightarrow> seconds \<Rightarrow> 'n kbucket \<Rightarrow> 'n DHTService" where
  "DHTService_new a k b expire refresh replicate_t republish buckets =
     \<lparr>alpha = a, dht_k = k, dht_B = b, tExpire = expire, tRefresh = refresh, tReplicate = replicate_t,
      tRepublish = republish, searches = [], k_buckets = buckets\<rparr>"

text \<open>The base implementation calls itself.\<close>

partial_function (option) getClosestTo_base :: "chash \<Rightarrow> int \<Rightarrow> 'n list result option" where
  "getClosestTo_base h c = getClosestTo_base h c"

definition findAny :: "chash \<Rightarrow> chash \<Rightarrow> DHTMessageType \<Rightarrow> dht_event list" where
  "findAny find_hash dest_hash action =
     [DHTSend dest_hash \<lparr>dht_ns = ''system'', dht_hash = Hash_toBinaryString find_hash,
        message_type = action, serialized_contact_list = []\<rparr>]"

definition findNode :: "chash \<Rightarrow> chash \<Rightarrow> dht_event list" where
  "findNode find_hash dest_hash = findAny find_hash dest_hash FIND_NODE"

definition findValue :: "chash \<Rightarrow> chash \<Rightarrow> dht_event list" where
  "findValue find_hash dest_hash = findAny find_hash dest_hash FIND_VALUE"

definition storeValue :: "string \<Rightarrow> chash \<Rightarrow> dht_event list" where
  "storeValue v dest_hash = []"

definition pingNode :: "chash \<Rightarrow> dht_event list" where
  "pingNode dest_hash = []"

definition storeValueIterative :: "string \<Rightarrow> dht_event list" where
  "storeValueIterative v = []"

text \<open>Writing an entry of the shortlist, a map from node pointers to states.\<close>

fun shortlist_set :: "'n \<Rightarrow> RPC_Status \<Rightarrow> ('n \<times> RPC_Status) list \<Rightarrow> ('n \<times> RPC_Status) list" where
  "shortlist_set n st [] = [(n, st)]"
| "shortlist_set n st ((m, st') # rest) = (if m = n then (n, st) # rest else (m, st') # shortlist_set n st rest)"

text \<open>
  One turn of the first loop of \<^verbatim>\<open>findAnyIterative\<close>.  In \<^verbatim>\<open>node->getHash() ^ find_hash < closest_distance\<close>
  the comparison binds first, so the hash is converted to \<^verbatim>\<open>bool\<close> and combined with its outcome.
\<close>

definition consider_node :: "nat \<Rightarrow> ('n \<Rightarrow> chash) \<Rightarrow> chash \<Rightarrow> 'n \<Rightarrow> 'n Search \<Rightarrow> 'n Search" where
  "consider_node i0 getHash find_hash node search =
     (let search1 = search\<lparr>shortlist := shortlist_set node READY (shortlist search)\<rparr>
      in case closest_node search1 of
           Some c \<Rightarrow>
             let closest_distance = Hash_xor i0 (getHash c) find_hash
             in if Hash_bool (getHash node) \<noteq> Hash_less find_hash closest_distance
                then search1\<lparr>closest_node := Some node\<rparr> else search1
         | None \<Rightarrow> search1\<lparr>closest_node := Some node\<rparr>)"

text \<open>
  \<^verbatim>\<open>findAnyIterative\<close> registers a search under a fresh pointer, so a new entry is made every time.
  Nothing sets an entry of the shortlist to \<open>SENT_REQUEST\<close>.
\<close>

definition findAnyIterative ::
  "nat \<Rightarrow> ('n \<Rightarrow> chash) \<Rightarrow> chash \<Rightarrow> DHTMessageType \<Rightarrow> 'n DHTService \<Rightarrow> ('n DHTService \<times> dht_event list) result" where
  "findAnyIterative i0 getHash find_hash action this =
     bind_result (getClosest find_hash (uint (alpha this)) (k_buckets this)) (\<lambda>nodes.
       let search0 = \<lparr>searching_hash = Hash_copy find_hash, closest_node = None, shortlist = []\<rparr>;
           search1 = fold (consider_node i0 getHash find_hash) nodes search0
       in Inr (this\<lparr>searches := searches this @ [search1]\<rparr>,
               concat (map (\<lambda>(n, st). if st = READY then findAny (searching_hash search1) (getHash n) action else [])
                 (shortlist search1))))"

definition findNodeIterative ::
  "nat \<Rightarrow> ('n \<Rightarrow> chash) \<Rightarrow> chash \<Rightarrow> 'n DHTService \<Rightarrow> ('n DHTService \<times> dht_event list) result" where
  "findNodeIterative i0 getHash find_hash this = findAnyIterative i0 getHash find_hash FIND_NODE this"

definition findValueIterative ::
  "nat \<Rightarrow> ('n \<Rightarrow> chash) \<Rightarrow> chash \<Rightarrow> 'n DHTService \<Rightarrow> ('n DHTService \<times> dht_event list) result" where
  "findValueIterative i0 getHash find_hash this = findAnyIterative i0 getHash find_hash FIND_VALUE this"

text \<open>\<open>k\<close> is an unsigned 16-bit number and is passed on as a signed one.\<close>

definition DHTService_process ::
  "(chash \<Rightarrow> int \<Rightarrow> 'n list result option) \<Rightarrow> ('n \<Rightarrow> string) \<Rightarrow> chash \<Rightarrow> dht_part \<Rightarrow> 'n DHTService \<Rightarrow>
   dht_event list result option" where
  "DHTService_process getClosestTo getSerializedContact from part this =
     (if message_type part = FIND_NODE \<or> message_type part = FIND_VALUE then
        let query_hash = Hash_setAsBinaryVector Hash_default (bytes_of_string (dht_hash part));
            reply = \<lparr>dht_ns = ''system'', dht_hash = dht_hash part,
              message_type = (if message_type part = FIND_NODE then FIND_NODE_REPLY else FIND_VALUE_REPLY),
              serialized_contact_list = []\<rparr>
        in map_option (\<lambda>r. bind_result r (\<lambda>kClosest.
             Inr [DHTSend from (reply\<lparr>serialized_contact_list := map getSerializedContact kClosest\<rparr>)]))
             (getClosestTo query_hash (sint (dht_k this)))
      else if message_type part = FIND_NODE_REPLY then
        Some (Inr (map FoundNode (serialized_contact_list part)))
      else Some (Inr []))"

subsection \<open>Properties\<close>

lemma getClosestTo_base_diverges: "getClosestTo_base h c = None"
proof -
  have "getClosestTo_base h c = Some y \<Longrightarrow> False" for y :: "'a list result"
    by (rule getClosestTo_base.raw_induct [of "\<lambda>_ _ _. False"])
  then show ?thesis by (cases "getClosestTo_base h c :: 'a list result option") auto
qed


text \<open>
  An iterative search never gets started: with a positive degree of parallelism, as in the
  defaults, asking the bucket tree for the closest nodes is undefined.
\<close>

theorem findAnyIterative_undefined:
  assumes "0 < alpha this"
  shows "findAnyIterative i0 getHash find_hash action this = Inl UndefinedBehaviour"
proof -
  have "0 < uint (alpha this)" using assms by (simp add: word_less_def)
  then show ?thesis by (simp add: findAnyIterative_def getClosest_undefined)
qed

theorem findAnyIterative_undefined_witness:
  "findAnyIterative 0 example_hash (example_hash 1) FIND_NODE
     (DHTService_new 3 20 224 86400 3600 3600 86410 (KBucket_new (example_hash 0) 20)) = Inl UndefinedBehaviour"
  by (rule findAnyIterative_undefined) (simp add: DHTService_new_def)

end
