(* ===== verification/Node_Manager.thy ===== *)
theory Node_Manager
  imports Crypto_Keys Common_Config
begin

section \<open>Nodes and the node manager (src/daemon/p2p)\<close>

text \<open>
  Nodes are objects of the heap, known by their addresses.  The manager keeps the bound ones in a
  map by the hash of their public key (SH) and the others in a set.  The store below holds the live
  nodes together with the two tables of the singleton manager.
\<close>

record 'sk PNode =
  bound_private_key :: "'sk PrivateKeyDSA"
  bound_sh :: chash
  api_session :: "nat option"
  max_connections :: u32
  loopback_param :: "bool option"
  connected_sockets :: "bytes \<rightharpoonup> nat"
  incoming_connections :: "nat list"

record 'sk NodeManager =
  node_heap :: "nat \<rightharpoonup> 'sk PNode"
  next_node :: nat
  nodes_bound :: "bytes \<rightharpoonup> nat"
  nodes_unbound :: "nat set"

definition Node_new :: "nat option \<Rightarrow> 'sk PNode" where
  "Node_new session = \<lparr>bound_private_key = PrivateKeyDSA_new, bound_sh = Hash_default, api_session = session,
     max_connections = 0, loopback_param = None, connected_sockets = Map.empty, incoming_connections = []\<rparr>"

definition NodeManager_new :: "'sk NodeManager" where
  "NodeManager_new = \<lparr>node_heap = Map.empty, next_node = 0, nodes_bound = Map.empty, nodes_unbound = {}\<rparr>"

definition getLocalSH :: "'sk PNode \<Rightarrow> chash" where
  "getLocalSH node = Hash_copy (bound_sh node)"

definition isBound :: "'sk PNode \<Rightarrow> bool" where
  "isBound node \<longleftrightarrow> Hash_bool (bound_sh node)"

definition Node_listen :: "u32 \<Rightarrow> 'sk PNode \<Rightarrow> 'sk PNode" where
  "Node_listen connections node = node\<lparr>max_connections := connections\<rparr>"

text \<open>The setting is read even when the node has its own value.\<close>

definition Node_loopback :: "bool result \<Rightarrow> 'sk PNode \<Rightarrow> bool result" where
  "Node_loopback allow_loopback node =
     bind_result allow_loopback (\<lambda>d. Inr (case loopback_param node of Some b \<Rightarrow> b | None \<Rightarrow> d))"

definition Node_set_loopback :: "bool \<Rightarrow> 'sk PNode \<Rightarrow> 'sk PNode" where
  "Node_set_loopback b node = node\<lparr>loopback_param := Some b\<rparr>"

definition Node_resetLoopback :: "'sk PNode \<Rightarrow> 'sk PNode" where
  "Node_resetLoopback node = node\<lparr>loopback_param := None\<rparr>"

subsection \<open>The manager\<close>

text \<open>\<^verbatim>\<open>std::map::insert\<close> keeps an entry that is already there.\<close>

definition map_insert :: "'a \<Rightarrow> 'b \<Rightarrow> ('a \<rightharpoonup> 'b) \<Rightarrow> 'a \<rightharpoonup> 'b" where
  "map_insert k v m = (if m k = None then m(k \<mapsto> v) else m)"

definition createNode :: "nat option \<Rightarrow> 'sk NodeManager \<Rightarrow> nat \<times> 'sk NodeManager" where
  "createNode session nm =
     (let node = next_node nm
      in (node, nm\<lparr>node_heap := (node_heap nm)(node \<mapsto> Node_new session), next_node := Suc node,
                  nodes_unbound := insert node (nodes_unbound nm)\<rparr>))"

definition db_non_consistent :: cpp_error where
  "db_non_consistent = SystemError (error_code nodemanager_db_non_consistent)"

definition bindNode :: "nat \<Rightarrow> chash \<Rightarrow> 'sk NodeManager \<Rightarrow> 'sk NodeManager result" where
  "bindNode node sh nm =
     (if node \<in> nodes_unbound nm then
        Inr (nm\<lparr>nodes_bound := map_insert (hash sh) node (nodes_bound nm),
                nodes_unbound := nodes_unbound nm - {node}\<rparr>)
      else
        bind_result (deref (node_heap nm node)) (\<lambda>n.
          let local = hash (getLocalSH n)
          in if nodes_bound nm local \<noteq> None
             then Inr (nm\<lparr>nodes_bound := map_insert (hash sh) node ((nodes_bound nm)(local := None))\<rparr>)
             else Inl db_non_consistent))"

definition unbindNode :: "nat \<Rightarrow> 'sk NodeManager \<Rightarrow> 'sk NodeManager result" where
  "unbindNode node nm =
     bind_result (deref (node_heap nm node)) (\<lambda>n.
       let sh = hash (getLocalSH n)
       in if nodes_bound nm sh \<noteq> None
          then Inr (nm\<lparr>nodes_bound := map_insert sh node ((nodes_bound nm)(sh := None))\<rparr>)
          else Inr nm)"

definition destroyNode :: "nat \<Rightarrow> 'sk NodeManager \<Rightarrow> 'sk NodeManager result" where
  "destroyNode node nm =
     bind_result
       (if node \<in> nodes_unbound nm then Inr (nm\<lparr>nodes_unbound := nodes_unbound nm - {node}\<rparr>)
        else
          bind_result (deref (node_heap nm node)) (\<lambda>n.
            let local = hash (getLocalSH n)
            in if nodes_bound nm local \<noteq> None
               then Inr (nm\<lparr>nodes_bound := (nodes_bound nm)(local := None)\<rparr>)
               else Inl db_non_consistent))
       (\<lambda>nm1. if node_heap nm1 node = None then Inl UndefinedBehaviour
              else Inr (nm1\<lparr>node_heap := (node_heap nm1)(node := None)\<rparr>))"

definition getBoundNode :: "chash \<Rightarrow> 'sk NodeManager \<Rightarrow> nat option" where
  "getBoundNode sh nm = nodes_bound nm (hash sh)"

text \<open>
  The destructor deletes what the two tables point to, in the order of the map and then of the set;
  a pointer to a node that is gone must not be deleted again.
\<close>

fun delete_nodes :: "nat list \<Rightarrow> (nat \<rightharpoonup> 'sk PNode) \<Rightarrow> (nat \<rightharpoonup> 'sk PNode) result" where
  "delete_nodes [] heap = Inr heap"
| "delete_nodes (node # rest) heap =
     (if heap node = None then Inl UndefinedBehaviour else delete_nodes rest (heap(node := None)))"

definition NodeManager_delete :: "'sk NodeManager \<Rightarrow> (nat \<rightharpoonup> 'sk PNode) result" where
  "NodeManager_delete nm =
     bind_result (delete_nodes (map (\<lambda>sh. the (nodes_bound nm sh)) (sorted_list_of_set (dom (nodes_bound nm))))
         (node_heap nm))
       (delete_nodes (sorted_list_of_set (nodes_unbound nm)))"

text \<open>
  \<^verbatim>\<open>Node::bind\<close> stores the key and its hash in the node before it asks the manager; when the manager
  throws, the node keeps them.  The result is the store after the call and the exception, if any.
\<close>

definition Node_bind ::
  "('sk, 'pk) botan_ecdsa \<Rightarrow> (string \<Rightarrow> bytes) \<Rightarrow> nat \<Rightarrow> 'sk PrivateKeyDSA \<Rightarrow> 'sk NodeManager \<Rightarrow>
   ('sk NodeManager \<times> cpp_error option) result" where
  "Node_bind B keccak node private_key nm =
     bind_result (deref (node_heap nm node)) (\<lambda>n.
     bind_result (PrivateKeyDSA_assign (bound_private_key n) private_key) (\<lambda>key.
     bind_result (PrivateKeyDSA_derivePublicKey B private_key) (\<lambda>pub.
     bind_result (Hash_of_pubkey B keccak pub) (\<lambda>sh.
       let n1 = n\<lparr>bound_private_key := key, bound_sh := fst (Hash_move_assign (bound_sh n) sh)\<rparr>;
           nm1 = nm\<lparr>node_heap := (node_heap nm)(node \<mapsto> n1)\<rparr>
       in case bindNode node (Hash_copy (bound_sh n1)) nm1 of
            Inr nm2 \<Rightarrow> Inr (nm2, None)
          | Inl e \<Rightarrow> Inr (nm1, Some e)))))"

subsection \<open>Sockets of nodes\<close>

text \<open>\<open>None\<close> is a connection pointer that no constructor has set.\<close>

record PSocket =
  parent_node :: nat
  connection_sh :: "chash option"

definition Socket_incoming :: "nat \<Rightarrow> nat \<Rightarrow> PSocket" where
  "Socket_incoming node incoming = \<lparr>parent_node = node, connection_sh = None\<rparr>"

definition Socket_connect ::
  "bool result \<Rightarrow> nat \<Rightarrow> chash \<Rightarrow> 'sk NodeManager \<Rightarrow> PSocket result" where
  "Socket_connect allow_loopback node sh nm =
     bind_result (deref (node_heap nm node)) (\<lambda>n.
     bind_result (Node_loopback allow_loopback n) (\<lambda>lb.
       if lb then
         (case getBoundNode sh nm of
            Some other \<Rightarrow>
              bind_result (deref (node_heap nm other)) (\<lambda>o'.
              bind_result (Node_loopback allow_loopback o') (\<lambda>lb'.
                Inr \<lparr>parent_node = node, connection_sh = (if lb' then Some Hash_default else None)\<rparr>))
          | None \<Rightarrow> Inr \<lparr>parent_node = node, connection_sh = None\<rparr>)
       else Inr \<lparr>parent_node = node, connection_sh = None\<rparr>))"

definition getRemoteSH :: "PSocket \<Rightarrow> chash result" where
  "getRemoteSH s = deref (connection_sh s)"

text \<open>\<^verbatim>\<open>Node::connect\<close> makes a socket and forgets it.\<close>

definition Node_connect :: "bool result \<Rightarrow> nat \<Rightarrow> chash \<Rightarrow> 'sk NodeManager \<Rightarrow> 'sk NodeManager result" where
  "Node_connect allow_loopback node sh nm =
     bind_result (Socket_connect allow_loopback node sh nm) (\<lambda>_. Inr nm)"

definition Node_accept :: "nat \<Rightarrow> nat \<Rightarrow> 'sk NodeManager \<Rightarrow> 'sk NodeManager result" where
  "Node_accept new_socket node nm =
     bind_result (deref (node_heap nm node)) (\<lambda>n.
       case incoming_connections n of
         [] \<Rightarrow> Inl UndefinedBehaviour
       | c # cs \<Rightarrow>
           bind_result (getRemoteSH (Socket_incoming node c)) (\<lambda>sh.
             Inr (nm\<lparr>node_heap := (node_heap nm)(node \<mapsto>
               n\<lparr>incoming_connections := cs,
                  connected_sockets := map_insert (hash sh) new_socket (connected_sockets n)\<rparr>)\<rparr>)))"

subsection \<open>Consistency\<close>

definition live_nodes :: "'sk NodeManager \<Rightarrow> nat set" where
  "live_nodes nm = dom (node_heap nm)"

text \<open>
  The tables agree with the store: every live node is in exactly one of them, and a bound node is
  found under its own hash.
\<close>

definition nm_inv :: "'sk NodeManager \<Rightarrow> bool" where
  "nm_inv nm \<longleftrightarrow>
     (\<forall>n. next_node nm \<le> n \<longrightarrow> node_heap nm n = None) \<and>
     nodes_unbound nm \<subseteq> live_nodes nm \<and>
     (\<forall>sh n. nodes_bound nm sh = Some n \<longrightarrow>
        n \<notin> nodes_unbound nm \<and> (\<exists>node. node_heap nm n = Some node \<and> hash (bound_sh node) = sh)) \<and>
     (\<forall>n node. node_heap nm n = Some node \<longrightarrow> n \<notin> nodes_unbound nm \<longrightarrow>
        nodes_bound nm (hash (bound_sh node)) = Some n)"

lemma nm_inv_boundD:
  "nm_inv nm \<Longrightarrow> nodes_bound nm sh = Some n \<Longrightarrow>
     n \<notin> nodes_unbound nm \<and> (\<exists>node. node_heap nm n = Some node \<and> hash (bound_sh node) = sh)"
  by (simp add: nm_inv_def)

lemma nm_inv_update:
  assumes "nm_inv nm" and "node_heap nm p = Some n" and "bound_sh n' = bound_sh n"
  shows "nm_inv (nm\<lparr>node_heap := (node_heap nm)(p \<mapsto> n')\<rparr>)"
proof -
  have "\<exists>node. ((node_heap nm)(p \<mapsto> n')) m = Some node \<and> hash (bound_sh node) = sh"
    if "nodes_bound nm sh = Some m" for sh m
    using nm_inv_boundD [OF assms(1) that] assms(2,3) by auto
  with assms show ?thesis by (auto simp: nm_inv_def live_nodes_def)
qed

text \<open>
  What a client of the manager relies on: creating gives a node that was not live, and a live node can
  be destroyed.
\<close>

locale node_registry =
  fixes create :: "'s \<Rightarrow> nat \<times> 's"
    and destroy :: "nat \<Rightarrow> 's \<Rightarrow> 's result"
    and live :: "'s \<Rightarrow> nat set"
    and ok :: "'s \<Rightarrow> bool"
  assumes create_law: "ok s \<Longrightarrow> create s = (n, s') \<Longrightarrow> ok s' \<and> n \<notin> live s \<and> live s' = insert n (live s)"
    and destroy_law: "ok s \<Longrightarrow> n \<in> live s \<Longrightarrow> \<exists>s'. destroy n s = Inr s' \<and> ok s' \<and> live s' = live s - {n}"
begin

lemma owned_create:
  assumes "ok s" and "owned \<subseteq> live s" and "create s = (n, s')"
  shows "ok s' \<and> n \<notin> owned \<and> insert n owned \<subseteq> live s'"
  using create_law [OF assms(1,3)] assms(2) by blast

lemma owned_destroy:
  assumes "ok s" and "owned \<subseteq> live s" and "n \<in> owned"
  shows "\<exists>s'. destroy n s = Inr s' \<and> ok s' \<and> owned - {n} \<subseteq> live s'"
  using destroy_law [OF assms(1), of n] assms(2,3) by blast

end

lemma createNode_inv:
  assumes "nm_inv nm" and "createNode session nm = (n, nm')"
  shows "nm_inv nm' \<and> n \<notin> live_nodes nm \<and> live_nodes nm' = insert n (live_nodes nm)"
proof -
  have n: "n = next_node nm" and nm': "nm' = nm\<lparr>node_heap := (node_heap nm)(n \<mapsto> Node_new session),
      next_node := Suc n, nodes_unbound := insert n (nodes_unbound nm)\<rparr>"
    using assms(2) by (auto simp: createNode_def Let_def)
  have fresh: "node_heap nm n = None" using assms(1) by (simp add: nm_inv_def n)
  have "nodes_bound nm sh \<noteq> Some n" for sh
    using assms(1) fresh unfolding nm_inv_def by (metis option.distinct(1))
  with assms(1) fresh show ?thesis
    by (auto simp: nm_inv_def nm' live_nodes_def n [symmetric])
qed

lemma destroyNode_inv:
  assumes "nm_inv nm" and "n \<in> live_nodes nm"
  shows "\<exists>nm'. destroyNode n nm = Inr nm' \<and> nm_inv nm' \<and> live_nodes nm' = live_nodes nm - {n}"
proof -
  obtain node where node: "node_heap nm n = Some node" using assms(2) by (auto simp: live_nodes_def)
  show ?thesis
  proof (cases "n \<in> nodes_unbound nm")
    case True
    let ?nm' = "nm\<lparr>node_heap := (node_heap nm)(n := None), nodes_unbound := nodes_unbound nm - {n}\<rparr>"
    have "destroyNode n nm = Inr ?nm'" using True node by (simp add: destroyNode_def)
    moreover have "nm_inv ?nm'" using assms(1) True by (fastforce simp: nm_inv_def live_nodes_def)
    ultimately show ?thesis by (auto simp: live_nodes_def)
  next
    case False
    let ?sh = "hash (bound_sh node)"
    let ?nm' = "nm\<lparr>node_heap := (node_heap nm)(n := None), nodes_bound := (nodes_bound nm)(?sh := None)\<rparr>"
    have sh: "nodes_bound nm ?sh = Some n" using assms(1) False node by (simp add: nm_inv_def)
    have "destroyNode n nm = Inr ?nm'"
      using False node sh by (simp add: destroyNode_def getLocalSH_def Hash_copy_def)
    moreover have "nm_inv ?nm'"
      unfolding nm_inv_def
    proof (intro conjI allI impI)
      fix sh' m
      assume m: "nodes_bound ?nm' sh' = Some m"
      then have "m \<noteq> n" using assms(1) node unfolding nm_inv_def by (fastforce split: if_splits)
      with m assms(1) show "m \<notin> nodes_unbound ?nm'"
        "\<exists>node. node_heap ?nm' m = Some node \<and> hash (bound_sh node) = sh'"
        by (auto simp: nm_inv_def split: if_splits)
    next
      fix m node'
      assume "node_heap ?nm' m = Some node'" "m \<notin> nodes_unbound ?nm'"
      then have "m \<noteq> n" "nodes_bound nm (hash (bound_sh node')) = Some m"
        using assms(1) by (auto simp: nm_inv_def split: if_splits)
      with sh show "nodes_bound ?nm' (hash (bound_sh node')) = Some m" by auto
    qed (use assms(1) False in \<open>auto simp: nm_inv_def live_nodes_def\<close>)
    ultimately show ?thesis by (auto simp: live_nodes_def)
  qed
qed

interpretation nm: node_registry "createNode session" destroyNode live_nodes nm_inv
proof
  show "nm_inv s' \<and> n \<notin> live_nodes s \<and> live_nodes s' = insert n (live_nodes s)"
    if "nm_inv s" "createNode session s = (n, s')" for s n s'
    using that by (rule createNode_inv)
  show "\<exists>s'. destroyNode n s = Inr s' \<and> nm_inv s' \<and> live_nodes s' = live_nodes s - {n}"
    if "nm_inv s" "n \<in> live_nodes s" for s :: "'sk NodeManager" and n
    using that by (rule destroyNode_inv)
qed

text \<open>The hash a private key is bound under.\<close>

definition key_sh :: "('sk, 'pk) botan_ecdsa \<Rightarrow> (string \<Rightarrow> bytes) \<Rightarrow> 'sk \<Rightarrow> bytes" where
  "key_sh B keccak k = keccak (string_of_bytes (x509_ber B (ecdsa_public_part B k)))"

definition set_bound :: "('sk, 'pk) botan_ecdsa \<Rightarrow> (string \<Rightarrow> bytes) \<Rightarrow> 'sk \<Rightarrow> 'sk PNode \<Rightarrow> 'sk PNode" where
  "set_bound B keccak k n = n\<lparr>bound_private_key := (bound_private_key n)\<lparr>key_private := Some k\<rparr>,
     bound_sh := \<lparr>hash = key_sh B keccak k, hasher = True\<rparr>\<rparr>"

lemma Node_bind_key:
  assumes "node_heap nm node = Some n" and "key_private pk = Some k"
  shows "Node_bind B keccak node pk nm =
    (let nm1 = nm\<lparr>node_heap := (node_heap nm)(node \<mapsto> set_bound B keccak k n)\<rparr>
     in case bindNode node \<lparr>hash = key_sh B keccak k, hasher = False\<rparr> nm1 of
          Inr nm2 \<Rightarrow> Inr (nm2, None) | Inl e \<Rightarrow> Inr (nm1, Some e))"
  using assms
  by (simp add: Node_bind_def key_defs ms_toBinaryString_def Hash_compute_def Hash_default_def
      Hash_setAsBinaryVector_def Hash_move_assign_def Hash_copy_def set_bound_def key_sh_def Let_def
      chash_update cong: sum.case_cong)

lemma Node_bind_free:
  assumes "nm_inv nm" and "node \<in> nodes_unbound nm" and "key_private pk = Some k"
    and "nodes_bound nm (key_sh B keccak k) = None"
  shows "\<exists>nm'. Node_bind B keccak node pk nm = Inr (nm', None) \<and> nm_inv nm' \<and>
    live_nodes nm' = live_nodes nm \<and> nodes_bound nm' = (nodes_bound nm)(key_sh B keccak k \<mapsto> node) \<and>
    nodes_unbound nm' = nodes_unbound nm - {node}"
proof -
  obtain n where n: "node_heap nm node = Some n"
    using assms(1,2) by (auto simp: nm_inv_def live_nodes_def)
  let ?sh = "key_sh B keccak k"
  let ?nm' = "nm\<lparr>node_heap := (node_heap nm)(node \<mapsto> set_bound B keccak k n),
    nodes_bound := (nodes_bound nm)(?sh \<mapsto> node), nodes_unbound := nodes_unbound nm - {node}\<rparr>"
  have "Node_bind B keccak node pk nm = Inr (?nm', None)"
    using n assms(2-4) by (simp add: Node_bind_key bindNode_def map_insert_def)
  moreover have "nm_inv ?nm'"
    unfolding nm_inv_def
  proof (intro conjI allI impI)
    fix sh m
    assume "nodes_bound ?nm' sh = Some m"
    then have "sh = ?sh \<and> m = node \<or> sh \<noteq> ?sh \<and> nodes_bound nm sh = Some m" by (auto split: if_splits)
    with assms(1,2) show "m \<notin> nodes_unbound ?nm'"
      "\<exists>node'. node_heap ?nm' m = Some node' \<and> hash (bound_sh node') = sh"
      by (auto simp: nm_inv_def set_bound_def)
  next
    fix m node'
    assume m: "node_heap ?nm' m = Some node'" "m \<notin> nodes_unbound ?nm'"
    show "nodes_bound ?nm' (hash (bound_sh node')) = Some m"
    proof (cases "m = node")
      case True
      with m show ?thesis by (auto simp: set_bound_def)
    next
      case False
      with m assms(1) have "nodes_bound nm (hash (bound_sh node')) = Some m" by (simp add: nm_inv_def)
      with assms(4) show ?thesis by auto
    qed
  qed (use assms(1) n in \<open>auto simp: nm_inv_def live_nodes_def\<close>)
  ultimately show ?thesis using n by (auto simp: live_nodes_def)
qed

text \<open>In a consistent manager every live node is deleted exactly once.\<close>

lemma delete_nodes_distinct:
  assumes "distinct ns" and "set ns \<subseteq> dom heap"
  shows "delete_nodes ns heap = Inr (heap |` (- set ns))"
  using assms
proof (induction ns arbitrary: heap)
  case (Cons n ns)
  have "set ns \<subseteq> dom (heap(n := None))" using Cons.prems by auto
  with Cons have "delete_nodes ns (heap(n := None)) = Inr ((heap(n := None)) |` (- set ns))" by simp
  moreover have "(heap(n := None)) |` (- set ns) = heap |` (- set (n # ns))"
    by (auto simp: restrict_map_def fun_eq_iff)
  moreover have "heap n \<noteq> None" using Cons.prems(2) by auto
  ultimately show ?case by (simp only: delete_nodes.simps if_False)
qed (simp add: restrict_map_def)

lemma nm_inv_finite:
  assumes "nm_inv nm"
  shows "finite (nodes_unbound nm)" and "finite (dom (nodes_bound nm))" and "inj_on (nodes_bound nm) (dom (nodes_bound nm))"
proof -
  have "n < next_node nm" if "node_heap nm n = Some node" for n node
    using assms that by (cases "n < next_node nm") (auto simp: nm_inv_def)
  then have "live_nodes nm \<subseteq> {..<next_node nm}" by (auto simp: live_nodes_def)
  then have live: "finite (live_nodes nm)" by (rule finite_subset) simp
  have "nodes_unbound nm \<subseteq> live_nodes nm" using assms by (simp add: nm_inv_def)
  then show "finite (nodes_unbound nm)" using live by (rule finite_subset)
  show inj: "inj_on (nodes_bound nm) (dom (nodes_bound nm))"
  proof (rule inj_onI)
    fix a b
    assume "a \<in> dom (nodes_bound nm)" and ab: "nodes_bound nm a = nodes_bound nm b"
    then obtain n where a: "nodes_bound nm a = Some n" by blast
    from ab a have b: "nodes_bound nm b = Some n" by simp
    from nm_inv_boundD [OF assms a] nm_inv_boundD [OF assms b] show "a = b" by auto
  qed
  have "nodes_bound nm ` dom (nodes_bound nm) \<subseteq> Some ` live_nodes nm"
  proof
    fix x
    assume "x \<in> nodes_bound nm ` dom (nodes_bound nm)"
    then obtain sh n where sh: "nodes_bound nm sh = Some n" "x = Some n" by auto
    from nm_inv_boundD [OF assms sh(1)] sh(2) show "x \<in> Some ` live_nodes nm" by (auto simp: live_nodes_def)
  qed
  then have "finite (nodes_bound nm ` dom (nodes_bound nm))" by (rule finite_subset) (simp add: live)
  then show "finite (dom (nodes_bound nm))" using inj by (rule finite_imageD)
qed

lemma NodeManager_delete_inv:
  assumes "nm_inv nm"
  shows "NodeManager_delete nm = Inr Map.empty"
proof -
  let ?bs = "map (\<lambda>sh. the (nodes_bound nm sh)) (sorted_list_of_set (dom (nodes_bound nm)))"
  let ?us = "sorted_list_of_set (nodes_unbound nm)"
  note fin = nm_inv_finite [OF assms]
  have bs: "set ?bs = ran (nodes_bound nm)" using fin(2) by (force simp: ran_def)
  have "distinct ?bs"
    using fin by (auto simp: distinct_map inj_on_def dom_def)
  moreover have "ran (nodes_bound nm) \<subseteq> dom (node_heap nm)"
    using nm_inv_boundD [OF assms] by (fastforce simp: ran_def)
  ultimately have 1: "delete_nodes ?bs (node_heap nm) = Inr (node_heap nm |` (- ran (nodes_bound nm)))"
    using delete_nodes_distinct [of ?bs "node_heap nm"] by (simp only: bs)
  have disj: "nodes_unbound nm \<inter> ran (nodes_bound nm) = {}"
    using nm_inv_boundD [OF assms] by (fastforce simp: ran_def)
  then have "set ?us \<subseteq> dom (node_heap nm |` (- ran (nodes_bound nm)))"
    using fin(1) assms by (auto simp: nm_inv_def live_nodes_def)
  then have 2: "delete_nodes ?us (node_heap nm |` (- ran (nodes_bound nm))) =
      Inr (node_heap nm |` (- ran (nodes_bound nm)) |` (- nodes_unbound nm))"
    using delete_nodes_distinct [of ?us "node_heap nm |` (- ran (nodes_bound nm))"] fin(1) by simp
  have "node_heap nm n = None" if "n \<notin> ran (nodes_bound nm)" "n \<notin> nodes_unbound nm" for n
  proof (cases "node_heap nm n")
    case (Some node)
    with assms that(2) have "nodes_bound nm (hash (bound_sh node)) = Some n" by (simp add: nm_inv_def)
    with that(1) show ?thesis by (auto simp: ran_def)
  qed simp
  then have "node_heap nm |` (- ran (nodes_bound nm)) |` (- nodes_unbound nm) = Map.empty"
    by (auto simp: restrict_map_def fun_eq_iff)
  with 1 2 show ?thesis by (simp add: NodeManager_delete_def)
qed

subsection \<open>Properties\<close>

text \<open>
  Managers that arise by creating nodes, destroying live ones, and binding unbound ones to keys whose
  hash is free.
\<close>

inductive nm_reach :: "('sk, 'pk) botan_ecdsa \<Rightarrow> (string \<Rightarrow> bytes) \<Rightarrow> 'sk NodeManager \<Rightarrow> bool"
  for B keccak where
  nm_start: "nm_reach B keccak NodeManager_new"
| nm_create: "nm_reach B keccak nm \<Longrightarrow> createNode session nm = (n, nm') \<Longrightarrow> nm_reach B keccak nm'"
| nm_destroy: "nm_reach B keccak nm \<Longrightarrow> n \<in> live_nodes nm \<Longrightarrow> destroyNode n nm = Inr nm' \<Longrightarrow> nm_reach B keccak nm'"
| nm_bind: "nm_reach B keccak nm \<Longrightarrow> n \<in> nodes_unbound nm \<Longrightarrow> key_private pk = Some k \<Longrightarrow>
    nodes_bound nm (key_sh B keccak k) = None \<Longrightarrow> Node_bind B keccak n pk nm = Inr (nm', e) \<Longrightarrow> nm_reach B keccak nm'"

lemma nm_reach_inv: "nm_reach B keccak nm \<Longrightarrow> nm_inv nm"
proof (induction rule: nm_reach.induct)
  case nm_start
  show ?case by (simp add: nm_inv_def NodeManager_new_def live_nodes_def)
next
  case (nm_create nm session n nm')
  then show ?case using createNode_inv by blast
next
  case (nm_destroy nm n nm')
  then show ?case using destroyNode_inv by (metis sum.inject(2))
next
  case (nm_bind nm n pk k nm' e)
  then show ?case using Node_bind_free [of nm n pk k B keccak] by fastforce
qed

text \<open>
  (C17) As long as keys are bound once and to one node, the tables of the manager stay consistent:
  every live node is either unbound or found by \<^verbatim>\<open>getBoundNode\<close> under its own hash, creating gives a
  node not alive before, every live node can be destroyed without an exception, and the destructor of
  the manager deletes every node exactly once.
\<close>

theorem node_manager_consistent:
  assumes "nm_reach B keccak nm"
  shows "(\<forall>n node. node_heap nm n = Some node \<longrightarrow>
      n \<in> nodes_unbound nm \<or> getBoundNode (bound_sh node) nm = Some n) \<and>
    (\<forall>sh n. getBoundNode sh nm = Some n \<longrightarrow> n \<in> live_nodes nm \<and> n \<notin> nodes_unbound nm) \<and>
    fst (createNode session nm) \<notin> live_nodes nm \<and>
    (\<forall>n \<in> live_nodes nm. \<exists>nm'. destroyNode n nm = Inr nm' \<and> live_nodes nm' = live_nodes nm - {n} \<and>
       nm_reach B keccak nm') \<and>
    NodeManager_delete nm = Inr Map.empty"
proof -
  have inv: "nm_inv nm" using assms by (rule nm_reach_inv)
  have "fst (createNode session nm) \<notin> live_nodes nm"
    using nm.create_law [OF inv, of session "fst (createNode session nm)" "snd (createNode session nm)"] by simp
  moreover have "\<exists>nm'. destroyNode n nm = Inr nm' \<and> live_nodes nm' = live_nodes nm - {n} \<and> nm_reach B keccak nm'"
    if "n \<in> live_nodes nm" for n
    using nm.destroy_law [OF inv that] nm_destroy [OF assms that] by blast
  moreover have "n \<in> live_nodes nm \<and> n \<notin> nodes_unbound nm" if "getBoundNode sh nm = Some n" for sh n
    using nm_inv_boundD [OF inv, of "hash sh" n] that by (auto simp: getBoundNode_def live_nodes_def)
  moreover have "n \<in> nodes_unbound nm \<or> getBoundNode (bound_sh node) nm = Some n" if "node_heap nm n = Some node" for n node
    using inv that by (auto simp: nm_inv_def getBoundNode_def)
  ultimately show ?thesis using NodeManager_delete_inv [OF inv] by blast
qed

theorem node_manager_consistent_witness:
  "\<exists>nm'. destroyNode 0 (snd (createNode None (NodeManager_new :: nat NodeManager))) = Inr nm' \<and>
     live_nodes nm' = {}"
proof -
  let ?nm = "snd (createNode None (NodeManager_new :: nat NodeManager))"
  have "nm_reach plain_ecdsa bytes_of_string ?nm"
    by (rule nm_create [OF nm_start, of None 0]) (simp add: createNode_def NodeManager_new_def Let_def)
  moreover have "live_nodes ?nm = {0}"
    by (auto simp: live_nodes_def createNode_def NodeManager_new_def Let_def)
  ultimately show ?thesis using node_manager_consistent [of plain_ecdsa bytes_of_string ?nm None] by auto
qed

text \<open>
  A node cannot be bound again: when a bound node is bound to a key with another, free hash, the
  manager looks it up under the new hash, finds nothing and throws, but the node has already taken the
  new hash; from then on the node cannot be destroyed either.
\<close>

theorem rebind_breaks:
  assumes "nm_inv nm" and "node_heap nm node = Some n" and "node \<notin> nodes_unbound nm"
    and "key_private pk = Some k" and "nodes_bound nm (key_sh B keccak k) = None"
  shows "\<exists>nm'. Node_bind B keccak node pk nm = Inr (nm', Some db_non_consistent) \<and> \<not> nm_inv nm' \<and>
    getBoundNode (bound_sh n) nm' = Some node \<and> destroyNode node nm' = Inl db_non_consistent"
proof -
  let ?nm1 = "nm\<lparr>node_heap := (node_heap nm)(node \<mapsto> set_bound B keccak k n)\<rparr>"
  have "Node_bind B keccak node pk nm = Inr (?nm1, Some db_non_consistent)"
    using assms(2-5) by (simp add: Node_bind_key bindNode_def getLocalSH_def Hash_copy_def set_bound_def)
  moreover have "\<not> nm_inv ?nm1"
    using assms(3,5) by (auto simp: nm_inv_def set_bound_def)
  moreover have "getBoundNode (bound_sh n) ?nm1 = Some node"
    using assms(1-3) by (simp add: nm_inv_def getBoundNode_def)
  moreover have "destroyNode node ?nm1 = Inl db_non_consistent"
    using assms(3,5) by (simp add: destroyNode_def getLocalSH_def Hash_copy_def set_bound_def)
  ultimately show ?thesis by blast
qed

definition bound_example :: "nat NodeManager" where
  "bound_example = \<lparr>node_heap = [0 \<mapsto> set_bound plain_ecdsa bytes_of_string 3 (Node_new None)], next_node = 1,
     nodes_bound = [key_sh plain_ecdsa bytes_of_string 3 \<mapsto> 0], nodes_unbound = {}\<rparr>"

lemma bound_example_inv: "nm_inv bound_example"
  by (auto simp: nm_inv_def bound_example_def live_nodes_def set_bound_def)

lemma key_sh_plain: "key_sh plain_ecdsa bytes_of_string k = be_bytes k"
  by (simp add: key_sh_def plain_ecdsa_def)

lemma be_bytes_inject: "be_bytes a = be_bytes b \<longleftrightarrow> a = b"
  by (metis be_value_be_bytes)

theorem rebind_breaks_witness:
  "\<exists>nm'. Node_bind plain_ecdsa bytes_of_string 0 \<lparr>key_private = Some 5\<rparr> bound_example = Inr (nm', Some db_non_consistent) \<and>
     destroyNode 0 nm' = Inl db_non_consistent"
  using rebind_breaks [OF bound_example_inv, of 0 _ "\<lparr>key_private = Some 5\<rparr>" 5 plain_ecdsa bytes_of_string]
  by (auto simp: bound_example_def key_sh_plain be_bytes_inject)

text \<open>
  Binding a second node to a key that is in use succeeds silently: the node leaves the set of
  unbound nodes and enters no table.  Destroying it then removes the entry of the first node, which
  can no longer be found or destroyed.
\<close>

theorem duplicate_bind_breaks:
  assumes "nm_inv nm" and "node \<in> nodes_unbound nm" and "key_private pk = Some k"
    and "nodes_bound nm (key_sh B keccak k) = Some other" and "node_heap nm other = Some m"
  shows "\<exists>nm1 nm2. Node_bind B keccak node pk nm = Inr (nm1, None) \<and>
    node \<notin> nodes_unbound nm1 \<and> (\<forall>sh. getBoundNode sh nm1 \<noteq> Some node) \<and>
    getBoundNode (bound_sh m) nm1 = Some other \<and>
    destroyNode node nm1 = Inr nm2 \<and> getBoundNode (bound_sh m) nm2 = None \<and> other \<in> live_nodes nm2 \<and>
    destroyNode other nm2 = Inl db_non_consistent"
proof -
  let ?sh = "key_sh B keccak k"
  obtain n where n: "node_heap nm node = Some n"
    using assms(1,2) by (auto simp: nm_inv_def live_nodes_def)
  have m: "hash (bound_sh m) = ?sh" "other \<notin> nodes_unbound nm"
    using nm_inv_boundD [OF assms(1,4)] assms(5) by auto
  have ne: "other \<noteq> node" using m(2) assms(2) by blast
  have nb: "nodes_bound nm sh \<noteq> Some node" for sh
    using assms(1,2) by (auto simp: nm_inv_def)
  let ?nm1 = "nm\<lparr>node_heap := (node_heap nm)(node \<mapsto> set_bound B keccak k n), nodes_unbound := nodes_unbound nm - {node}\<rparr>"
  let ?nm2 = "?nm1\<lparr>node_heap := (node_heap nm)(node := None), nodes_bound := (nodes_bound nm)(?sh := None)\<rparr>"
  have "Node_bind B keccak node pk nm = Inr (?nm1, None)"
    using n assms(2-4) by (simp add: Node_bind_key bindNode_def map_insert_def)
  moreover have "destroyNode node ?nm1 = Inr ?nm2"
    using assms(4) by (simp add: destroyNode_def getLocalSH_def Hash_copy_def set_bound_def Let_def)
  moreover have "destroyNode other ?nm2 = Inl db_non_consistent"
    using ne m assms(5) by (simp add: destroyNode_def getLocalSH_def Hash_copy_def)
  ultimately show ?thesis
    using ne m nb assms(4,5) by (auto simp: getBoundNode_def live_nodes_def)
qed

theorem duplicate_bind_breaks_witness:
  "\<exists>nm1 nm2. Node_bind plain_ecdsa bytes_of_string 1 \<lparr>key_private = Some 3\<rparr> (snd (createNode None bound_example)) = Inr (nm1, None) \<and>
     destroyNode 1 nm1 = Inr nm2 \<and> destroyNode 0 nm2 = Inl db_non_consistent"
proof -
  let ?nm = "snd (createNode None bound_example)"
  have "nm_inv ?nm"
    using nm.create_law [OF bound_example_inv, of None "fst (createNode None bound_example)" ?nm] by simp
  moreover have "1 \<in> nodes_unbound ?nm"
    "nodes_bound ?nm (key_sh plain_ecdsa bytes_of_string 3) = Some 0"
    "node_heap ?nm 0 = Some (set_bound plain_ecdsa bytes_of_string 3 (Node_new None))"
    by (simp_all add: bound_example_def createNode_def Let_def)
  ultimately show ?thesis
    using duplicate_bind_breaks [of ?nm 1 "\<lparr>key_private = Some 3\<rparr>" 3 plain_ecdsa bytes_of_string 0] by fastforce
qed

text \<open>
  \<^verbatim>\<open>unbindNode\<close> changes nothing in a consistent manager, where its comment says it resets the
  node's hash; and \<^verbatim>\<open>Node::accept\<close> never succeeds, because the socket it makes has no connection.
\<close>

theorem unbind_and_accept:
  assumes "nm_inv nm" and "node_heap nm node = Some n" and "node \<notin> nodes_unbound nm"
  shows "unbindNode node nm = Inr nm \<and> Node_accept new_socket node nm = Inl UndefinedBehaviour"
proof -
  have sh: "nodes_bound nm (hash (bound_sh n)) = Some node" using assms by (simp add: nm_inv_def)
  then have "unbindNode node nm = Inr nm"
    using assms(2) by (simp add: unbindNode_def getLocalSH_def Hash_copy_def map_insert_def fun_upd_idem)
  moreover have "Node_accept new_socket node nm = Inl UndefinedBehaviour"
    using assms(2) by (auto simp: Node_accept_def Socket_incoming_def getRemoteSH_def split: list.split)
  ultimately show ?thesis ..
qed

theorem unbind_and_accept_witness: "unbindNode 0 bound_example = Inr bound_example"
  using unbind_and_accept [OF bound_example_inv, of 0] by (auto simp: bound_example_def)

end
