(* ===== verification/API_Session.thy ===== *)
theory API_Session
  imports Node_Manager "HOL-Library.Sublist"
begin

section \<open>API sessions (src/daemon/api/APISession.h, APISession.cpp, src/common/api/APIMessage.proto)\<close>

text \<open>
  A session serves one client of the daemon: it registers nodes with the node manager under
  session-wide numbers and answers each request with at most one message.  Fields of the protocol
  message are optional; an absent number reads as zero.
\<close>

datatype MessageType =
    NODE_REGISTER | NODE_UNREGISTER | NODE_CONNECT | NODE_ACCEPT | NODE_LISTEN | NODE_BIND
  | SOCKET_UNREGISTER

record api_error =
  err_code :: int
  err_what :: string
  err_category :: string

record APIMessage =
  am_type :: "MessageType option"
  message_token :: "u32 option"
  am_error :: "api_error option"
  am_reply :: "bool option"
  register_node_id :: "u32 option"
  unregister_node_id :: "u32 option"
  connect_node_id :: "u32 option"
  connect_SH :: "string option"
  connect_socket_id :: "u32 option"
  accept_node_id :: "u32 option"
  accept_SH :: "string option"
  accept_socket_id :: "u32 option"
  listen_node_id :: "u32 option"
  listen_max_connections :: "u32 option"
  bind_node_id :: "u32 option"
  bind_binary_private_key :: "string option"
  bind_b58_private_key :: "string option"
  socket_node_id :: "u32 option"
  socket_socket_id :: "u32 option"

definition APIMessage_new :: APIMessage where
  "APIMessage_new = \<lparr>am_type = None, message_token = None, am_error = None, am_reply = None, register_node_id = None,
     unregister_node_id = None, connect_node_id = None, connect_SH = None, connect_socket_id = None,
     accept_node_id = None, accept_SH = None, accept_socket_id = None, listen_node_id = None,
     listen_max_connections = None, bind_node_id = None, bind_binary_private_key = None,
     bind_b58_private_key = None, socket_node_id = None, socket_socket_id = None\<rparr>"

definition u32_field :: "u32 option \<Rightarrow> u32" where
  "u32_field f = (case f of Some v \<Rightarrow> v | None \<Rightarrow> 0)"

text \<open>An absent type reads as the first value of the enumeration.\<close>

definition type_field :: "APIMessage \<Rightarrow> MessageType" where
  "type_field m = (case am_type m of Some t \<Rightarrow> t | None \<Rightarrow> NODE_REGISTER)"

subsection \<open>The session\<close>

record node_t =
  nt_node :: nat
  next_socket_id :: u32
  nt_sockets :: "(u32 \<times> nat) list"

text \<open>An ordered map of node numbers, as a list in ascending order.\<close>

record APISession =
  nodes :: "(u32 \<times> node_t) list"
  next_node_id :: u32

definition APISession_new :: APISession where
  "APISession_new = \<lparr>nodes = [], next_node_id = 1\<rparr>"

fun omap_insert :: "u32 \<Rightarrow> 'v \<Rightarrow> (u32 \<times> 'v) list \<Rightarrow> (u32 \<times> 'v) list" where
  "omap_insert k v [] = [(k, v)]"
| "omap_insert k v ((k', v') # m) =
     (if k < k' then (k, v) # (k', v') # m
      else if k = k' then (k', v') # m
      else (k', v') # omap_insert k v m)"

definition omap_erase :: "u32 \<Rightarrow> (u32 \<times> 'v) list \<Rightarrow> (u32 \<times> 'v) list" where
  "omap_erase k m = filter (\<lambda>(k', _). k' \<noteq> k) m"

text \<open>
  The reply an error would be told with.  The function that builds it returns without sending it.
\<close>

definition remoteThrow :: "APIMessage \<Rightarrow> P2PError \<Rightarrow> APIMessage \<times> APIMessage list" where
  "remoteThrow request_message error =
     (APIMessage_new\<lparr>am_error := Some \<lparr>err_code = error_code error, err_what = category_message (error_code error),
         err_category = P2PErrorCategory_name\<rparr>,
       am_type := Some (type_field request_message),
       message_token := Some (u32_field (message_token request_message))\<rparr>, [])"

text \<open>The loop that looks for the next free number behind the node just inserted.\<close>

fun advance_id :: "u32 \<Rightarrow> (u32 \<times> 'v) list \<Rightarrow> u32" where
  "advance_id n [] = n"
| "advance_id n ((k, _) # rest) =
     (if n \<noteq> 0 then if k \<le> n then advance_id (n + 1) rest else n else n)"

type_synonym 'sk api_state = "'sk NodeManager \<times> APISession"

definition NodeRegister :: "nat \<Rightarrow> APIMessage \<Rightarrow> 'sk api_state \<Rightarrow> ('sk api_state \<times> APIMessage list) result" where
  "NodeRegister self request st = (case st of (nm, s) \<Rightarrow>
     if next_node_id s = 0 then Inr ((nm, s), snd (remoteThrow request too_many_nodes))
     else
       let node_id = next_node_id s;
           (new_node, nm1) = createNode (Some self) nm;
           nodes1 = omap_insert node_id \<lparr>nt_node = new_node, next_socket_id = 1, nt_sockets = []\<rparr> (nodes s);
           message_reply = request\<lparr>register_node_id := Some node_id\<rparr>;
           next = advance_id (node_id + 1) (dropWhile (\<lambda>(k, _). k \<le> node_id) nodes1)
       in Inr ((nm1, s\<lparr>nodes := nodes1, next_node_id := next\<rparr>), [message_reply]))"

definition NodeUnRegister :: "APIMessage \<Rightarrow> 'sk api_state \<Rightarrow> ('sk api_state \<times> APIMessage list) result" where
  "NodeUnRegister request st = (case st of (nm, s) \<Rightarrow>
     let id = u32_field (unregister_node_id request) in
     case map_of (nodes s) id of
       None \<Rightarrow> Inr ((nm, s), snd (remoteThrow request nonexistent_node))
     | Some nt \<Rightarrow>
         bind_result (destroyNode (nt_node nt) nm) (\<lambda>nm1.
           let s1 = s\<lparr>nodes := omap_erase id (nodes s)\<rparr>;
               s2 = (if next_node_id s1 > id \<or> next_node_id s1 = 0 then s1\<lparr>next_node_id := id\<rparr> else s1)
           in Inr ((nm1, s2), [request])))"

definition NodeConnect :: "APIMessage \<Rightarrow> 'sk api_state \<Rightarrow> ('sk api_state \<times> APIMessage list) result" where
  "NodeConnect request st = Inl Terminate"

definition NodeAccept :: "APIMessage \<Rightarrow> 'sk api_state \<Rightarrow> ('sk api_state \<times> APIMessage list) result" where
  "NodeAccept request st = Inl Terminate"

definition NodeListen :: "APIMessage \<Rightarrow> 'sk api_state \<Rightarrow> ('sk api_state \<times> APIMessage list) result" where
  "NodeListen request st = (case st of (nm, s) \<Rightarrow>
     case map_of (nodes s) (u32_field (listen_node_id request)) of
       None \<Rightarrow> Inr ((nm, s), snd (remoteThrow request nonexistent_node))
     | Some nt \<Rightarrow>
         bind_result (deref (node_heap nm (nt_node nt))) (\<lambda>n.
           Inr ((nm\<lparr>node_heap := (node_heap nm)(nt_node nt \<mapsto>
                   Node_listen (u32_field (listen_max_connections request)) n)\<rparr>, s), [request])))"

definition NodeBind ::
  "('sk, 'pk) botan_ecdsa \<Rightarrow> (string \<Rightarrow> bytes) \<Rightarrow> (bytes \<Rightarrow> nat) \<Rightarrow> (nat \<Rightarrow> bytes) \<Rightarrow> APIMessage \<Rightarrow>
   'sk api_state \<Rightarrow> ('sk api_state \<times> APIMessage list) result" where
  "NodeBind B keccak bi_decode bi_encode request st = (case st of (nm, s) \<Rightarrow>
     case map_of (nodes s) (u32_field (bind_node_id request)) of
       None \<Rightarrow> Inr ((nm, s), snd (remoteThrow request nonexistent_node))
     | Some nt \<Rightarrow>
         bind_result
           (case bind_binary_private_key request of
              Some key \<Rightarrow>
                bind_result (ms_fromBinaryString (PrivateKeyDSA_setAsBinaryVector B bi_decode) PrivateKeyDSA_new key)
                  (\<lambda>pk. Node_bind B keccak (nt_node nt) pk nm)
            | None \<Rightarrow>
                (case bind_b58_private_key request of
                   Some key \<Rightarrow>
                     bind_result (ms_fromBase58 bi_encode (PrivateKeyDSA_setAsBinaryVector B bi_decode)
                         PrivateKeyDSA_new key)
                       (\<lambda>pk. Node_bind B keccak (nt_node nt) pk nm)
                 | None \<Rightarrow> Inr (nm, None)))
           (\<lambda>(nm1, e). case e of None \<Rightarrow> Inr ((nm1, s), [request]) | Some err \<Rightarrow> Inl err))"

definition SocketUnRegister :: "APIMessage \<Rightarrow> 'sk api_state \<Rightarrow> ('sk api_state \<times> APIMessage list) result" where
  "SocketUnRegister request st = Inr (st, [])"

definition APISession_process ::
  "('sk, 'pk) botan_ecdsa \<Rightarrow> (string \<Rightarrow> bytes) \<Rightarrow> (bytes \<Rightarrow> nat) \<Rightarrow> (nat \<Rightarrow> bytes) \<Rightarrow> nat \<Rightarrow> APIMessage \<Rightarrow>
   'sk api_state \<Rightarrow> ('sk api_state \<times> APIMessage list) result" where
  "APISession_process B keccak bi_decode bi_encode self request st =
     (case type_field request of
        NODE_REGISTER \<Rightarrow> NodeRegister self request st
      | NODE_UNREGISTER \<Rightarrow> NodeUnRegister request st
      | NODE_CONNECT \<Rightarrow> NodeConnect request st
      | NODE_ACCEPT \<Rightarrow> NodeAccept request st
      | NODE_LISTEN \<Rightarrow> NodeListen request st
      | NODE_BIND \<Rightarrow> NodeBind B keccak bi_decode bi_encode request st
      | SOCKET_UNREGISTER \<Rightarrow> SocketUnRegister request st)"

text \<open>A session working through the requests it receives, one after the other.\<close>

fun session_run ::
  "('sk, 'pk) botan_ecdsa \<Rightarrow> (string \<Rightarrow> bytes) \<Rightarrow> (bytes \<Rightarrow> nat) \<Rightarrow> (nat \<Rightarrow> bytes) \<Rightarrow> nat \<Rightarrow> APIMessage list \<Rightarrow>
   'sk api_state \<Rightarrow> ('sk api_state \<times> APIMessage list) result" where
  "session_run B keccak bi_decode bi_encode self [] st = Inr (st, [])"
| "session_run B keccak bi_decode bi_encode self (m # ms) st =
     bind_result (APISession_process B keccak bi_decode bi_encode self m st) (\<lambda>(st1, out1).
     bind_result (session_run B keccak bi_decode bi_encode self ms st1) (\<lambda>(st2, out2). Inr (st2, out1 @ out2)))"

subsection \<open>Node numbers\<close>

text \<open>
  The numbers in use are ascending and not zero, and the next number is the least that is not in use,
  zero when all are.
\<close>

definition ids_inv :: "APISession \<Rightarrow> bool" where
  "ids_inv s \<longleftrightarrow> sorted_wrt (<) (map fst (nodes s)) \<and> 0 \<notin> fst ` set (nodes s) \<and>
     next_node_id s \<notin> fst ` set (nodes s) \<and>
     (\<forall>i. i \<noteq> 0 \<and> (next_node_id s = 0 \<or> i < next_node_id s) \<longrightarrow> i \<in> fst ` set (nodes s))"

lemma ids_inv_distinct: "ids_inv s \<Longrightarrow> distinct (map fst (nodes s))"
  unfolding ids_inv_def by (metis strict_sorted_iff)

lemma set_omap_insert:
  "k \<notin> fst ` set m \<Longrightarrow> set (omap_insert k v m) = insert (k, v) (set m)"
  by (induction m) (auto simp: image_iff split: if_splits)

lemma keys_omap_insert: "fst ` set (omap_insert k v m) = insert k (fst ` set m)"
proof (induction m)
  case (Cons kv m)
  obtain k' v' where "kv = (k', v')" by (cases kv)
  with Cons.IH show ?case by (cases "k < k'"; cases "k = k'") (simp_all add: insert_commute)
qed simp

lemma sorted_omap_insert:
  "sorted_wrt (<) (map fst m) \<Longrightarrow> sorted_wrt (<) (map fst (omap_insert k v m))"
proof (induction m)
  case (Cons kv m)
  obtain k' v' where kv: "kv = (k', v')" by (cases kv)
  have "x \<in> fst ` set (omap_insert k v m) \<Longrightarrow> x = k \<or> x \<in> fst ` set m" for x
    by (simp add: keys_omap_insert)
  with Cons kv show ?case
    by (fastforce simp: not_less)
qed simp

lemma map_of_omap_insert:
  "k \<notin> fst ` set m \<Longrightarrow> map_of (omap_insert k v m) = (map_of m)(k \<mapsto> v)"
  by (induction m) (auto simp: fun_eq_iff)

lemma set_omap_erase: "set (omap_erase k m) = {kv \<in> set m. fst kv \<noteq> k}"
  by (auto simp: omap_erase_def)

lemma sorted_omap_erase:
  "sorted_wrt (<) (map fst m) \<Longrightarrow> sorted_wrt (<) (map fst (omap_erase k m))"
  by (induction m) (auto simp: omap_erase_def)

lemma map_of_omap_erase: "map_of (omap_erase k m) = (map_of m)(k := None)"
  by (induction m) (auto simp: omap_erase_def fun_eq_iff)

lemma dropWhile_sorted_set:
  "sorted_wrt (<) (map fst m) \<Longrightarrow> set (dropWhile (\<lambda>(k, _). k \<le> n) m) = {kv \<in> set m. n < fst (kv :: u32 \<times> 'v)}"
  by (induction m) (auto simp: not_le)

lemma sorted_dropWhile:
  "sorted_wrt (<) (map fst m) \<Longrightarrow> sorted_wrt (<) (map fst (dropWhile P m))"
  by (induction m) auto

text \<open>
  The loop over the numbers from \<open>n\<close> on: it returns the least number from \<open>n\<close> on that is not used,
  or zero when all are.
\<close>

text \<open>\<open>r\<close> is the least number from \<open>n\<close> on that is not in \<open>S\<close>, 0 if there is none.\<close>

definition least_free :: "u32 \<Rightarrow> u32 set \<Rightarrow> u32 \<Rightarrow> bool" where
  "least_free n S r \<longleftrightarrow> (r = 0 \<or> r \<notin> S \<and> n \<le> r) \<and>
     (\<forall>i. n \<noteq> 0 \<and> n \<le> i \<and> (r = 0 \<or> i < r) \<longrightarrow> i \<in> S)"

lemma least_free_insert:
  assumes "least_free (n + 1) S r" and "r \<noteq> 0 \<Longrightarrow> n + 1 \<noteq> 0"
  shows "least_free n (insert n S) r"
proof -
  have "r \<noteq> n \<and> n \<le> r" if "r \<noteq> 0"
    using u32_Suc_le [of n r] assms that by (auto simp: least_free_def)
  moreover have "i \<in> S" if "n \<noteq> i" "n \<le> i" "r = 0 \<or> i < r" for i
  proof -
    have "n < i" using that(1,2) by simp
    with u32_less_Suc [OF this] assms(1) that(3) show ?thesis by (auto simp: least_free_def)
  qed
  ultimately show ?thesis using assms(1) by (auto simp: least_free_def)
qed

lemma advance_id_least:
  fixes m :: "(u32 \<times> 'v) list"
  assumes "sorted_wrt (<) (map fst m)" and "\<And>k. k \<in> fst ` set m \<Longrightarrow> n \<noteq> 0 \<and> n \<le> k"
  shows "least_free n (fst ` set m) (advance_id n m)"
  using assms
proof (induction m arbitrary: n)
  case (Cons kv m)
  obtain k v where kv: "kv = (k, v)" by (cases kv)
  have n: "n \<noteq> 0" "n \<le> k" using Cons.prems(2) [of k] by (auto simp: kv)
  have above: "k < k'" if "k' \<in> fst ` set m" for k' using Cons.prems(1) that by (auto simp: kv)
  show ?case
  proof (cases "k \<le> n")
    case True
    with n have k: "k = n" by simp
    have succ: "n + 1 \<noteq> 0 \<and> n + 1 \<le> k'" if "k' \<in> fst ` set m" for k'
      using above [OF that] k by (simp add: u32_less_Suc)
    have "least_free (n + 1) (fst ` set m) (advance_id (n + 1) m)"
      by (rule Cons.IH) (use Cons.prems(1) succ in auto)
    moreover have "n + 1 \<noteq> 0" if "advance_id (n + 1) m \<noteq> 0"
      using that succ [of "fst (hd m)"] by (cases m) auto
    ultimately show ?thesis using n True by (simp add: kv k least_free_insert)
  next
    case False
    with n above have "advance_id n (kv # m) = n" "n \<notin> fst ` set (kv # m)" by (force simp: kv)+
    then show ?thesis using n(1) by (auto simp: least_free_def)
  qed
qed (simp add: least_free_def not_less)

lemma ids_inv_register:
  assumes "ids_inv s" and "next_node_id s \<noteq> 0"
    and m_def: "m = omap_insert (next_node_id s) v (nodes s)"
  shows "ids_inv (s\<lparr>nodes := m, next_node_id :=
    advance_id (next_node_id s + 1) (dropWhile (\<lambda>(k, _). k \<le> next_node_id s) m)\<rparr>)"
proof -
  let ?id = "next_node_id s" and ?K = "fst ` set (nodes s)"
  let ?d = "dropWhile (\<lambda>(k, _). k \<le> ?id) m"
  let ?r = "advance_id (?id + 1) ?d"
  have sorted: "sorted_wrt (<) (map fst m)"
    using assms(1) by (simp add: m_def ids_inv_def sorted_omap_insert)
  have keys: "fst ` set m = insert ?id ?K" by (simp add: m_def keys_omap_insert)
  have "fst ` set ?d = {k \<in> fst ` set m. ?id < k}"
    using dropWhile_sorted_set [OF sorted, of ?id] by auto
  then have d: "k \<in> fst ` set ?d \<longleftrightarrow> k \<in> ?K \<and> ?id < k" for k by (auto simp: keys)
  have adv: "(?r = 0 \<or> ?r \<notin> fst ` set ?d \<and> ?id + 1 \<le> ?r) \<and>
    (\<forall>i. ?id + 1 \<noteq> 0 \<and> ?id + 1 \<le> i \<and> (?r = 0 \<or> i < ?r) \<longrightarrow> i \<in> fst ` set ?d)"
    unfolding least_free_def [symmetric]
    using sorted_dropWhile [OF sorted] d u32_less_Suc by (intro advance_id_least) auto
  have free: "?r \<notin> insert ?id ?K"
  proof (cases "?r = 0")
    case True
    then show ?thesis using assms(1,2) by (auto simp: ids_inv_def)
  next
    case False
    have "?id + 1 \<noteq> 0"
    proof
      assume wrap: "?id + 1 = 0"
      then have "\<not> ?id < k" for k using u32_less_Suc [of ?id k] by blast
      then have "?d = []" using d by (cases ?d) force+
      with wrap False show False by simp
    qed
    then have "?id < ?r" using adv False u32_Suc_le by blast
    with adv False d [of ?r] show ?thesis by auto
  qed
  have used: "i \<in> insert ?id ?K" if "i \<noteq> 0" "?r = 0 \<or> i < ?r" for i
  proof (cases "?id < i")
    case True
    from u32_less_Suc [OF True] that adv d [of i] show ?thesis by blast
  next
    case False
    with that assms(1,2) show ?thesis by (auto simp: ids_inv_def not_less order_le_less)
  qed
  show ?thesis
    using assms(1,2) sorted free used by (auto simp: ids_inv_def keys)
qed

lemma ids_inv_unregister:
  assumes "ids_inv s" and "nid \<in> fst ` set (nodes s)"
    and s1_def: "s1 = s\<lparr>nodes := omap_erase nid (nodes s)\<rparr>"
  shows "ids_inv (if next_node_id s1 > nid \<or> next_node_id s1 = 0 then s1\<lparr>next_node_id := nid\<rparr> else s1)"
proof -
  have keys: "fst ` set (omap_erase nid (nodes s)) = fst ` set (nodes s) - {nid}"
    by (auto simp: set_omap_erase)
  have "nid \<noteq> 0" using assms(1,2) by (auto simp: ids_inv_def)
  with assms(1,2) show ?thesis
    by (auto simp: ids_inv_def s1_def keys sorted_omap_erase)
qed

lemma map_of_in_keys: "map_of m i = Some v \<Longrightarrow> i \<in> fst ` set m"
  by (metis domI dom_map_of_conv_image_fst)

lemma process_ids:
  assumes "ids_inv s" and "APISession_process B keccak dec enc self m (nm, s) = Inr ((nm', s'), out)"
  shows "ids_inv s'"
proof (cases "type_field m")
  case NODE_REGISTER
  with assms show ?thesis
    by (auto simp: APISession_process_def NodeRegister_def Let_def ids_inv_register split: if_splits prod.splits)
next
  case NODE_UNREGISTER
  with assms show ?thesis
    using ids_inv_unregister [OF assms(1) map_of_in_keys refl]
    by (auto simp: APISession_process_def NodeUnRegister_def Let_def result_simps split: option.splits)
next
  case NODE_LISTEN
  with assms show ?thesis
    by (auto simp: APISession_process_def NodeListen_def result_simps split: option.splits)
next
  case NODE_BIND
  with assms show ?thesis
    by (auto simp: APISession_process_def NodeBind_def result_simps split: option.splits prod.splits)
qed (use assms in \<open>simp_all add: APISession_process_def NodeConnect_def NodeAccept_def SocketUnRegister_def\<close>)

lemma session_run_ids:
  assumes "session_run B keccak dec enc self ms (nm, s) = Inr ((nm', s'), out)" and "ids_inv s"
  shows "ids_inv s'"
  using assms
proof (induction ms arbitrary: nm s out)
  case (Cons m ms)
  obtain nm1 s1 out1 out2 where "APISession_process B keccak dec enc self m (nm, s) = Inr ((nm1, s1), out1)"
    "session_run B keccak dec enc self ms (nm1, s1) = Inr ((nm', s'), out2)"
    using Cons.prems(1) by (auto simp: result_simps)
  with Cons.IH Cons.prems(2) process_ids show ?case by blast
qed simp

lemma ids_inv_new: "ids_inv APISession_new"
proof -
  have "\<not> (i \<noteq> 0 \<and> i < 1)" for i :: u32
    by (auto simp: word_less_nat_alt word_unat_eq_iff)
  then show ?thesis by (simp add: ids_inv_def APISession_new_def)
qed

subsection \<open>Ownership\<close>

definition session_nodes :: "APISession \<Rightarrow> nat set" where
  "session_nodes s = nt_node ` snd ` set (nodes s)"

definition api_inv :: "'sk api_state \<Rightarrow> bool" where
  "api_inv st \<longleftrightarrow> (case st of (nm, s) \<Rightarrow> nm_inv nm \<and> ids_inv s \<and>
     inj_on (\<lambda>(k, nt). nt_node nt) (set (nodes s)) \<and> session_nodes s \<subseteq> live_nodes nm)"

lemma register_inv:
  assumes "api_inv (nm, s)" and "NodeRegister self m (nm, s) = Inr ((nm', s'), out)"
  shows "api_inv (nm', s')"
proof (cases "next_node_id s = 0")
  case True
  with assms show ?thesis by (simp add: NodeRegister_def)
next
  case False
  obtain n nm1 where c: "createNode (Some self) nm = (n, nm1)" by fastforce
  let ?nt = "\<lparr>nt_node = n, next_socket_id = 1, nt_sockets = []\<rparr>"
  let ?m = "omap_insert (next_node_id s) ?nt (nodes s)"
  have s': "nm' = nm1" "s' = s\<lparr>nodes := ?m, next_node_id :=
      advance_id (next_node_id s + 1) (dropWhile (\<lambda>(k, _). k \<le> next_node_id s) ?m)\<rparr>"
    using assms(2) False c by (auto simp: NodeRegister_def Let_def)
  have inv: "nm_inv nm" "ids_inv s" "inj_on (\<lambda>(k, nt). nt_node nt) (set (nodes s))" "session_nodes s \<subseteq> live_nodes nm"
    using assms(1) by (simp_all add: api_inv_def)
  have own: "nm_inv nm1" "n \<notin> session_nodes s" "insert n (session_nodes s) \<subseteq> live_nodes nm1"
    using nm.owned_create [OF inv(1,4) c] by simp_all
  have set: "set ?m = insert (next_node_id s, ?nt) (set (nodes s))"
    using inv(2) by (simp add: ids_inv_def set_omap_insert)
  have "inj_on (\<lambda>(k, nt). nt_node nt) (set ?m)"
    unfolding set using inv(3) own(2) by (auto simp: inj_on_def session_nodes_def image_iff)
  moreover have "session_nodes s' \<subseteq> live_nodes nm1"
    using own(3) by (simp add: session_nodes_def s'(2) set)
  ultimately show ?thesis
    using own(1) ids_inv_register [OF inv(2) False refl, of ?nt] by (simp add: api_inv_def s')
qed

lemma unregister_inv:
  assumes "api_inv (nm, s)"
  shows "\<exists>nm' s' out. NodeUnRegister m (nm, s) = Inr ((nm', s'), out) \<and> api_inv (nm', s') \<and>
    (out = [m] \<or> out = [])"
proof (cases "map_of (nodes s) (u32_field (unregister_node_id m))")
  case None
  with assms show ?thesis by (simp add: NodeUnRegister_def Let_def remoteThrow_def)
next
  case (Some nt)
  let ?i = "u32_field (unregister_node_id m)"
  have inv: "nm_inv nm" "ids_inv s" "inj_on (\<lambda>(k, nt). nt_node nt) (set (nodes s))" "session_nodes s \<subseteq> live_nodes nm"
    using assms by (simp_all add: api_inv_def)
  have mem: "(?i, nt) \<in> set (nodes s)" using Some by (rule map_of_SomeD)
  then have "nt_node nt \<in> session_nodes s" by (force simp: session_nodes_def)
  then obtain nm' where nm': "destroyNode (nt_node nt) nm = Inr nm'" "nm_inv nm'"
    "session_nodes s - {nt_node nt} \<subseteq> live_nodes nm'"
    using nm.owned_destroy [OF inv(1,4)] by blast
  let ?s1 = "s\<lparr>nodes := omap_erase ?i (nodes s)\<rparr>"
  let ?s' = "if next_node_id ?s1 > ?i \<or> next_node_id ?s1 = 0 then ?s1\<lparr>next_node_id := ?i\<rparr> else ?s1"
  have nodes': "nodes ?s' = omap_erase ?i (nodes s)" by simp
  have "inj_on (\<lambda>(k, nt). nt_node nt) (set (omap_erase ?i (nodes s)))"
    using inv(3) by (rule inj_on_subset) (auto simp: set_omap_erase)
  moreover have "nt_node nt' \<noteq> nt_node nt" if "(k', nt') \<in> set (nodes s)" "k' \<noteq> ?i" for k' nt'
    using inj_onD [OF inv(3) _ that(1) mem] that(2) by auto
  then have "session_nodes ?s' \<subseteq> session_nodes s - {nt_node nt}"
    unfolding session_nodes_def nodes' by (force simp: set_omap_erase)
  ultimately have "api_inv (nm', ?s')"
    using nm'(2,3) ids_inv_unregister [OF inv(2) map_of_in_keys [OF Some] refl] unfolding api_inv_def nodes' prod.case
    by blast
  moreover have "NodeUnRegister m (nm, s) = Inr ((nm', ?s'), [m])"
    using Some nm'(1) by (simp add: NodeUnRegister_def Let_def)
  ultimately show ?thesis by blast
qed

lemma listen_inv:
  assumes "api_inv (nm, s)"
  shows "\<exists>nm' s' out. NodeListen m (nm, s) = Inr ((nm', s'), out) \<and> api_inv (nm', s') \<and>
    (out = [m] \<or> out = [])"
proof (cases "map_of (nodes s) (u32_field (listen_node_id m))")
  case None
  with assms show ?thesis by (simp add: NodeListen_def remoteThrow_def)
next
  case (Some nt)
  then have "nt_node nt \<in> session_nodes s" by (force simp: session_nodes_def dest: map_of_SomeD)
  with assms obtain n where n: "node_heap nm (nt_node nt) = Some n"
    by (auto simp: api_inv_def live_nodes_def)
  let ?nm' = "nm\<lparr>node_heap := (node_heap nm)(nt_node nt \<mapsto>
      Node_listen (u32_field (listen_max_connections m)) n)\<rparr>"
  have "nm_inv ?nm'"
    using assms n by (intro nm_inv_update) (simp_all add: api_inv_def Node_listen_def)
  moreover have "live_nodes ?nm' = live_nodes nm" using n by (auto simp: live_nodes_def)
  ultimately have "api_inv (?nm', s)" using assms by (simp add: api_inv_def)
  with Some n show ?thesis by (simp add: NodeListen_def)
qed

definition plain_request :: "APIMessage \<Rightarrow> bool" where
  "plain_request m \<longleftrightarrow> type_field m \<in> {NODE_REGISTER, NODE_UNREGISTER, NODE_LISTEN, SOCKET_UNREGISTER}"

lemma process_plain:
  assumes "api_inv st" and "plain_request m"
  shows "\<exists>st' out. APISession_process B keccak dec enc self m st = Inr (st', out) \<and> api_inv st' \<and>
    (out = [] \<or> (\<exists>r. out = [r] \<and> message_token r = message_token m))"
proof -
  obtain nm s where st: "st = (nm, s)" by (cases st)
  show ?thesis
  proof (cases "type_field m")
    case NODE_REGISTER
    obtain nm' s' out where r: "NodeRegister self m (nm, s) = Inr ((nm', s'), out)"
      "out = [] \<or> (\<exists>r. out = [r] \<and> message_token r = message_token m)"
      by (cases "next_node_id s = 0"; cases "createNode (Some self) nm")
        (simp_all add: NodeRegister_def remoteThrow_def Let_def)
    with register_inv [OF _ r(1)] assms(1) NODE_REGISTER show ?thesis
      by (auto simp: st APISession_process_def)
  next
    case NODE_UNREGISTER
    with unregister_inv [of nm s m] assms(1) show ?thesis by (auto simp: st APISession_process_def)
  next
    case NODE_LISTEN
    with listen_inv [of nm s m] assms(1) show ?thesis by (auto simp: st APISession_process_def)
  next
    case SOCKET_UNREGISTER
    with assms(1) show ?thesis by (simp add: APISession_process_def SocketUnRegister_def)
  qed (use assms(2) in \<open>simp_all add: plain_request_def\<close>)
qed

lemma session_run_plain:
  assumes "api_inv st" and "list_all plain_request ms"
  shows "\<exists>st' out. session_run B keccak dec enc self ms st = Inr (st', out) \<and> api_inv st' \<and>
    subseq (map message_token out) (map message_token ms)"
  using assms
proof (induction ms arbitrary: st)
  case (Cons m ms)
  obtain st1 out1 where 1: "APISession_process B keccak dec enc self m st = Inr (st1, out1)" "api_inv st1"
    "out1 = [] \<or> (\<exists>r. out1 = [r] \<and> message_token r = message_token m)"
    using process_plain [of st m B keccak dec enc self] Cons.prems by auto
  obtain st2 out2 where 2: "session_run B keccak dec enc self ms st1 = Inr (st2, out2)" "api_inv st2"
    "subseq (map message_token out2) (map message_token ms)"
    using Cons.IH [OF 1(2)] Cons.prems(2) by auto
  have "subseq (map message_token (out1 @ out2)) (map message_token (m # ms))"
    using 1(3) 2(3) by auto
  with 1(1) 2(1,2) show ?case by auto
qed simp

lemma api_inv_new: "nm_inv nm \<Longrightarrow> api_inv (nm, APISession_new)"
  by (simp add: api_inv_def ids_inv_new session_nodes_def) (simp add: APISession_new_def)

subsection \<open>Properties\<close>

text \<open>
  (C13) Whatever requests a session has worked through, the number it hands out next is the least one
  that is not in use, and zero exactly when all numbers but zero are in use; numbers in use are
  never zero and pairwise different.
\<close>

theorem next_id_least:
  assumes "session_run B keccak dec enc self ms (nm, APISession_new) = Inr ((nm', s), out)"
  shows "distinct (map fst (nodes s)) \<and> 0 \<notin> set (map fst (nodes s)) \<and>
    (next_node_id s = 0 \<longleftrightarrow> (\<forall>i. i \<noteq> 0 \<longrightarrow> i \<in> set (map fst (nodes s)))) \<and>
    next_node_id s \<notin> set (map fst (nodes s)) \<and>
    (\<forall>i. i \<noteq> 0 \<and> i \<notin> set (map fst (nodes s)) \<longrightarrow> next_node_id s \<noteq> 0 \<and> next_node_id s \<le> i)"
proof -
  have inv: "ids_inv s" using session_run_ids [OF assms ids_inv_new] .
  then have "distinct (map fst (nodes s))" by (rule ids_inv_distinct)
  moreover have "0 \<notin> set (map fst (nodes s))" "next_node_id s \<notin> set (map fst (nodes s))"
    using inv by (simp_all add: ids_inv_def)
  moreover have low: "i \<in> set (map fst (nodes s))" if "i \<noteq> 0" "next_node_id s = 0 \<or> i < next_node_id s" for i
    using inv that unfolding ids_inv_def list.set_map by blast
  moreover have "next_node_id s \<noteq> 0 \<and> next_node_id s \<le> i" if "i \<noteq> 0" "i \<notin> set (map fst (nodes s))" for i
    using low [OF that(1)] that(2) by (meson not_less)
  ultimately show ?thesis by blast
qed

definition register_request :: "u32 \<Rightarrow> APIMessage" where
  "register_request token = APIMessage_new\<lparr>am_type := Some NODE_REGISTER, message_token := Some token\<rparr>"

definition unregister_request :: "u32 \<Rightarrow> u32 \<Rightarrow> APIMessage" where
  "unregister_request token i =
     APIMessage_new\<lparr>am_type := Some NODE_UNREGISTER, message_token := Some token, unregister_node_id := Some i\<rparr>"

theorem next_id_least_witness:
  "\<exists>nm' s out. session_run plain_ecdsa bytes_of_string be_value be_bytes 0
      [register_request 1, register_request 2, register_request 3, unregister_request 4 2]
      (NodeManager_new, APISession_new) = Inr ((nm', s), out) \<and> next_node_id s = 2 \<and>
    next_node_id s \<notin> set (map fst (nodes s))"
proof -
  let ?ms = "[register_request 1, register_request 2, register_request 3, unregister_request 4 2]"
  let ?r = "session_run plain_ecdsa bytes_of_string be_value be_bytes 0 ?ms (NodeManager_new, APISession_new)"
  have "\<exists>nm' s out. ?r = Inr ((nm', s), out) \<and> next_node_id s = 2"
    by (simp add: register_request_def unregister_request_def APIMessage_new_def NodeManager_new_def
        APISession_new_def APISession_process_def type_field_def NodeRegister_def NodeUnRegister_def
        createNode_def destroyNode_def u32_field_def omap_erase_def Let_def)
  then obtain nm' s out where r: "?r = Inr ((nm', s), out)" "next_node_id s = 2" by blast
  from next_id_least [OF r(1)] r show ?thesis by blast
qed

text \<open>
  (C28) A registration is answered once, by the request itself with the number filled in; the number
  is the least free one, the session then knows the new node under it, every other number keeps its
  node, and the node is live in the manager and was not before.  With all numbers in use nothing
  happens and nothing is sent.
\<close>

theorem register_reply:
  assumes "api_inv (nm, s)" and "NodeRegister self m (nm, s) = Inr ((nm', s'), out)"
  shows "if \<forall>i. i \<noteq> 0 \<longrightarrow> i \<in> fst ` set (nodes s) then nm' = nm \<and> s' = s \<and> out = []
    else \<exists>i n. i \<noteq> 0 \<and> i \<notin> fst ` set (nodes s) \<and> (\<forall>j. j \<noteq> 0 \<and> j < i \<longrightarrow> j \<in> fst ` set (nodes s)) \<and>
      out = [m\<lparr>register_node_id := Some i\<rparr>] \<and>
      map_of (nodes s') = (map_of (nodes s))(i \<mapsto> \<lparr>nt_node = n, next_socket_id = 1, nt_sockets = []\<rparr>) \<and>
      n \<notin> live_nodes nm \<and> n \<in> live_nodes nm' \<and> api_inv (nm', s')"
proof (cases "next_node_id s = 0")
  case True
  then have "\<forall>i. i \<noteq> 0 \<longrightarrow> i \<in> fst ` set (nodes s)"
    using assms(1) by (auto simp: api_inv_def ids_inv_def)
  with True assms(2) show ?thesis by (simp add: NodeRegister_def remoteThrow_def)
next
  case False
  have ids: "ids_inv s" "nm_inv nm" using assms(1) by (simp_all add: api_inv_def)
  obtain n nm1 where c: "createNode (Some self) nm = (n, nm1)" by fastforce
  have n: "n \<notin> live_nodes nm" "n \<in> live_nodes nm1"
    using nm.create_law [OF ids(2) c] by simp_all
  have free: "next_node_id s \<notin> fst ` set (nodes s)"
    "\<forall>j. j \<noteq> 0 \<and> j < next_node_id s \<longrightarrow> j \<in> fst ` set (nodes s)"
    using ids(1) by (auto simp: ids_inv_def)
  have "nm' = nm1" "out = [m\<lparr>register_node_id := Some (next_node_id s)\<rparr>]"
    "map_of (nodes s') = (map_of (nodes s))(next_node_id s \<mapsto> \<lparr>nt_node = n, next_socket_id = 1, nt_sockets = []\<rparr>)"
    using assms(2) False c map_of_omap_insert [OF free(1)] by (auto simp: NodeRegister_def Let_def)
  with register_inv [OF assms] free False n show ?thesis by auto
qed

theorem register_reply_witness:
  "\<exists>nm' s'. NodeRegister 0 (register_request 9) (NodeManager_new :: nat NodeManager, APISession_new) =
     Inr ((nm', s'), [(register_request 9)\<lparr>register_node_id := Some 1\<rparr>]) \<and> api_inv (nm', s')"
proof -
  have inv: "api_inv (NodeManager_new :: nat NodeManager, APISession_new)"
    by (rule api_inv_new, rule nm_reach_inv, rule nm_start)
  obtain nm' s' out where r: "NodeRegister 0 (register_request 9) (NodeManager_new :: nat NodeManager, APISession_new) =
      Inr ((nm', s'), out)" and out: "out = [(register_request 9)\<lparr>register_node_id := Some 1\<rparr>]"
    by (simp add: NodeRegister_def APISession_new_def createNode_def Let_def)
  have "\<not> (\<forall>i. i \<noteq> 0 \<longrightarrow> i \<in> fst ` set (nodes APISession_new))"
    by (auto simp: APISession_new_def intro: exI [of _ "1 :: u32"])
  with register_reply [OF inv r] have "api_inv (nm', s')" by auto
  with r out show ?thesis by blast
qed

text \<open>
  (C29) A session that gets registrations, removals, listen requests and socket removals only, on
  whatever numbers, never fails: it owns distinct live nodes throughout, removing a number destroys
  exactly the node it stands for, and the replies carry the tokens of their requests in order.
\<close>

theorem plain_session_total:
  assumes "nm_inv nm" and "list_all plain_request ms"
  shows "\<exists>nm' s out. session_run B keccak dec enc self ms (nm, APISession_new) = Inr ((nm', s), out) \<and>
    nm_inv nm' \<and> session_nodes s \<subseteq> live_nodes nm' \<and> distinct (map (nt_node \<circ> snd) (nodes s)) \<and>
    subseq (map message_token out) (map message_token ms)"
proof -
  obtain st out where r: "session_run B keccak dec enc self ms (nm, APISession_new) = Inr (st, out)" "api_inv st"
    "subseq (map message_token out) (map message_token ms)"
    using session_run_plain [OF api_inv_new [OF assms(1)] assms(2), of B keccak dec enc self] by (elim exE conjE)
  obtain nm' s where st: "st = (nm', s)" by (cases st)
  have inv: "nm_inv nm'" "ids_inv s" "inj_on (\<lambda>(k, nt). nt_node nt) (set (nodes s))" "session_nodes s \<subseteq> live_nodes nm'"
    using r(2) by (simp_all add: api_inv_def st)
  have "distinct (nodes s)" using ids_inv_distinct [OF inv(2)] by (simp add: distinct_map)
  moreover have "inj_on (nt_node \<circ> snd) (set (nodes s))"
    using inv(3) by (simp add: comp_def case_prod_unfold)
  ultimately have "distinct (map (nt_node \<circ> snd) (nodes s))" by (simp add: distinct_map)
  with r(1,3) inv(1,4) show ?thesis unfolding st by (intro exI conjI)
qed

theorem plain_session_total_witness:
  "\<exists>nm' s out. session_run plain_ecdsa bytes_of_string be_value be_bytes 0
      [register_request 1, unregister_request 2 7, unregister_request 3 1] (NodeManager_new, APISession_new) =
      Inr ((nm', s), out) \<and> nm_inv nm'"
proof -
  have "nm_inv (NodeManager_new :: nat NodeManager)" by (rule nm_reach_inv, rule nm_start)
  moreover have "list_all plain_request [register_request 1, unregister_request 2 7, unregister_request 3 1]"
    by (simp add: plain_request_def type_field_def register_request_def unregister_request_def APIMessage_new_def)
  ultimately show ?thesis
    using plain_session_total [of NodeManager_new "[register_request 1, unregister_request 2 7, unregister_request 3 1]"
        plain_ecdsa bytes_of_string be_value be_bytes 0] by blast
qed

text \<open>
  An error is never told to the client: a request about a number that is not in use is answered
  with nothing and changes nothing, although the reply that would carry the error is built.  A request
  to connect or to accept ends the daemon.
\<close>

theorem errors_not_sent:
  assumes "map_of (nodes s) i = None"
  shows "NodeUnRegister (m\<lparr>unregister_node_id := Some i\<rparr>) (nm, s) = Inr ((nm, s), []) \<and>
    NodeListen (m\<lparr>listen_node_id := Some i\<rparr>) (nm, s) = Inr ((nm, s), []) \<and>
    NodeBind B keccak dec enc (m\<lparr>bind_node_id := Some i\<rparr>) (nm, s) = Inr ((nm, s), []) \<and>
    am_error (fst (remoteThrow m nonexistent_node)) =
      Some \<lparr>err_code = 259, err_what = ''Node doesn't exist'', err_category = ''p2pnet''\<rparr> \<and>
    NodeConnect m (nm, s) = Inl Terminate \<and> NodeAccept m (nm, s) = Inl Terminate"
  using assms
  by (simp add: NodeUnRegister_def NodeListen_def NodeBind_def NodeConnect_def NodeAccept_def remoteThrow_def
      u32_field_def category_message_def message_c_def)

theorem errors_not_sent_witness:
  "NodeListen (APIMessage_new\<lparr>listen_node_id := Some 5\<rparr>) (NodeManager_new :: nat NodeManager, APISession_new) =
     Inr ((NodeManager_new, APISession_new), [])"
  using errors_not_sent [of APISession_new 5 APIMessage_new "NodeManager_new :: nat NodeManager" plain_ecdsa
      bytes_of_string be_value be_bytes]
  by (simp add: APISession_new_def)

end
