(* ===== verification/API_Socket.thy ===== *)
theory API_Socket
  imports API_Session
begin

section \<open>The API socket (src/common/api/UnixAPISocket.h, UnixAPISocket.cpp)\<close>

text \<open>
  Client and daemon exchange messages over a Unix stream socket.  A message travels as its serialized
  bytes behind a 32-bit length in network byte order.  The serializer of the protocol library is the
  argument \<open>ser\<close>, what its parser leaves in a fresh message the argument \<open>parse\<close>.  The bytes of a
  stream are \<open>string\<close>s.  There are a synchronous and an asynchronous way to receive; the asynchronous
  one is a state machine that is fed the chunks in which the bytes arrive.
\<close>

subsection \<open>Socket paths and errors\<close>

definition getSocketPathList ::
  "(string \<Rightarrow> bool option) \<Rightarrow> environment \<Rightarrow> ConfigManager \<Rightarrow> string list result" where
  "getSocketPathList to_bool env config_instance =
     bind_result
       (if getPermissions env \<noteq> SYSTEM then
          bind_result (getValue to_bool config_instance ''api.unix.disable_user_sock'') (\<lambda>disabled.
            if \<not> disabled then
              bind_result (getValue Some config_instance ''api.unix.user_sock_name'') (\<lambda>name.
                Inr [getDirectory config_instance @ name])
            else Inr [])
        else Inr [])
       (\<lambda>path_list.
          bind_result (getValue Some config_instance ''api.unix.system_sock_path'') (\<lambda>p.
            Inr (path_list @ [p])))"

record boost_error =
  be_value_field :: int
  be_category :: string

definition no_error :: boost_error where
  "no_error = \<lparr>be_value_field = 0, be_category = ''system''\<rparr>"

text \<open>End of stream is an error of a category of its own with the number 2.\<close>

definition eof_error :: boost_error where
  "eof_error = \<lparr>be_value_field = 2, be_category = ''asio.misc''\<rparr>"

definition is_error :: "boost_error \<Rightarrow> bool" where
  "is_error e \<longleftrightarrow> be_value_field e \<noteq> 0"

record error_condition =
  cond_value :: int
  cond_category :: string

definition stdErrorFromBoostError :: "boost_error \<Rightarrow> error_condition" where
  "stdErrorFromBoostError e = \<lparr>cond_value = be_value_field e, cond_category = ''generic''\<rparr>"

definition is_cond :: "error_condition \<Rightarrow> bool" where
  "is_cond c \<longleftrightarrow> cond_value c \<noteq> 0"

subsection \<open>Sending\<close>

text \<open>
  \<^verbatim>\<open>htonl\<close> followed by the copy of the word's memory gives the bytes most significant first,
  \<^verbatim>\<open>ntohl\<close> of a word read from memory takes them in that order.
\<close>

definition MESSAGE_SIZE_LENGTH :: nat where
  "MESSAGE_SIZE_LENGTH = 4"

definition ntohl :: "string \<Rightarrow> u32" where
  "ntohl s = (case bytes_of_string s of
      [v0, v1, v2, v3] \<Rightarrow> word_of_be4 v0 v1 v2 v3 | _ \<Rightarrow> 0)"

definition generateSendString :: "string \<Rightarrow> string" where
  "generateSendString from =
     (let native_size = word_of_nat (length from) :: u32;
          charlen_s = string_of_bytes (be4_of_word native_size)
      in charlen_s @ from)"

text \<open>
  \<open>write_error\<close> is what the operating system says of the write.  The synchronous variant waits for
  it.  The asynchronous variant hands a buffer that points into a local variable to the library and
  returns; unless all of it is taken at once, it is read after the variable is gone.
\<close>

definition UnixAPISocket_send ::
  "(APIMessage \<Rightarrow> string) \<Rightarrow> boost_error \<Rightarrow> APIMessage \<Rightarrow> string \<Rightarrow> string \<times> error_condition" where
  "UnixAPISocket_send ser write_error data out =
     (let send_string = generateSendString (ser data)
      in (if is_error write_error then out else out @ send_string, stdErrorFromBoostError write_error))"

definition handleSend :: "boost_error \<Rightarrow> error_condition" where
  "handleSend e = stdErrorFromBoostError e"

definition UnixAPISocket_asyncSend ::
  "(APIMessage \<Rightarrow> string) \<Rightarrow> bool \<Rightarrow> boost_error \<Rightarrow> APIMessage \<Rightarrow> string \<Rightarrow> (string \<times> error_condition) result" where
  "UnixAPISocket_asyncSend ser taken_at_once write_error data out =
     (let send_string = generateSendString (ser data)
      in if is_error write_error then Inr (out, handleSend write_error)
         else if taken_at_once then Inr (out @ send_string, handleSend write_error)
         else Inl UndefinedBehaviour)"

subsection \<open>Receiving synchronously\<close>

text \<open>
  A read of exactly \<open>n\<close> bytes from a stream whose remaining bytes up to its end are \<open>inp\<close>.
\<close>

definition asio_read :: "nat \<Rightarrow> string \<Rightarrow> boost_error \<times> string \<times> string" where
  "asio_read n inp = (if n \<le> length inp then (no_error, take n inp, drop n inp) else (eof_error, inp, []))"

definition UnixAPISocket_receive ::
  "(string \<Rightarrow> APIMessage) \<Rightarrow> string \<Rightarrow> (APIMessage \<times> error_condition) \<times> string" where
  "UnixAPISocket_receive parse inp =
     (case asio_read MESSAGE_SIZE_LENGTH inp of (e1, char_message_size, inp1) \<Rightarrow>
        if is_error e1 then ((APIMessage_new, stdErrorFromBoostError e1), inp1)
        else
          let size = ntohl char_message_size
          in case asio_read (unat size) inp1 of (e2, buffer, inp2) \<Rightarrow>
               if is_error e2 then ((APIMessage_new, stdErrorFromBoostError e2), inp2)
               else ((parse buffer, stdErrorFromBoostError e2), inp2))"

subsection \<open>Receiving asynchronously\<close>

text \<open>
  The read operation that is under way: of the length, or of the body of the length read.
\<close>

datatype recv_op = ReadSize | ReadBody u32

definition asyncReceive :: recv_op where
  "asyncReceive = ReadSize"

definition handleReceiveSize ::
  "boost_error \<Rightarrow> string \<Rightarrow> (APIMessage \<times> error_condition) + recv_op" where
  "handleReceiveSize e char_message_size =
     (if is_error e then Inl (APIMessage_new, stdErrorFromBoostError e)
      else let size = ntohl char_message_size in Inr (ReadBody size))"

definition UnixAPISocket_handleReceive ::
  "(string \<Rightarrow> APIMessage) \<Rightarrow> boost_error \<Rightarrow> string \<Rightarrow> APIMessage \<times> error_condition" where
  "UnixAPISocket_handleReceive parse e message =
     (if is_error e then (APIMessage_new, stdErrorFromBoostError e)
      else (parse message, stdErrorFromBoostError e))"

text \<open>
  What the operation under way completes with: given the unread bytes and, once the stream has ended,
  the error it ended with.  \<open>Waiting\<close> leaves it under way.
\<close>

datatype completion = Waiting | Next recv_op string | Deliver "APIMessage \<times> error_condition" string

definition complete_read ::
  "(string \<Rightarrow> APIMessage) \<Rightarrow> boost_error option \<Rightarrow> recv_op \<Rightarrow> string \<Rightarrow> completion" where
  "complete_read parse ended op inp =
     (case op of
        ReadSize \<Rightarrow>
          if MESSAGE_SIZE_LENGTH \<le> length inp
          then (case handleReceiveSize no_error (take MESSAGE_SIZE_LENGTH inp) of
                  Inl d \<Rightarrow> Deliver d (drop MESSAGE_SIZE_LENGTH inp)
                | Inr op' \<Rightarrow> Next op' (drop MESSAGE_SIZE_LENGTH inp))
          else (case ended of
                  None \<Rightarrow> Waiting
                | Some e \<Rightarrow> (case handleReceiveSize e inp of
                      Inl d \<Rightarrow> Deliver d [] | Inr op' \<Rightarrow> Next op' []))
      | ReadBody sz \<Rightarrow>
          if unat sz \<le> length inp
          then Deliver (UnixAPISocket_handleReceive parse no_error (take (unat sz) inp)) (drop (unat sz) inp)
          else (case ended of
                  None \<Rightarrow> Waiting
                | Some e \<Rightarrow> Deliver (UnixAPISocket_handleReceive parse e inp) []))"

text \<open>
  The receive loop of a peer that starts the next read after every message: all messages the unread
  bytes hold, the operation then under way and the bytes left.
\<close>

function drain :: "(string \<Rightarrow> APIMessage) \<Rightarrow> recv_op \<Rightarrow> string \<Rightarrow> APIMessage list \<times> recv_op \<times> string" where
  "drain parse op inp =
     (case complete_read parse None op inp of
        Waiting \<Rightarrow> ([], op, inp)
      | Next op' inp' \<Rightarrow> drain parse op' inp'
      | Deliver (m, _) inp' \<Rightarrow> (case drain parse asyncReceive inp' of (ms, st) \<Rightarrow> (m # ms, st)))"
  by pat_completeness auto
termination
  by (relation "measure (\<lambda>(_, op, inp). 2 * length inp + (case op of ReadSize \<Rightarrow> 0 | ReadBody _ \<Rightarrow> 1))")
    (auto simp: complete_read_def asyncReceive_def handleReceiveSize_def MESSAGE_SIZE_LENGTH_def no_error_def
      is_error_def Let_def split: recv_op.splits if_splits)

declare drain.simps [simp del]

fun feed ::
  "(string \<Rightarrow> APIMessage) \<Rightarrow> string list \<Rightarrow> recv_op \<times> string \<Rightarrow> APIMessage list \<times> recv_op \<times> string" where
  "feed parse [] st = ([], st)"
| "feed parse (c # cs) (op, inp) =
     (case drain parse op (inp @ c) of (ms1, st1) \<Rightarrow>
      case feed parse cs st1 of (ms2, st2) \<Rightarrow> (ms1 @ ms2, st2))"

text \<open>The messages a peer gets that receives synchronously until the first error.\<close>

function receive_all :: "(string \<Rightarrow> APIMessage) \<Rightarrow> string \<Rightarrow> APIMessage list" where
  "receive_all parse inp =
     (case UnixAPISocket_receive parse inp of ((m, e), inp') \<Rightarrow>
        if is_cond e then [] else m # receive_all parse inp')"
  by pat_completeness auto
termination
  by (relation "measure (\<lambda>(_, inp). length inp)")
    (auto simp: UnixAPISocket_receive_def asio_read_def MESSAGE_SIZE_LENGTH_def no_error_def eof_error_def
      is_error_def is_cond_def stdErrorFromBoostError_def Let_def split: if_splits)

declare receive_all.simps [simp del]

subsection \<open>Framing\<close>

text \<open>
  What the users of the socket rely on: a framed payload is read back whole with the rest of the
  stream untouched, and a stream cut inside a frame yields nothing.
\<close>

locale framing =
  fixes frame :: "'p \<Rightarrow> string" and unframe :: "string \<Rightarrow> ('p \<times> string) option" and fits :: "'p \<Rightarrow> bool"
  assumes unframe_frame: "fits p \<Longrightarrow> unframe (frame p @ rest) = Some (p, rest)"
    and unframe_cut: "fits p \<Longrightarrow> n < length (frame p) \<Longrightarrow> unframe (take n (frame p)) = None"

fun unframe_n :: "(string \<Rightarrow> ('p \<times> string) option) \<Rightarrow> nat \<Rightarrow> string \<Rightarrow> 'p list \<times> string" where
  "unframe_n u 0 s = ([], s)"
| "unframe_n u (Suc n) s =
     (case u s of None \<Rightarrow> ([], s) | Some (p, s') \<Rightarrow> (case unframe_n u n s' of (ps, r) \<Rightarrow> (p # ps, r)))"

context framing begin

lemma stream_whole: "list_all fits ps \<Longrightarrow> unframe_n unframe (length ps) (concat (map frame ps) @ rest) = (ps, rest)"
  by (induction ps) (simp_all add: unframe_frame)

lemma stream_cut:
  assumes "list_all fits ps" and "n < length (concat (map frame ps))"
  shows "\<exists>k r. k < length ps \<and> unframe_n unframe (length ps) (take n (concat (map frame ps))) = (take k ps, r)"
  using assms
proof (induction ps arbitrary: n)
  case (Cons p ps)
  show ?case
  proof (cases "n < length (frame p)")
    case True
    with Cons.prems(1) unframe_cut [of p n] show ?thesis by (auto intro!: exI [of _ 0])
  next
    case False
    then have "n - length (frame p) < length (concat (map frame ps))" using Cons.prems(2) by simp
    with Cons.prems(1) obtain k r where "k < length ps"
      "unframe_n unframe (length ps) (take (n - length (frame p)) (concat (map frame ps))) = (take k ps, r)"
      using Cons.IH [of "n - length (frame p)"] by (auto simp: list_all_iff)
    with False Cons.prems(1) show ?thesis
      by (intro exI [of _ "Suc k"] exI [of _ r]) (simp add: unframe_frame)
  qed
qed simp

lemma frame_inj: "fits p \<Longrightarrow> fits q \<Longrightarrow> frame p = frame q \<Longrightarrow> p = q"
  using unframe_frame [of p "[]"] unframe_frame [of q "[]"] by simp

end

text \<open>The body of one frame, as both ways of receiving cut it off the stream.\<close>

definition cut_frame :: "string \<Rightarrow> (string \<times> string) option" where
  "cut_frame inp =
     (if length inp < 4 then None
      else let n = unat (ntohl (take 4 inp)); rest = drop 4 inp
           in if length rest < n then None else Some (take n rest, drop n rest))"

definition frame_fits :: "string \<Rightarrow> bool" where
  "frame_fits s \<longleftrightarrow> length s < 4294967296"

lemma ntohl_size_bytes [simp]: "ntohl (string_of_bytes (be4_of_word w)) = w"
  by (simp add: ntohl_def be4_of_word_def)

lemma length_size_bytes [simp]: "length (string_of_bytes (be4_of_word w)) = 4"
  by simp

interpretation unix_frame: framing generateSendString cut_frame frame_fits
proof
  fix p rest
  assume "frame_fits p"
  then show "cut_frame (generateSendString p @ rest) = Some (p, rest)"
    by (simp add: cut_frame_def generateSendString_def frame_fits_def unat_u32_of_nat Let_def)
next
  fix p n
  assume "frame_fits p" "n < length (generateSendString p)"
  then show "cut_frame (take n (generateSendString p)) = None"
    by (auto simp: cut_frame_def generateSendString_def frame_fits_def unat_u32_of_nat Let_def)
qed

lemmas socket_defs = complete_read_def handleReceiveSize_def UnixAPISocket_handleReceive_def asyncReceive_def
  MESSAGE_SIZE_LENGTH_def no_error_def is_error_def Let_def

lemma receive_cut_frame:
  "UnixAPISocket_receive parse inp =
     (case cut_frame inp of
        Some (b, rest) \<Rightarrow> ((parse b, stdErrorFromBoostError no_error), rest)
      | None \<Rightarrow> ((APIMessage_new, stdErrorFromBoostError eof_error), []))"
  by (auto simp: UnixAPISocket_receive_def asio_read_def cut_frame_def socket_defs eof_error_def)

lemma receive_all_cut_frame:
  "receive_all parse inp =
     (case cut_frame inp of None \<Rightarrow> [] | Some (b, rest) \<Rightarrow> parse b # receive_all parse rest)"
  by (subst receive_all.simps)
    (simp add: receive_cut_frame is_cond_def stdErrorFromBoostError_def no_error_def eof_error_def
      split: option.split)

lemma drain_size:
  "drain parse ReadSize inp =
     (if length inp < 4 then ([], ReadSize, inp) else drain parse (ReadBody (ntohl (take 4 inp))) (drop 4 inp))"
  by (subst drain.simps) (simp add: socket_defs)

lemma drain_body:
  "drain parse (ReadBody n) inp =
     (if length inp < unat n then ([], ReadBody n, inp)
      else case drain parse ReadSize (drop (unat n) inp) of (ms, st) \<Rightarrow> (parse (take (unat n) inp) # ms, st))"
  by (subst drain.simps) (simp add: socket_defs)

lemma drain_cut_frame:
  "cut_frame inp = Some (b, rest) \<Longrightarrow>
     drain parse ReadSize inp = (case drain parse ReadSize rest of (ms, st) \<Rightarrow> (parse b # ms, st))"
  "cut_frame inp = None \<Longrightarrow> fst (drain parse ReadSize inp) = []"
  by (auto simp: drain_size [of parse inp] drain_body cut_frame_def Let_def split: if_splits)

lemma drain_receive_all: "fst (drain parse ReadSize inp) = receive_all parse inp"
proof (induction "length inp" arbitrary: inp rule: less_induct)
  case less
  show ?case
  proof (cases "cut_frame inp")
    case None
    then show ?thesis by (simp add: drain_cut_frame(2) receive_all_cut_frame [of parse inp])
  next
    case (Some br)
    then obtain b rest where br: "cut_frame inp = Some (b, rest)" by (cases br) simp
    then have "length rest < length inp" by (auto simp: cut_frame_def Let_def split: if_splits)
    with less br show ?thesis
      by (simp add: drain_cut_frame(1) receive_all_cut_frame [of parse inp] case_prod_unfold)
  qed
qed

lemma drain_append:
  "drain parse op (a @ b) =
     (case drain parse op a of (ms1, op1, r1) \<Rightarrow>
      case drain parse op1 (r1 @ b) of (ms2, st) \<Rightarrow> (ms1 @ ms2, st))"
proof (induction "2 * length a + (case op of ReadSize \<Rightarrow> 0 | ReadBody _ \<Rightarrow> 1)" arbitrary: op a rule: less_induct)
  case less
  show ?case
  proof (cases op)
    case ReadSize
    show ?thesis
    proof (cases "length a < 4")
      case True
      then show ?thesis by (simp add: ReadSize drain_size [of parse a])
    next
      case False
      then show ?thesis
        using less [of "drop 4 a" "ReadBody (ntohl (take 4 a))"]
        by (simp add: ReadSize drain_size [of parse "a @ b"] drain_size [of parse a])
    qed
  next
    case (ReadBody n)
    show ?thesis
    proof (cases "length a < unat n")
      case True
      then show ?thesis by (simp add: ReadBody drain_body [of parse n a])
    next
      case False
      then show ?thesis
        using less [of "drop (unat n) a" ReadSize]
        by (simp add: ReadBody drain_body [of parse n "a @ b"] drain_body [of parse n a] case_prod_unfold)
    qed
  qed
qed

lemma feed_drain: "feed parse cs (op, inp) = drain parse op (inp @ concat cs)" if "drain parse op inp = ([], op, inp)"
  using that
proof (induction cs arbitrary: op inp)
  case (Cons c cs)
  obtain ms1 op1 r1 where d: "drain parse op (inp @ c) = (ms1, op1, r1)" by (cases "drain parse op (inp @ c)")
  have "drain parse op1 r1 = ([], op1, r1)"
    using drain_append [of parse op "inp @ c" "[]"] d by (auto split: prod.splits)
  from Cons.IH [OF this] show ?case
    using drain_append [of parse op "inp @ c" "concat cs"] by (simp add: d)
qed simp

definition frames :: "('m \<Rightarrow> string) \<Rightarrow> 'm list \<Rightarrow> string" where
  "frames ser ms = concat (map (\<lambda>m. generateSendString (ser m)) ms)"

lemma frames_simps [simp]:
  "frames ser [] = []" "frames ser (m # ms) = generateSendString (ser m) @ frames ser ms"
  "frames ser (ms @ ms') = frames ser ms @ frames ser ms'"
  by (simp_all add: frames_def)

lemma drain_frames:
  assumes "\<forall>m\<in>set ms. parse (ser m) = m \<and> frame_fits (ser m)"
  shows "drain parse ReadSize (frames ser ms @ rest) =
    (case drain parse ReadSize rest of (ms', st) \<Rightarrow> (ms @ ms', st))"
  using assms
proof (induction ms)
  case (Cons m ms)
  then show ?case
    using drain_cut_frame(1) [OF unix_frame.unframe_frame [of "ser m"], of parse] by (simp add: case_prod_unfold)
qed simp

lemma drain_Nil [simp]: "drain parse ReadSize [] = ([], ReadSize, [])"
  by (simp add: drain_size)

lemma feed_start: "feed parse cs (asyncReceive, []) = drain parse ReadSize (concat cs)"
  by (simp add: asyncReceive_def feed_drain)

subsection \<open>Properties\<close>

text \<open>
  (C11) However the bytes of a stream are cut into chunks on their way, the asynchronous receive loop
  delivers exactly the messages that the synchronous one reads from the whole stream before its
  first error.
\<close>

theorem async_equals_sync: "fst (feed parse cs (asyncReceive, [])) = receive_all parse (concat cs)"
  by (simp add: feed_start drain_receive_all)

text \<open>
  (C10) Messages written one after the other with \<^verbatim>\<open>send\<close> arrive at the other end complete, in order
  and unaltered, in whatever chunks the stream brings them; after a cut anywhere inside the stream
  the messages received are a prefix of those sent.  This holds as long as the parser inverts the
  serializer and no message takes \<open>2\<^sup>3\<^sup>2\<close> bytes.
\<close>

theorem api_stream:
  assumes "\<forall>m\<in>set ms. parse (ser m) = m \<and> length (ser m) < 4294967296"
    and "concat cs = foldl (\<lambda>out m. fst (UnixAPISocket_send ser no_error m out)) [] ms"
  shows "feed parse cs (asyncReceive, []) = (ms, asyncReceive, []) \<and>
    prefix (receive_all parse (take n (concat cs))) ms"
proof -
  have fits: "\<forall>m\<in>set ms. parse (ser m) = m \<and> frame_fits (ser m)"
    using assms(1) by (simp add: frame_fits_def)
  have written: "foldl (\<lambda>out m. fst (UnixAPISocket_send ser no_error m out)) out ms =
      out @ frames ser ms" for out
    by (induction ms arbitrary: out) (simp_all add: UnixAPISocket_send_def is_error_def no_error_def)
  have all: "drain parse ReadSize (concat cs) = (ms, ReadSize, [])"
    using drain_frames [OF fits, of "[]"] assms(2) written [of "[]"] by simp
  then have "prefix (fst (drain parse ReadSize (take n (concat cs)))) ms"
    using drain_append [of parse ReadSize "take n (concat cs)" "drop n (concat cs)"] by (auto split: prod.splits)
  with all show ?thesis by (simp add: feed_start drain_receive_all) (simp add: asyncReceive_def)
qed

theorem api_stream_witness:
  "feed (\<lambda>s. if s = ''abc'' then register_request 5 else unregister_request 6 1)
     [generateSendString ''abc'', generateSendString ''d''] (asyncReceive, []) =
     ([register_request 5, unregister_request 6 1], asyncReceive, [])"
  using api_stream [of "[register_request 5, unregister_request 6 1]"
      "\<lambda>s. if s = ''abc'' then register_request 5 else unregister_request 6 1"
      "\<lambda>m. if am_type m = Some NODE_REGISTER then ''abc'' else ''d''"
      "[generateSendString ''abc'', generateSendString ''d'']" 0]
  by (simp add: UnixAPISocket_send_def is_error_def no_error_def register_request_def unregister_request_def)

text \<open>
  (C33) The length in front of a message is its size modulo \<open>2\<^sup>3\<^sup>2\<close>: the receiver takes that many
  bytes for the message, and the bytes beyond them are read as the next length.
\<close>

theorem send_size_wraps:
  "UnixAPISocket_receive parse (fst (UnixAPISocket_send ser no_error m []) @ rest) =
     (let n = length (ser m) mod 4294967296
      in ((parse (take n (ser m)), \<lparr>cond_value = 0, cond_category = ''generic''\<rparr>), drop n (ser m) @ rest))"
proof -
  have size: "unat (word_of_nat (length (ser m)) :: u32) = length (ser m) mod 4294967296"
    by (simp add: unat_of_nat)
  have "cut_frame (generateSendString (ser m) @ rest) =
      (let n = length (ser m) mod 4294967296 in Some (take n (ser m), drop n (ser m) @ rest))"
    by (simp add: cut_frame_def generateSendString_def size Let_def)
  then show ?thesis
    by (simp add: receive_cut_frame UnixAPISocket_send_def is_error_def no_error_def Let_def
        stdErrorFromBoostError_def)
qed

end
