(* ===== verification/API_Server.thy ===== *)
theory API_Server
  imports API_Socket
begin

section \<open>The API server (src/daemon/api/UnixAPIServer.cpp, APIServer.cpp, APIManager.cpp)\<close>

text \<open>
  The server keeps one session per client connection, reads framed requests from each connection and
  lets the session answer them.  Sessions live on a heap; the server knows them by their addresses.
  The state of the daemon seen from here is the node manager together with the server.
\<close>

record UnixAPISession =
  us_session :: APISession
  us_read :: "recv_op option"
  us_in :: string
  us_out :: string
  us_write_error :: boost_error

record UnixAPIServer =
  api_sessions :: "nat set"
  session_heap :: "nat \<rightharpoonup> UnixAPISession"
  next_session :: nat
  acceptor_ptr :: "string option"
  socket_path :: string
  accept_pending :: bool

type_synonym 'sk daemon_state = "'sk NodeManager \<times> UnixAPIServer"

definition APIServer_new :: UnixAPIServer where
  "APIServer_new = \<lparr>api_sessions = {}, session_heap = Map.empty, next_session = 0, acceptor_ptr = None,
     socket_path = [], accept_pending = False\<rparr>"

definition UnixAPISession_new :: "boost_error \<Rightarrow> UnixAPISession" where
  "UnixAPISession_new werr = \<lparr>us_session = APISession_new, us_read = None, us_in = [], us_out = [],
     us_write_error = werr\<rparr>"

definition APIServer_dropSession :: "nat \<Rightarrow> UnixAPIServer \<Rightarrow> UnixAPIServer result" where
  "APIServer_dropSession session_ptr this =
     (if session_heap this session_ptr = None then Inl UndefinedBehaviour
      else Inr (this\<lparr>api_sessions := api_sessions this - {session_ptr},
                     session_heap := (session_heap this)(session_ptr := None)\<rparr>))"

text \<open>The destructor deletes the sessions that are left.\<close>

definition APIServer_delete :: "UnixAPIServer \<Rightarrow> UnixAPIServer result" where
  "APIServer_delete this =
     (if \<forall>p\<in>api_sessions this. session_heap this p \<noteq> None
      then Inr (this\<lparr>session_heap := session_heap this |` (- api_sessions this)\<rparr>)
      else Inl UndefinedBehaviour)"

definition APISession_dropSession :: "nat \<Rightarrow> UnixAPIServer \<Rightarrow> UnixAPIServer result" where
  "APISession_dropSession self parent_api_server = APIServer_dropSession self parent_api_server"

definition UnixAPISession_send ::
  "(APIMessage \<Rightarrow> string) \<Rightarrow> nat \<Rightarrow> APIMessage \<Rightarrow> UnixAPIServer \<Rightarrow> UnixAPIServer result" where
  "UnixAPISession_send ser self message srv =
     bind_result (deref (session_heap srv self)) (\<lambda>us.
       case UnixAPISocket_send ser (us_write_error us) message (us_out us) of (out, error_condition) \<Rightarrow>
         let srv1 = srv\<lparr>session_heap := (session_heap srv)(self \<mapsto> us\<lparr>us_out := out\<rparr>)\<rparr>
         in if is_cond error_condition then APISession_dropSession self srv1 else Inr srv1)"

fun send_all ::
  "(APIMessage \<Rightarrow> string) \<Rightarrow> nat \<Rightarrow> APIMessage list \<Rightarrow> UnixAPIServer \<Rightarrow> UnixAPIServer result" where
  "send_all ser self [] srv = Inr srv"
| "send_all ser self (m # ms) srv = bind_result (UnixAPISession_send ser self m srv) (send_all ser self ms)"

subsection \<open>Starting and accepting\<close>

text \<open>
  The paths are tried in order; a failure at the last one is thrown on.  \<open>acceptor_error\<close> is what the
  operating system says when a socket is to be opened at a path.
\<close>

fun listen_paths :: "(string \<Rightarrow> boost_error) \<Rightarrow> string list \<Rightarrow> string option result" where
  "listen_paths acceptor_error [] = Inr None"
| "listen_paths acceptor_error (p # ps) =
     (if is_error (acceptor_error p) then
        if ps = [] then Inl (LibraryException ''boost::system::system_error'')
        else listen_paths acceptor_error ps
      else Inr (Some p))"

definition UnixAPIServer_accept :: "UnixAPIServer \<Rightarrow> UnixAPIServer result" where
  "UnixAPIServer_accept this =
     (if acceptor_ptr this = None then Inl UndefinedBehaviour else Inr (this\<lparr>accept_pending := True\<rparr>))"

definition UnixAPIServer_new ::
  "(string \<Rightarrow> bool option) \<Rightarrow> (string \<Rightarrow> boost_error) \<Rightarrow> environment \<Rightarrow> ConfigManager \<Rightarrow> UnixAPIServer result" where
  "UnixAPIServer_new to_bool acceptor_error env config =
     bind_result (getSocketPathList to_bool env config) (\<lambda>path_list.
     bind_result (listen_paths acceptor_error path_list) (\<lambda>p.
       UnixAPIServer_accept (APIServer_new\<lparr>acceptor_ptr := p,
         socket_path := (case p of Some path \<Rightarrow> path | None \<Rightarrow> [])\<rparr>)))"

definition receiveLoop :: "nat \<Rightarrow> UnixAPIServer \<Rightarrow> UnixAPIServer result" where
  "receiveLoop session srv =
     bind_result (deref (session_heap srv session)) (\<lambda>us.
       Inr (srv\<lparr>session_heap := (session_heap srv)(session \<mapsto> us\<lparr>us_read := Some asyncReceive\<rparr>)\<rparr>))"

text \<open>
  The handler of a new connection; \<open>werr\<close> is what writes to that connection will say.  It does not
  look at the error of the accept.
\<close>

definition handleAccept :: "boost_error \<Rightarrow> UnixAPIServer \<Rightarrow> UnixAPIServer result" where
  "handleAccept werr this =
     (let new_session = next_session this;
          this1 = this\<lparr>session_heap := (session_heap this)(new_session \<mapsto> UnixAPISession_new werr),
                       next_session := Suc new_session, accept_pending := False,
                       api_sessions := insert new_session (api_sessions this)\<rparr>
      in bind_result (receiveLoop new_session this1) UnixAPIServer_accept)"

subsection \<open>Serving requests\<close>

definition UnixAPIServer_handleReceive ::
  "('sk, 'pk) botan_ecdsa \<Rightarrow> (string \<Rightarrow> bytes) \<Rightarrow> (bytes \<Rightarrow> nat) \<Rightarrow> (nat \<Rightarrow> bytes) \<Rightarrow> (APIMessage \<Rightarrow> string) \<Rightarrow>
   nat \<Rightarrow> APIMessage \<times> error_condition \<Rightarrow> 'sk daemon_state \<Rightarrow> 'sk daemon_state result" where
  "UnixAPIServer_handleReceive B keccak bi_decode bi_encode ser new_session received st =
     (case received of (message, error_condition) \<Rightarrow> case st of (nm, this) \<Rightarrow>
        if is_cond error_condition then
          bind_result (APIServer_dropSession new_session this) (\<lambda>this1. Inr (nm, this1))
        else
          bind_result (deref (session_heap this new_session)) (\<lambda>us.
          bind_result (APISession_process B keccak bi_decode bi_encode new_session message (nm, us_session us))
            (\<lambda>((nm1, s1), out).
          bind_result (send_all ser new_session out
              (this\<lparr>session_heap := (session_heap this)(new_session \<mapsto> us\<lparr>us_session := s1\<rparr>)\<rparr>)) (\<lambda>this1.
          bind_result (receiveLoop new_session this1) (\<lambda>this2. Inr (nm1, this2))))))"

fun handle_all ::
  "('sk, 'pk) botan_ecdsa \<Rightarrow> (string \<Rightarrow> bytes) \<Rightarrow> (bytes \<Rightarrow> nat) \<Rightarrow> (nat \<Rightarrow> bytes) \<Rightarrow> (APIMessage \<Rightarrow> string) \<Rightarrow>
   nat \<Rightarrow> APIMessage list \<Rightarrow> 'sk daemon_state \<Rightarrow> 'sk daemon_state result" where
  "handle_all B keccak dec enc ser sid [] st = Inr st"
| "handle_all B keccak dec enc ser sid (m # ms) st =
     bind_result (UnixAPIServer_handleReceive B keccak dec enc ser sid (m, stdErrorFromBoostError no_error) st)
       (handle_all B keccak dec enc ser sid ms)"

text \<open>
  Bytes arrive on a connection: the read under way and the ones that follow it complete as far as the
  bytes go, and each message is handled.  Bytes for a connection that is gone are lost.
\<close>

definition server_input ::
  "('sk, 'pk) botan_ecdsa \<Rightarrow> (string \<Rightarrow> bytes) \<Rightarrow> (bytes \<Rightarrow> nat) \<Rightarrow> (nat \<Rightarrow> bytes) \<Rightarrow> (APIMessage \<Rightarrow> string) \<Rightarrow>
   (string \<Rightarrow> APIMessage) \<Rightarrow> nat \<Rightarrow> string \<Rightarrow> 'sk daemon_state \<Rightarrow> 'sk daemon_state result" where
  "server_input B keccak dec enc ser parse sid arrived st =
     (case session_heap (snd st) sid of
        None \<Rightarrow> Inr st
      | Some us \<Rightarrow>
          (case us_read us of
             None \<Rightarrow> Inr (fst st, (snd st)\<lparr>session_heap :=
               (session_heap (snd st))(sid \<mapsto> us\<lparr>us_in := us_in us @ arrived\<rparr>)\<rparr>)
           | Some op \<Rightarrow>
               (case drain parse op (us_in us @ arrived) of (ms, op', rest) \<Rightarrow>
                  bind_result (handle_all B keccak dec enc ser sid ms (fst st, (snd st)\<lparr>session_heap :=
                      (session_heap (snd st))(sid \<mapsto> us\<lparr>us_in := rest\<rparr>)\<rparr>)) (\<lambda>(nm1, srv1).
                  bind_result (deref (session_heap srv1 sid)) (\<lambda>us1.
                    Inr (nm1, srv1\<lparr>session_heap :=
                      (session_heap srv1)(sid \<mapsto> us1\<lparr>us_read := Some op'\<rparr>)\<rparr>))))))"

fun server_inputs ::
  "('sk, 'pk) botan_ecdsa \<Rightarrow> (string \<Rightarrow> bytes) \<Rightarrow> (bytes \<Rightarrow> nat) \<Rightarrow> (nat \<Rightarrow> bytes) \<Rightarrow> (APIMessage \<Rightarrow> string) \<Rightarrow>
   (string \<Rightarrow> APIMessage) \<Rightarrow> nat \<Rightarrow> string list \<Rightarrow> 'sk daemon_state \<Rightarrow> 'sk daemon_state result" where
  "server_inputs B keccak dec enc ser parse sid [] st = Inr st"
| "server_inputs B keccak dec enc ser parse sid (c # cs) st =
     bind_result (server_input B keccak dec enc ser parse sid c st)
       (server_inputs B keccak dec enc ser parse sid cs)"

text \<open>The end of a connection completes the read under way with an error.\<close>

definition server_close ::
  "('sk, 'pk) botan_ecdsa \<Rightarrow> (string \<Rightarrow> bytes) \<Rightarrow> (bytes \<Rightarrow> nat) \<Rightarrow> (nat \<Rightarrow> bytes) \<Rightarrow> (APIMessage \<Rightarrow> string) \<Rightarrow>
   nat \<Rightarrow> 'sk daemon_state \<Rightarrow> 'sk daemon_state result" where
  "server_close B keccak dec enc ser sid st =
     UnixAPIServer_handleReceive B keccak dec enc ser sid (APIMessage_new, stdErrorFromBoostError eof_error) st"

subsection \<open>The manager of the servers\<close>

text \<open>
  A configuration error is thrown on, a failure of the socket is logged and leaves the daemon without
  an interface.
\<close>

definition APIManager_new ::
  "(string \<Rightarrow> bool option) \<Rightarrow> (string \<Rightarrow> boost_error) \<Rightarrow> environment \<Rightarrow> ConfigManager \<Rightarrow> UnixAPIServer list result" where
  "APIManager_new to_bool acceptor_error env config =
     bind_result (getValue to_bool config ''api.unix.enabled'') (\<lambda>enabled.
       if enabled then
         (case UnixAPIServer_new to_bool acceptor_error env config of
            Inr api_unix \<Rightarrow> Inr [api_unix]
          | Inl e \<Rightarrow> if e = LibraryException ''boost::system::system_error'' then Inr [] else Inl e)
       else Inr [])"

fun APIManager_delete :: "UnixAPIServer list \<Rightarrow> unit result" where
  "APIManager_delete [] = Inr ()"
| "APIManager_delete (server_ptr # rest) =
     bind_result (APIServer_delete server_ptr) (\<lambda>_. APIManager_delete rest)"

subsection \<open>Sessions do not disturb each other\<close>

text \<open>
  The accounting of one request: of the live nodes outside the session none is lost, and the nodes the
  session has afterwards are not among them.
\<close>

lemma session_nodes_erase:
  assumes "inj_on (\<lambda>(k, nt). nt_node nt) (set (nodes s))" and "map_of (nodes s) i = Some nt" and "ids_inv s"
  shows "nt_node ` snd ` set (omap_erase i (nodes s)) = session_nodes s - {nt_node nt}"
proof -
  have mem: "(i, nt) \<in> set (nodes s)" using assms(2) by (rule map_of_SomeD)
  have "nt_node nt' \<noteq> nt_node nt" if "(k, nt') \<in> set (nodes s)" "k \<noteq> i" for k nt'
    using inj_onD [OF assms(1) _ that(1) mem] that(2) by auto
  moreover have "k \<noteq> i" if "(k, nt') \<in> set (nodes s)" "nt_node nt' \<noteq> nt_node nt" for k nt'
    using eq_key_imp_eq_value [OF ids_inv_distinct [OF assms(3)] _ mem] that by auto
  ultimately have "fst kv \<noteq> i \<longleftrightarrow> nt_node (snd kv) \<noteq> nt_node nt" if "kv \<in> set (nodes s)" for kv
    using that by (cases kv) auto
  then have "set (omap_erase i (nodes s)) = {kv \<in> set (nodes s). nt_node (snd kv) \<noteq> nt_node nt}"
    unfolding set_omap_erase by blast
  then show ?thesis unfolding session_nodes_def image_image by auto
qed

lemma register_live:
  assumes "api_inv (nm, s)" and "NodeRegister self m (nm, s) = Inr ((nm', s'), out)"
  shows "live_nodes nm' = (live_nodes nm - session_nodes s) \<union> session_nodes s' \<and>
    session_nodes s' \<inter> (live_nodes nm - session_nodes s) = {}"
proof (cases "next_node_id s = 0")
  case True
  with assms show ?thesis by (auto simp: NodeRegister_def api_inv_def)
next
  case False
  obtain n nm1 where c: "createNode (Some self) nm = (n, nm1)" by fastforce
  have inv: "nm_inv nm" "ids_inv s" "session_nodes s \<subseteq> live_nodes nm" using assms(1) by (simp_all add: api_inv_def)
  have "nm' = nm1" "nodes s' = omap_insert (next_node_id s) \<lparr>nt_node = n, next_socket_id = 1, nt_sockets = []\<rparr> (nodes s)"
    using assms(2) False c by (auto simp: NodeRegister_def Let_def)
  then have "session_nodes s' = insert n (session_nodes s)"
    using inv(2) by (simp add: session_nodes_def ids_inv_def set_omap_insert)
  with nm.create_law [OF inv(1) c] \<open>nm' = nm1\<close> inv(3) show ?thesis by auto
qed

lemma unregister_live:
  assumes "api_inv (nm, s)" and "NodeUnRegister m (nm, s) = Inr ((nm', s'), out)"
  shows "live_nodes nm' = (live_nodes nm - session_nodes s) \<union> session_nodes s' \<and>
    session_nodes s' \<inter> (live_nodes nm - session_nodes s) = {}"
proof (cases "map_of (nodes s) (u32_field (unregister_node_id m))")
  case None
  with assms show ?thesis by (auto simp: NodeUnRegister_def Let_def api_inv_def)
next
  case (Some nt)
  have inv: "nm_inv nm" "inj_on (\<lambda>(k, nt). nt_node nt) (set (nodes s))" "session_nodes s \<subseteq> live_nodes nm" "ids_inv s"
    using assms(1) by (simp_all add: api_inv_def)
  have mem: "nt_node nt \<in> session_nodes s" using map_of_SomeD [OF Some] by (force simp: session_nodes_def)
  then obtain nm1 where nm1: "destroyNode (nt_node nt) nm = Inr nm1" "live_nodes nm1 = live_nodes nm - {nt_node nt}"
    using nm.destroy_law [OF inv(1)] inv(3) by blast
  have "nm' = nm1" "nodes s' = omap_erase (u32_field (unregister_node_id m)) (nodes s)"
    using assms(2) Some nm1(1) by (auto simp: NodeUnRegister_def Let_def split: if_splits)
  then have "nm' = nm1" "session_nodes s' = session_nodes s - {nt_node nt}"
    using session_nodes_erase [OF inv(2) Some inv(4)] by (simp_all add: session_nodes_def)
  with nm1(2) inv(3) mem show ?thesis by auto
qed

lemma process_plain_live:
  assumes "api_inv (nm, s)" and "plain_request m"
    and "APISession_process B keccak dec enc self m (nm, s) = Inr ((nm', s'), out)"
  shows "live_nodes nm' = (live_nodes nm - session_nodes s) \<union> session_nodes s' \<and>
    session_nodes s' \<inter> (live_nodes nm - session_nodes s) = {}"
proof (cases "type_field m")
  case NODE_REGISTER
  with assms(3) register_live [OF assms(1)] show ?thesis by (simp add: APISession_process_def)
next
  case NODE_UNREGISTER
  with assms(3) unregister_live [OF assms(1)] show ?thesis by (simp add: APISession_process_def)
next
  case NODE_LISTEN
  have "session_nodes s \<subseteq> live_nodes nm" using assms(1) by (simp add: api_inv_def)
  moreover have "s' = s \<and> live_nodes nm' = live_nodes nm"
    using assms(3) NODE_LISTEN
    by (auto simp: APISession_process_def NodeListen_def live_nodes_def result_simps deref_def split: option.splits if_splits)
  ultimately show ?thesis by auto
next
  case SOCKET_UNREGISTER
  with assms(1,3) show ?thesis by (auto simp: APISession_process_def SocketUnRegister_def api_inv_def)
qed (use assms(2) in \<open>simp_all add: plain_request_def\<close>)

definition server_inv :: "'sk daemon_state \<Rightarrow> bool" where
  "server_inv st \<longleftrightarrow> (case st of (nm, srv) \<Rightarrow>
     nm_inv nm \<and> api_sessions srv = dom (session_heap srv) \<and>
     (\<forall>i. next_session srv \<le> i \<longrightarrow> session_heap srv i = None) \<and> acceptor_ptr srv \<noteq> None \<and>
     (\<forall>i us. session_heap srv i = Some us \<longrightarrow>
        api_inv (nm, us_session us) \<and> us_read us \<noteq> None \<and> \<not> is_error (us_write_error us)) \<and>
     (\<forall>i j us vs. session_heap srv i = Some us \<and> session_heap srv j = Some vs \<and> i \<noteq> j \<longrightarrow>
        session_nodes (us_session us) \<inter> session_nodes (us_session vs) = {}))"

lemma send_all_ok:
  assumes "session_heap srv i = Some us" and "\<not> is_error (us_write_error us)"
  shows "send_all ser i ms srv = Inr (srv\<lparr>session_heap := (session_heap srv)(i \<mapsto>
    us\<lparr>us_out := us_out us @ frames ser ms\<rparr>)\<rparr>)"
  using assms
proof (induction ms arbitrary: srv us)
  case Nil
  then show ?case by (simp add: fun_upd_idem)
next
  case (Cons m ms)
  let ?us = "us\<lparr>us_out := us_out us @ generateSendString (ser m)\<rparr>"
  have "UnixAPISession_send ser i m srv = Inr (srv\<lparr>session_heap := (session_heap srv)(i \<mapsto> ?us)\<rparr>)"
    using Cons.prems by (simp add: UnixAPISession_send_def UnixAPISocket_send_def is_cond_def is_error_def
        stdErrorFromBoostError_def deref_def)
  moreover have "send_all ser i ms (srv\<lparr>session_heap := (session_heap srv)(i \<mapsto> ?us)\<rparr>) =
      Inr (srv\<lparr>session_heap := (session_heap srv)(i \<mapsto>
        ?us\<lparr>us_out := us_out ?us @ frames ser ms\<rparr>)\<rparr>)"
    using Cons.IH [of "srv\<lparr>session_heap := (session_heap srv)(i \<mapsto> ?us)\<rparr>" ?us] Cons.prems(2) by (simp add: fun_upd_same del: fun_upd_apply)
  ultimately show ?case by (simp del: fun_upd_apply)
qed

text \<open>A request on a session whose peer reads: the answers go out behind what was sent before.\<close>

lemma handleReceive_ok:
  assumes "session_heap srv i = Some us" and "\<not> is_error (us_write_error us)"
    and "APISession_process B keccak dec enc i m (nm, us_session us) = Inr ((nm', s'), out)"
  shows "UnixAPIServer_handleReceive B keccak dec enc ser i (m, stdErrorFromBoostError no_error) (nm, srv) =
    Inr (nm', srv\<lparr>session_heap := (session_heap srv)(i \<mapsto>
      us\<lparr>us_session := s', us_out := us_out us @ frames ser out,
         us_read := Some asyncReceive\<rparr>)\<rparr>)"
proof -
  let ?us = "us\<lparr>us_session := s'\<rparr>"
  have "send_all ser i out (srv\<lparr>session_heap := (session_heap srv)(i \<mapsto> ?us)\<rparr>) =
      Inr (srv\<lparr>session_heap := (session_heap srv)(i \<mapsto>
        ?us\<lparr>us_out := us_out ?us @ frames ser out\<rparr>)\<rparr>)"
    using send_all_ok [of "srv\<lparr>session_heap := (session_heap srv)(i \<mapsto> ?us)\<rparr>" i ?us ser out] assms(2) by simp
  with assms(1,3) show ?thesis
    by (simp add: UnixAPIServer_handleReceive_def is_cond_def stdErrorFromBoostError_def no_error_def
        receiveLoop_def deref_def)
qed

text \<open>The state of one session may change as long as it keeps to its own nodes.\<close>

lemma server_inv_update:
  assumes "server_inv (nm, srv)" and "session_heap srv i = Some us"
    and "api_inv (nm', us_session us')" and "us_read us' \<noteq> None" and "\<not> is_error (us_write_error us')"
    and other: "\<And>j vs. session_heap srv j = Some vs \<Longrightarrow> j \<noteq> i \<Longrightarrow>
      api_inv (nm', us_session vs) \<and> session_nodes (us_session vs) \<inter> session_nodes (us_session us') = {}"
  shows "server_inv (nm', srv\<lparr>session_heap := (session_heap srv)(i \<mapsto> us')\<rparr>)" (is "server_inv (nm', ?srv)")
  unfolding server_inv_def prod.case
proof (intro conjI allI impI)
  show "nm_inv nm'" using assms(3) by (simp add: api_inv_def)
  show "api_sessions ?srv = dom (session_heap ?srv)" using assms(1,2) by (auto simp: server_inv_def)
  show "acceptor_ptr ?srv \<noteq> None" using assms(1) by (simp add: server_inv_def)
next
  fix j
  assume "next_session ?srv \<le> j"
  then have "session_heap srv j = None" using assms(1) by (simp add: server_inv_def)
  with assms(2) show "session_heap ?srv j = None" by auto
next
  fix j vs
  assume "session_heap ?srv j = Some vs"
  then show "api_inv (nm', us_session vs)" "us_read vs \<noteq> None" "\<not> is_error (us_write_error vs)"
    using other [of j vs] assms(1,3-5) by (auto simp: server_inv_def split: if_splits)
next
  fix j k vs ws
  assume "session_heap ?srv j = Some vs \<and> session_heap ?srv k = Some ws \<and> j \<noteq> k"
  then show "session_nodes (us_session vs) \<inter> session_nodes (us_session ws) = {}"
    using other [of j vs] other [of k ws] assms(1) by (auto simp: server_inv_def split: if_splits)
qed

lemma process_update_inv:
  assumes "server_inv (nm, srv)" and "session_heap srv i = Some us" and "plain_request m"
    and "APISession_process B keccak dec enc i m (nm, us_session us) = Inr ((nm', us_session us'), out)"
    and "us_read us' \<noteq> None" and "\<not> is_error (us_write_error us')"
  shows "server_inv (nm', srv\<lparr>session_heap := (session_heap srv)(i \<mapsto> us')\<rparr>)"
proof -
  have inv: "api_inv (nm, us_session us)" using assms(1,2) by (simp add: server_inv_def)
  have p: "api_inv (nm', us_session us')"
    using process_plain [OF inv assms(3), of B keccak dec enc i] assms(4) by auto
  note live = process_plain_live [OF inv assms(3,4)]
  have "api_inv (nm', us_session vs) \<and> session_nodes (us_session vs) \<inter> session_nodes (us_session us') = {}"
    if "session_heap srv j = Some vs" "j \<noteq> i" for j vs
  proof -
    have "api_inv (nm, us_session vs)" "session_nodes (us_session vs) \<inter> session_nodes (us_session us) = {}"
      using assms(1,2) that by (auto simp: server_inv_def)
    moreover from this(1) have "session_nodes (us_session vs) \<subseteq> live_nodes nm" by (simp add: api_inv_def)
    ultimately show ?thesis using live p by (auto simp: api_inv_def)
  qed
  then show ?thesis using assms(1,2,5,6) p by (intro server_inv_update)
qed

lemma handleReceive_inv:
  assumes "server_inv (nm, srv)" and "session_heap srv i = Some us" and "plain_request m"
  shows "\<exists>st'. UnixAPIServer_handleReceive B keccak dec enc ser i (m, stdErrorFromBoostError no_error) (nm, srv) =
    Inr st' \<and> server_inv st'"
proof -
  have inv: "api_inv (nm, us_session us)" "\<not> is_error (us_write_error us)"
    using assms(1,2) by (simp_all add: server_inv_def)
  obtain nm' s' out where p: "APISession_process B keccak dec enc i m (nm, us_session us) = Inr ((nm', s'), out)"
    using process_plain [OF inv(1) assms(3), of B keccak dec enc i] by auto
  let ?us = "us\<lparr>us_session := s', us_out := us_out us @ frames ser out, us_read := Some asyncReceive\<rparr>"
  have "server_inv (nm', srv\<lparr>session_heap := (session_heap srv)(i \<mapsto> ?us)\<rparr>)"
    using process_update_inv [OF assms, of B keccak dec enc nm' ?us out] p inv(2) by simp
  with handleReceive_ok [OF assms(2) inv(2) p] show ?thesis by blast
qed

lemma handleAccept_inv:
  assumes "server_inv (nm, srv)" and "\<not> is_error e"
  shows "\<exists>srv'. handleAccept e srv = Inr srv' \<and> server_inv (nm, srv') \<and>
    api_sessions srv' = insert (next_session srv) (api_sessions srv) \<and> next_session srv \<notin> api_sessions srv \<and>
    session_heap srv' = (session_heap srv)(next_session srv \<mapsto> (UnixAPISession_new e)\<lparr>us_read := Some asyncReceive\<rparr>)"
proof -
  let ?n = "next_session srv"
  let ?us = "(UnixAPISession_new e)\<lparr>us_read := Some asyncReceive\<rparr>"
  let ?srv = "srv\<lparr>session_heap := (session_heap srv)(?n \<mapsto> ?us), next_session := Suc ?n, accept_pending := True,
      api_sessions := insert ?n (api_sessions srv)\<rparr>"
  have fresh: "session_heap srv ?n = None" and "acceptor_ptr srv \<noteq> None"
    using assms(1) by (simp_all add: server_inv_def)
  then have "handleAccept e srv = Inr ?srv"
    by (simp add: handleAccept_def receiveLoop_def UnixAPIServer_accept_def deref_def Let_def fun_upd_same
        del: fun_upd_apply)
  moreover have us: "us_session ?us = APISession_new" "us_read ?us \<noteq> None" "us_write_error ?us = e"
    by (simp_all add: UnixAPISession_new_def)
  have "session_nodes APISession_new = {}" by (simp add: session_nodes_def APISession_new_def)
  then have "server_inv (nm, ?srv)"
    using assms fresh us api_inv_new [of nm]
    by (simp add: server_inv_def)
  moreover have "?n \<notin> api_sessions srv" using assms(1) fresh by (auto simp: server_inv_def)
  ultimately show ?thesis by auto
qed

lemma close_inv:
  assumes "server_inv (nm, srv)" and "sid \<in> api_sessions srv"
  shows "\<exists>srv'. server_close B keccak dec enc ser sid (nm, srv) = Inr (nm, srv') \<and> server_inv (nm, srv') \<and>
    api_sessions srv' = api_sessions srv - {sid} \<and> (\<forall>i. i \<noteq> sid \<longrightarrow> session_heap srv' i = session_heap srv i)"
proof -
  obtain us where us: "session_heap srv sid = Some us" using assms by (auto simp: server_inv_def)
  let ?srv = "srv\<lparr>api_sessions := api_sessions srv - {sid}, session_heap := (session_heap srv)(sid := None)\<rparr>"
  have "server_close B keccak dec enc ser sid (nm, srv) = Inr (nm, ?srv)"
    using us by (simp add: server_close_def UnixAPIServer_handleReceive_def is_cond_def stdErrorFromBoostError_def
        eof_error_def APIServer_dropSession_def)
  moreover have "server_inv (nm, ?srv)"
    using assms(1) by (auto simp: server_inv_def split: if_splits)
  ultimately show ?thesis by auto
qed

inductive server_reach ::
  "('sk, 'pk) botan_ecdsa \<Rightarrow> (string \<Rightarrow> bytes) \<Rightarrow> (bytes \<Rightarrow> nat) \<Rightarrow> (nat \<Rightarrow> bytes) \<Rightarrow> (APIMessage \<Rightarrow> string) \<Rightarrow>
   'sk daemon_state \<Rightarrow> bool"
  for B keccak dec enc ser where
  server_start: "UnixAPIServer_new to_bool acceptor_error env config = Inr srv \<Longrightarrow>
     server_reach B keccak dec enc ser (NodeManager_new, srv)"
| server_accepts: "server_reach B keccak dec enc ser (nm, srv) \<Longrightarrow> \<not> is_error e \<Longrightarrow>
     handleAccept e srv = Inr srv' \<Longrightarrow> server_reach B keccak dec enc ser (nm, srv')"
| server_request: "server_reach B keccak dec enc ser st \<Longrightarrow> sid \<in> api_sessions (snd st) \<Longrightarrow> plain_request m \<Longrightarrow>
     UnixAPIServer_handleReceive B keccak dec enc ser sid (m, stdErrorFromBoostError no_error) st = Inr st' \<Longrightarrow>
     server_reach B keccak dec enc ser st'"
| server_closes: "server_reach B keccak dec enc ser st \<Longrightarrow> sid \<in> api_sessions (snd st) \<Longrightarrow>
     server_close B keccak dec enc ser sid st = Inr st' \<Longrightarrow> server_reach B keccak dec enc ser st'"

lemma server_start_inv:
  assumes "UnixAPIServer_new to_bool acceptor_error env config = Inr srv" and "nm_inv nm"
  shows "server_inv (nm, srv)"
  using assms
  by (auto simp: UnixAPIServer_new_def result_simps UnixAPIServer_accept_def APIServer_new_def server_inv_def
      split: if_splits)

lemma server_inv_sessionD: "server_inv (nm, srv) \<Longrightarrow> sid \<in> api_sessions srv \<Longrightarrow> \<exists>us. session_heap srv sid = Some us"
  by (auto simp: server_inv_def)

lemma server_reach_inv: "server_reach B keccak dec enc ser st \<Longrightarrow> server_inv st"
proof (induction rule: server_reach.induct)
  case (server_start to_bool acceptor_error env config srv)
  then show ?case by (rule server_start_inv) (rule nm_reach_inv, rule nm_start)
next
  case (server_accepts nm srv e srv')
  with handleAccept_inv [of nm srv e] show ?case by auto
next
  case (server_request st sid m st')
  obtain nm srv where st: "st = (nm, srv)" by (cases st)
  with server_request server_inv_sessionD [of nm srv sid] obtain us where "session_heap srv sid = Some us" by auto
  from handleReceive_inv [OF _ this server_request.hyps(3), of nm B keccak dec enc ser] server_request st
  show ?case by auto
next
  case (server_closes st sid st')
  obtain nm srv where st: "st = (nm, srv)" by (cases st)
  with server_closes close_inv [of nm srv sid B keccak dec enc ser] show ?case by auto
qed

subsection \<open>Bytes in, bytes out\<close>

lemma session_run_append:
  "session_run B keccak dec enc self (ms @ ms') st =
     bind_result (session_run B keccak dec enc self ms st) (\<lambda>(st1, out1).
     bind_result (session_run B keccak dec enc self ms' st1) (\<lambda>(st2, out2). Inr (st2, out1 @ out2)))"
proof (induction ms arbitrary: st)
  case Nil
  show ?case by (cases "session_run B keccak dec enc self ms' st") auto
next
  case (Cons m ms)
  show ?case
  proof (cases "APISession_process B keccak dec enc self m st")
    case (Inr r)
    obtain st1 out1 where r: "r = (st1, out1)" by (cases r)
    show ?thesis
    proof (cases "session_run B keccak dec enc self ms st1")
      case (Inr q)
      then show ?thesis
        using \<open>APISession_process B keccak dec enc self m st = Inr r\<close>
        by (cases q; cases "session_run B keccak dec enc self ms' (fst q)") (auto simp: r Cons.IH)
    qed (use Inr in \<open>simp add: r Cons.IH\<close>)
  qed simp
qed

lemma session_heap_same:
  "session_heap srv i = Some us \<Longrightarrow> srv\<lparr>session_heap := (session_heap srv)(i \<mapsto> us)\<rparr> = srv"
  by (simp add: fun_upd_idem)

lemma handle_all_session:
  assumes "session_heap srv sid = Some us" and "\<not> is_error (us_write_error us)" and "us_read us = Some op"
    and "session_run B keccak dec enc sid ms (nm, us_session us) = Inr ((nm', s'), out)"
  shows "\<exists>op'. handle_all B keccak dec enc ser sid ms (nm, srv) =
    Inr (nm', srv\<lparr>session_heap := (session_heap srv)(sid \<mapsto>
      us\<lparr>us_session := s', us_out := us_out us @ frames ser out, us_read := Some op'\<rparr>)\<rparr>)"
  using assms
proof (induction ms arbitrary: srv us nm op out)
  case Nil
  then have eq: "us\<lparr>us_session := s', us_out := us_out us @ frames ser out, us_read := Some op\<rparr> = us" by simp
  have "handle_all B keccak dec enc ser sid [] (nm, srv) = Inr (nm', srv)" using Nil.prems(4) by simp
  then show ?case by (intro exI [of _ op]) (simp only: eq session_heap_same [OF Nil.prems(1)])
next
  case (Cons m ms)
  obtain nm1 s1 out1 out2 where p: "APISession_process B keccak dec enc sid m (nm, us_session us) = Inr ((nm1, s1), out1)"
    and r: "session_run B keccak dec enc sid ms (nm1, s1) = Inr ((nm', s'), out2)" and out: "out = out1 @ out2"
    using Cons.prems(4) by (auto simp: result_simps)
  let ?us = "us\<lparr>us_session := s1, us_out := us_out us @ frames ser out1, us_read := Some asyncReceive\<rparr>"
  let ?srv = "srv\<lparr>session_heap := (session_heap srv)(sid \<mapsto> ?us)\<rparr>"
  have h: "UnixAPIServer_handleReceive B keccak dec enc ser sid (m, stdErrorFromBoostError no_error) (nm, srv) =
      Inr (nm1, ?srv)"
    using handleReceive_ok [OF Cons.prems(1,2) p] .
  obtain op' where "handle_all B keccak dec enc ser sid ms (nm1, ?srv) =
      Inr (nm', ?srv\<lparr>session_heap := (session_heap ?srv)(sid \<mapsto>
        ?us\<lparr>us_session := s', us_out := us_out ?us @ frames ser out2, us_read := Some op'\<rparr>)\<rparr>)"
    using Cons.IH [of ?srv ?us asyncReceive nm1 out2] Cons.prems(2) r by (auto simp: fun_upd_same simp del: fun_upd_apply)
  then show ?case by (intro exI [of _ op']) (simp add: h out del: fun_upd_apply)
qed

lemma server_input_session:
  assumes "session_heap srv sid = Some us" and "\<not> is_error (us_write_error us)" and "us_read us = Some op"
    and "drain parse op (us_in us @ c) = (ms, op', rest)"
    and "session_run B keccak dec enc sid ms (nm, us_session us) = Inr ((nm', s'), out)"
  shows "server_input B keccak dec enc ser parse sid c (nm, srv) =
    Inr (nm', srv\<lparr>session_heap := (session_heap srv)(sid \<mapsto>
      us\<lparr>us_in := rest, us_session := s', us_out := us_out us @ frames ser out, us_read := Some op'\<rparr>)\<rparr>)"
proof -
  let ?us = "us\<lparr>us_in := rest\<rparr>"
  let ?srv = "srv\<lparr>session_heap := (session_heap srv)(sid \<mapsto> ?us)\<rparr>"
  obtain op1 where "handle_all B keccak dec enc ser sid ms (nm, ?srv) =
      Inr (nm', ?srv\<lparr>session_heap := (session_heap ?srv)(sid \<mapsto>
        ?us\<lparr>us_session := s', us_out := us_out ?us @ frames ser out, us_read := Some op1\<rparr>)\<rparr>)"
    using handle_all_session [of ?srv sid ?us op B keccak dec enc ms nm nm' s' out ser] assms(2,3,5)
    by (auto simp: fun_upd_same simp del: fun_upd_apply)
  with assms(1,3,4) show ?thesis
    by (simp add: server_input_def deref_def fun_upd_same del: fun_upd_apply)
qed

lemma server_inputs_session:
  assumes "session_heap srv sid = Some us" and "\<not> is_error (us_write_error us)" and "us_read us = Some op"
    and "feed parse cs (op, us_in us) = (ms, op', rest)"
    and "session_run B keccak dec enc sid ms (nm, us_session us) = Inr ((nm', s'), out)"
  shows "server_inputs B keccak dec enc ser parse sid cs (nm, srv) =
    Inr (nm', srv\<lparr>session_heap := (session_heap srv)(sid \<mapsto>
      us\<lparr>us_in := rest, us_session := s', us_out := us_out us @ frames ser out, us_read := Some op'\<rparr>)\<rparr>)"
  using assms
proof (induction cs arbitrary: srv us op nm ms out)
  case Nil
  then have eq: "us\<lparr>us_in := rest, us_session := s', us_out := us_out us @ frames ser out, us_read := Some op'\<rparr> = us"
    by simp
  have "server_inputs B keccak dec enc ser parse sid [] (nm, srv) = Inr (nm', srv)" using Nil.prems(4,5) by simp
  then show ?case by (simp only: eq session_heap_same [OF Nil.prems(1)])
next
  case (Cons c cs)
  obtain ms1 op1 r1 where d: "drain parse op (us_in us @ c) = (ms1, op1, r1)" by (cases "drain parse op (us_in us @ c)")
  obtain ms2 where f: "feed parse cs (op1, r1) = (ms2, op', rest)" and ms: "ms = ms1 @ ms2"
    using Cons.prems(4) d by (auto split: prod.splits)
  obtain nm1 s1 out1 out2 where r1: "session_run B keccak dec enc sid ms1 (nm, us_session us) = Inr ((nm1, s1), out1)"
    and r2: "session_run B keccak dec enc sid ms2 (nm1, s1) = Inr ((nm', s'), out2)" and out: "out = out1 @ out2"
    using Cons.prems(5) by (auto simp: ms session_run_append result_simps)
  let ?us = "us\<lparr>us_in := r1, us_session := s1, us_out := us_out us @ frames ser out1, us_read := Some op1\<rparr>"
  let ?srv = "srv\<lparr>session_heap := (session_heap srv)(sid \<mapsto> ?us)\<rparr>"
  have "server_input B keccak dec enc ser parse sid c (nm, srv) = Inr (nm1, ?srv)"
    using server_input_session [OF Cons.prems(1-3) d r1] .
  moreover have "server_inputs B keccak dec enc ser parse sid cs (nm1, ?srv) =
      Inr (nm', ?srv\<lparr>session_heap := (session_heap ?srv)(sid \<mapsto>
        ?us\<lparr>us_in := rest, us_session := s', us_out := us_out ?us @ frames ser out2, us_read := Some op'\<rparr>)\<rparr>)"
    using Cons.IH [of ?srv ?us op1 ms2 nm1 out2] Cons.prems(2) f r2 by (simp add: fun_upd_same del: fun_upd_apply)
  ultimately show ?case by (simp add: out del: fun_upd_apply)
qed

subsection \<open>Properties\<close>

text \<open>
  (C4) The server implements the sessions: on a connection whose peer sends the frames of a sequence of
  requests, in whatever chunks they arrive, the server changes the node manager and the session as the
  session's handlers do on those requests, appends the frames of their replies to the connection in
  order, leaves every other session alone and waits for the next request.
\<close>

theorem server_refines_session:
  assumes "session_heap srv sid = Some us" and "us_read us = Some asyncReceive" and "us_in us = []"
    and "\<not> is_error (us_write_error us)"
    and "\<forall>m\<in>set ms. parse (ser m) = m \<and> length (ser m) < 4294967296"
    and "concat cs = frames ser ms"
    and "session_run B keccak dec enc sid ms (nm, us_session us) = Inr ((nm', s'), out)"
  shows "server_inputs B keccak dec enc ser parse sid cs (nm, srv) =
    Inr (nm', srv\<lparr>session_heap := (session_heap srv)(sid \<mapsto>
      us\<lparr>us_session := s', us_out := us_out us @ frames ser out\<rparr>)\<rparr>)"
proof -
  have "\<forall>m\<in>set ms. parse (ser m) = m \<and> frame_fits (ser m)"
    using assms(5) by (simp add: frame_fits_def)
  then have "feed parse cs (asyncReceive, us_in us) = (ms, asyncReceive, [])"
    using drain_frames [of ms parse ser "[]"] assms(3,6) by (simp add: feed_start) (simp add: asyncReceive_def)
  from server_inputs_session [OF assms(1,4,2) this assms(7), of ser]
  have "server_inputs B keccak dec enc ser parse sid cs (nm, srv) =
    Inr (nm', srv\<lparr>session_heap := (session_heap srv)(sid \<mapsto>
      us\<lparr>us_in := [], us_session := s', us_out := us_out us @ frames ser out, us_read := Some asyncReceive\<rparr>)\<rparr>)" .
  moreover have "us\<lparr>us_in := [], us_session := s', us_out := us_out us @ frames ser out, us_read := Some asyncReceive\<rparr> =
      us\<lparr>us_session := s', us_out := us_out us @ frames ser out\<rparr>"
    using assms(2,3) by (cases us) simp
  ultimately show ?thesis by (simp only:)
qed

theorem server_refines_session_witness:
  "\<exists>nm' srv' us'. server_inputs plain_ecdsa bytes_of_string be_value be_bytes (\<lambda>_. ''abc'') (\<lambda>_. register_request 5)
      0 [generateSendString ''abc''] (NodeManager_new, APIServer_new\<lparr>session_heap :=
        [0 \<mapsto> (UnixAPISession_new no_error)\<lparr>us_read := Some asyncReceive\<rparr>]\<rparr>) = Inr (nm', srv') \<and>
    session_heap srv' 0 = Some us' \<and> us_out us' = generateSendString ''abc''"
proof -
  let ?us = "(UnixAPISession_new no_error)\<lparr>us_read := Some asyncReceive\<rparr>"
  let ?srv = "APIServer_new\<lparr>session_heap := [0 \<mapsto> ?us]\<rparr>"
  obtain nm' s' out where run: "session_run plain_ecdsa bytes_of_string be_value be_bytes 0 [register_request 5]
      (NodeManager_new, us_session ?us) = Inr ((nm', s'), out)" and out: "length out = 1"
    by (simp add: UnixAPISession_new_def register_request_def APIMessage_new_def APISession_process_def type_field_def
        NodeRegister_def APISession_new_def createNode_def Let_def)
  then obtain m where "out = [m]" by (cases out) simp_all
  then have "server_inputs plain_ecdsa bytes_of_string be_value be_bytes (\<lambda>_. ''abc'') (\<lambda>_. register_request 5)
      0 [generateSendString ''abc''] (NodeManager_new, ?srv) =
    Inr (nm', ?srv\<lparr>session_heap := (session_heap ?srv)(0 \<mapsto>
      ?us\<lparr>us_session := s', us_out := us_out ?us @ generateSendString ''abc''\<rparr>)\<rparr>)"
    using server_refines_session [of ?srv 0 ?us "[register_request 5]" "\<lambda>_. register_request 5" "\<lambda>_. ''abc''"
        "[generateSendString ''abc'']" plain_ecdsa bytes_of_string be_value be_bytes NodeManager_new nm' s' out] run
    by (simp add: UnixAPISession_new_def is_error_def no_error_def)
  then show ?thesis by (simp add: UnixAPISession_new_def)
qed



text \<open>
  When the answer to a request cannot be written, the session deletes itself inside the handler,
  and the server goes on using it: the behaviour is undefined.
\<close>

theorem send_failure_undefined:
  assumes "session_heap srv sid = Some us" and "is_error (us_write_error us)"
    and "APISession_process B keccak dec enc sid m (nm, us_session us) = Inr (st', out)" and "out \<noteq> []"
  shows "UnixAPIServer_handleReceive B keccak dec enc ser sid (m, stdErrorFromBoostError no_error) (nm, srv) =
    Inl UndefinedBehaviour"
proof -
  obtain nm' s' where st': "st' = (nm', s')" by (cases st')
  obtain m1 ms where out: "out = m1 # ms" using assms(4) by (cases out) auto
  let ?srv = "srv\<lparr>session_heap := (session_heap srv)(sid \<mapsto> us\<lparr>us_session := s'\<rparr>)\<rparr>"
  obtain srv1 where "UnixAPISession_send ser sid m1 ?srv = Inr srv1" and gone: "session_heap srv1 sid = None"
    using assms(2) by (auto simp: UnixAPISession_send_def UnixAPISocket_send_def is_cond_def is_error_def
        stdErrorFromBoostError_def APISession_dropSession_def APIServer_dropSession_def deref_def Let_def)
  moreover have "bind_result (send_all ser sid ms srv1) (\<lambda>this1.
      bind_result (receiveLoop sid this1) (\<lambda>this2. Inr (nm', this2))) = Inl UndefinedBehaviour"
    using gone by (cases ms) (simp_all add: receiveLoop_def UnixAPISession_send_def deref_def)
  ultimately show ?thesis
    using assms(1,3) st' out
    by (simp add: UnixAPIServer_handleReceive_def is_cond_def stdErrorFromBoostError_def no_error_def deref_def
        bind_result_def cong: sum.case_cong split: sum.splits)
qed

theorem send_failure_undefined_witness:
  "UnixAPIServer_handleReceive plain_ecdsa bytes_of_string be_value be_bytes (\<lambda>_. []) 0
     (register_request 1, stdErrorFromBoostError no_error)
     (NodeManager_new, APIServer_new\<lparr>session_heap := [0 \<mapsto> UnixAPISession_new eof_error]\<rparr>) = Inl UndefinedBehaviour"
proof -
  let ?us = "UnixAPISession_new eof_error"
  obtain st' out where "APISession_process plain_ecdsa bytes_of_string be_value be_bytes 0 (register_request 1)
      (NodeManager_new, us_session ?us) = Inr (st', out)" "out \<noteq> []"
    by (simp add: UnixAPISession_new_def register_request_def APIMessage_new_def APISession_process_def type_field_def
        NodeRegister_def APISession_new_def createNode_def Let_def)
  then show ?thesis
    using send_failure_undefined [of "APIServer_new\<lparr>session_heap := [0 \<mapsto> ?us]\<rparr>" 0 ?us plain_ecdsa bytes_of_string
        be_value be_bytes "register_request 1" NodeManager_new st' out "\<lambda>_. []"]
    by (simp add: UnixAPISession_new_def is_error_def eof_error_def)
qed

end
