(* ===== verification/Client_Library.thy ===== *)
theory Client_Library
  imports API_Server
begin

section \<open>The client library (src/library)\<close>

text \<open>
  A program uses the daemon through nodes, sockets and contexts.  Each of their operations sends one
  request and waits for the reply that carries the request's token.  The session keeps a promise per
  token; a thread of its own receives the replies.  A call that waits for a reply that does not come
  never returns: that is \<open>None\<close> in the results of this theory.  The state of the connection is part of
  every result, also of the ones that throw.
\<close>

type_synonym ('s, 'a) call = "('s \<times> 'a result) option"

subsection \<open>Sessions (P2PSession.h, P2PSession.cpp)\<close>

record promise =
  promise_value :: "APIMessage option"
  future_retrieved :: bool

record P2PSession =
  awaiting_receive :: "u32 \<rightharpoonup> promise"
  next_msg_token :: u32
  session_read :: "recv_op option"
  io_service_work :: bool

definition P2PSession_new :: P2PSession where
  "P2PSession_new = \<lparr>awaiting_receive = Map.empty, next_msg_token = 0, session_read = None, io_service_work = True\<rparr>"

definition P2PSession_handleSend :: "error_condition \<Rightarrow> P2PSession \<Rightarrow> P2PSession" where
  "P2PSession_handleSend error this = this"

definition P2PSession_receiveLoop :: "P2PSession \<Rightarrow> P2PSession" where
  "P2PSession_receiveLoop this = this\<lparr>session_read := Some asyncReceive, io_service_work := False\<rparr>"

definition operation_aborted :: int where
  "operation_aborted = 125"

text \<open>
  Setting a promise twice throws in the receiving thread, which nobody catches there.
\<close>

definition P2PSession_handleReceive :: "APIMessage \<times> error_condition \<Rightarrow> P2PSession \<Rightarrow> P2PSession result" where
  "P2PSession_handleReceive received this =
     (case received of (message, error) \<Rightarrow>
        let token = u32_field (message_token message) in
        bind_result
          (if message_token message \<noteq> None then
             (case awaiting_receive this token of
                None \<Rightarrow> Inl UndefinedBehaviour
              | Some p \<Rightarrow>
                  if promise_value p \<noteq> None then Inl Terminate
                  else Inr (this\<lparr>awaiting_receive :=
                    (awaiting_receive this)(token \<mapsto> p\<lparr>promise_value := Some message\<rparr>)\<rparr>))
           else Inr this)
          (\<lambda>this1. Inr (if cond_value error \<noteq> operation_aborted then P2PSession_receiveLoop this1 else this1)))"

definition markMessage :: "APIMessage \<Rightarrow> P2PSession \<Rightarrow> (u32 \<times> APIMessage) \<times> P2PSession" where
  "markMessage message this =
     (let token = next_msg_token this
      in ((token, message\<lparr>message_token := Some token\<rparr>), this\<lparr>next_msg_token := token + 1\<rparr>))"

text \<open>
  The first half of \<^verbatim>\<open>clientExchange\<close>, up to the waiting: the token and the message that is sent.  A
  token whose promise is still waiting yields that promise, whose future has been taken already.
\<close>

definition exchange_send :: "APIMessage \<Rightarrow> P2PSession \<Rightarrow> P2PSession \<times> (u32 \<times> APIMessage) result" where
  "exchange_send request_message this =
     (case markMessage request_message this of ((token, marked), this1) \<Rightarrow>
        case awaiting_receive this1 token of
          None \<Rightarrow>
            (this1\<lparr>awaiting_receive := (awaiting_receive this1)(token \<mapsto>
               \<lparr>promise_value = None, future_retrieved = True\<rparr>)\<rparr>, Inr (token, marked))
        | Some p \<Rightarrow>
            if future_retrieved p then (this1, Inl (LibraryException ''std::future_error''))
            else (this1\<lparr>awaiting_receive := (awaiting_receive this1)(token \<mapsto>
               p\<lparr>future_retrieved := True\<rparr>)\<rparr>, Inr (token, marked)))"

text \<open>The second half: nothing happens as long as the promise has no value.\<close>

definition exchange_receive :: "u32 \<Rightarrow> P2PSession \<Rightarrow> (P2PSession, APIMessage) call" where
  "exchange_receive token this =
     (case awaiting_receive this token of
        None \<Rightarrow> None
      | Some p \<Rightarrow>
          (case promise_value p of
             None \<Rightarrow> None
           | Some reply_message \<Rightarrow>
               let this1 = this\<lparr>awaiting_receive := (awaiting_receive this)(token := None)\<rparr>
               in (case am_error reply_message of
                     Some e \<Rightarrow> Some (this1, Inl (SystemError (err_code e)))
                   | None \<Rightarrow> Some (this1, Inr reply_message))))"

fun receive_each :: "(APIMessage \<times> error_condition) list \<Rightarrow> P2PSession \<Rightarrow> P2PSession result" where
  "receive_each [] this = Inr this"
| "receive_each (r # rs) this = bind_result (P2PSession_handleReceive r this) (receive_each rs)"

text \<open>
  A whole exchange over a connection: \<open>peer\<close> is what happens at the other end of it with the message
  sent, and what it sends back.
\<close>

definition clientExchange ::
  "(APIMessage \<Rightarrow> 'd \<Rightarrow> 'd \<times> (APIMessage \<times> error_condition) list) \<Rightarrow> APIMessage \<Rightarrow> P2PSession \<times> 'd \<Rightarrow>
   (P2PSession \<times> 'd, APIMessage) call" where
  "clientExchange peer request_message st =
     (case st of (this, d) \<Rightarrow>
        case exchange_send request_message this of
          (this1, Inl e) \<Rightarrow> Some ((this1, d), Inl e)
        | (this1, Inr (token, marked)) \<Rightarrow>
            (case peer marked d of (d1, replies) \<Rightarrow>
               case receive_each replies this1 of
                 Inl e \<Rightarrow> Some ((this1, d1), Inl e)
               | Inr this2 \<Rightarrow>
                   map_option (\<lambda>(this3, r). ((this3, d1), r)) (exchange_receive token this2)))"

subsection \<open>Daemon connections (P2PDaemon.cpp, daemon_conn)\<close>

datatype sock_ptr = NullSock | LiveSock | FreedSock

record P2PUnixDaemon =
  m_socket :: sock_ptr
  m_socket_path :: string
  ud_connected :: bool
  daemon_session :: P2PSession

definition P2PDaemon_receiveLoop :: "P2PUnixDaemon \<Rightarrow> P2PUnixDaemon" where
  "P2PDaemon_receiveLoop this = this\<lparr>daemon_session := P2PSession_receiveLoop (daemon_session this)\<rparr>"

definition P2PUnixDaemon_of_session :: "P2PSession \<Rightarrow> P2PUnixDaemon" where
  "P2PUnixDaemon_of_session session =
     \<lparr>m_socket = NullSock, m_socket_path = [], ud_connected = False, daemon_session = session\<rparr>"

text \<open>
  Connecting tries the same paths as the server.  \<open>connect_error\<close> is what the operating system says.
\<close>

fun connect_paths :: "(string \<Rightarrow> boost_error) \<Rightarrow> string list \<Rightarrow> string \<Rightarrow> (string \<times> bool) \<times> unit result" where
  "connect_paths connect_error [] path = ((path, False), Inr ())"
| "connect_paths connect_error (p # ps) path =
     (if is_error (connect_error p) then
        if ps = [] then ((p, False), Inl (SystemError (be_value_field (connect_error p))))
        else connect_paths connect_error ps p
      else ((p, True), Inr ()))"

definition P2PUnixDaemon_connect ::
  "(string \<Rightarrow> boost_error) \<Rightarrow> string list result \<Rightarrow> P2PUnixDaemon \<Rightarrow> P2PUnixDaemon \<times> unit result" where
  "P2PUnixDaemon_connect connect_error path_list this =
     (let this1 = this\<lparr>m_socket := LiveSock, ud_connected := False\<rparr> in
      case path_list of
        Inl e \<Rightarrow> (this1, Inl e)
      | Inr paths \<Rightarrow>
          (case connect_paths connect_error paths (m_socket_path this1) of
             ((path, ok), Inl e) \<Rightarrow> (this1\<lparr>m_socket_path := path, ud_connected := ok\<rparr>, Inl e)
           | ((path, ok), Inr _) \<Rightarrow>
               (P2PDaemon_receiveLoop (this1\<lparr>m_socket_path := path, ud_connected := ok\<rparr>), Inr ())))"

definition P2PUnixDaemon_connect_path ::
  "(string \<Rightarrow> boost_error) \<Rightarrow> string \<Rightarrow> P2PUnixDaemon \<Rightarrow> P2PUnixDaemon \<times> unit result" where
  "P2PUnixDaemon_connect_path connect_error path this =
     (let this1 = this\<lparr>m_socket := LiveSock, ud_connected := False, m_socket_path := path\<rparr>
      in if is_error (connect_error path)
         then (this1, Inl (SystemError (be_value_field (connect_error path))))
         else (P2PDaemon_receiveLoop (this1\<lparr>ud_connected := True\<rparr>), Inr ()))"

definition P2PUnixDaemon_new ::
  "(string \<Rightarrow> boost_error) \<Rightarrow> string list result \<Rightarrow> P2PUnixDaemon \<times> unit result" where
  "P2PUnixDaemon_new connect_error path_list =
     P2PUnixDaemon_connect connect_error path_list (P2PUnixDaemon_of_session P2PSession_new)"

definition is_connected :: "P2PUnixDaemon \<Rightarrow> bool" where
  "is_connected this = ud_connected this"

definition P2PUnixDaemon_asyncSend ::
  "(APIMessage \<Rightarrow> string) \<Rightarrow> bool \<Rightarrow> boost_error \<Rightarrow> APIMessage \<Rightarrow> string \<Rightarrow> P2PUnixDaemon \<Rightarrow>
   (string \<times> error_condition) result" where
  "P2PUnixDaemon_asyncSend ser taken_at_once write_error data out this =
     (if m_socket this = LiveSock then UnixAPISocket_asyncSend ser taken_at_once write_error data out
      else Inl UndefinedBehaviour)"

definition P2PUnixDaemon_asyncReceive :: "P2PUnixDaemon \<Rightarrow> P2PUnixDaemon result" where
  "P2PUnixDaemon_asyncReceive this =
     (if m_socket this = LiveSock
      then Inr (this\<lparr>daemon_session := (daemon_session this)\<lparr>session_read := Some asyncReceive\<rparr>\<rparr>)
      else Inl UndefinedBehaviour)"

text \<open>\<^verbatim>\<open>disconnect\<close> deletes the socket and keeps the pointer.\<close>

definition P2PUnixDaemon_disconnect :: "P2PUnixDaemon \<Rightarrow> (int \<times> P2PUnixDaemon) result" where
  "P2PUnixDaemon_disconnect this =
     (case m_socket this of
        FreedSock \<Rightarrow> Inl UndefinedBehaviour
      | LiveSock \<Rightarrow> Inr (0, this\<lparr>m_socket := FreedSock, ud_connected := False\<rparr>)
      | NullSock \<Rightarrow> Inr (0, this\<lparr>ud_connected := False\<rparr>))"

definition P2PUnixDaemon_delete :: "P2PUnixDaemon \<Rightarrow> unit result" where
  "P2PUnixDaemon_delete this = bind_result (P2PUnixDaemon_disconnect this) (\<lambda>_. Inr ())"

text \<open>The automatic connection holds a Unix connection on its own session and forwards to it.\<close>

record P2PAutoDaemon =
  underlying_daemon :: P2PUnixDaemon

definition P2PAutoDaemon_of_session :: "P2PSession \<Rightarrow> P2PAutoDaemon" where
  "P2PAutoDaemon_of_session session = \<lparr>underlying_daemon = P2PUnixDaemon_of_session session\<rparr>"

definition P2PAutoDaemon_connect ::
  "(string \<Rightarrow> boost_error) \<Rightarrow> string list result \<Rightarrow> P2PAutoDaemon \<Rightarrow> P2PAutoDaemon \<times> unit result" where
  "P2PAutoDaemon_connect connect_error path_list this =
     (case P2PUnixDaemon_connect connect_error path_list (underlying_daemon this) of
        (u, r) \<Rightarrow> (this\<lparr>underlying_daemon := u\<rparr>, r))"

definition P2PAutoDaemon_new ::
  "(string \<Rightarrow> boost_error) \<Rightarrow> string list result \<Rightarrow> P2PAutoDaemon \<times> unit result" where
  "P2PAutoDaemon_new connect_error path_list =
     P2PAutoDaemon_connect connect_error path_list (P2PAutoDaemon_of_session P2PSession_new)"

definition P2PAutoDaemon_asyncSend ::
  "(APIMessage \<Rightarrow> string) \<Rightarrow> bool \<Rightarrow> boost_error \<Rightarrow> APIMessage \<Rightarrow> string \<Rightarrow> P2PAutoDaemon \<Rightarrow>
   (string \<times> error_condition) result" where
  "P2PAutoDaemon_asyncSend ser taken_at_once write_error data out this =
     P2PUnixDaemon_asyncSend ser taken_at_once write_error data out (underlying_daemon this)"

definition P2PAutoDaemon_asyncReceive :: "P2PAutoDaemon \<Rightarrow> P2PAutoDaemon result" where
  "P2PAutoDaemon_asyncReceive this =
     bind_result (P2PUnixDaemon_asyncReceive (underlying_daemon this)) (\<lambda>u. Inr (this\<lparr>underlying_daemon := u\<rparr>))"

definition P2PAutoDaemon_is_connected :: "P2PAutoDaemon \<Rightarrow> bool" where
  "P2PAutoDaemon_is_connected this = is_connected (underlying_daemon this)"

definition P2PAutoDaemon_disconnect :: "P2PAutoDaemon \<Rightarrow> (int \<times> P2PAutoDaemon) result" where
  "P2PAutoDaemon_disconnect this =
     bind_result (P2PUnixDaemon_disconnect (underlying_daemon this)) (\<lambda>(r, u).
       Inr (r, this\<lparr>underlying_daemon := u\<rparr>))"

definition P2PAutoDaemon_delete :: "P2PAutoDaemon \<Rightarrow> unit result" where
  "P2PAutoDaemon_delete this = P2PUnixDaemon_delete (underlying_daemon this)"

subsection \<open>Nodes (Impl.h, P2PNode.cpp)\<close>

text \<open>
  \<open>exchange\<close> is the \<^verbatim>\<open>clientExchange\<close> of the connection a node was made on.  \<open>lift_call\<close> continues a
  call with what it returned and lets an exception pass.
\<close>

type_synonym 's exchange = "APIMessage \<Rightarrow> 's \<Rightarrow> ('s, APIMessage) call"

definition lift_call :: "('s, 'a) call \<Rightarrow> ('a \<Rightarrow> 'b result) \<Rightarrow> ('s, 'b) call" where
  "lift_call c f = map_option (\<lambda>(s, r). (s, bind_result r f)) c"

record 'sk P2PNode =
  impl_node_id :: u32
  m_bound_private_key :: "'sk PrivateKeyDSA"

record P2PSocket =
  sock_node_id :: u32
  sock_socket_id :: u32
  m_remote_sh :: string

definition P2PNode_new :: "'s exchange \<Rightarrow> 's \<Rightarrow> ('s, 'sk P2PNode) call" where
  "P2PNode_new exchange s =
     (let message_request = APIMessage_new\<lparr>am_type := Some NODE_REGISTER\<rparr>
      in lift_call (exchange message_request s) (\<lambda>message_reply.
           Inr \<lparr>impl_node_id = u32_field (register_node_id message_reply), m_bound_private_key = PrivateKeyDSA_new\<rparr>))"

text \<open>
  The destructor catches system errors; any other exception that leaves a destructor ends the program.
\<close>

definition swallow_system_error :: "'a result \<Rightarrow> unit result" where
  "swallow_system_error r =
     (case r of
        Inr _ \<Rightarrow> Inr ()
      | Inl (SystemError _) \<Rightarrow> Inr ()
      | Inl UndefinedBehaviour \<Rightarrow> Inl UndefinedBehaviour
      | Inl _ \<Rightarrow> Inl Terminate)"

definition P2PNode_delete :: "'s exchange \<Rightarrow> 'sk P2PNode \<Rightarrow> 's \<Rightarrow> ('s, unit) call" where
  "P2PNode_delete exchange this s =
     (let message_request = APIMessage_new\<lparr>am_type := Some NODE_UNREGISTER,
            unregister_node_id := Some (impl_node_id this)\<rparr>
      in map_option (\<lambda>(s1, r). (s1, swallow_system_error r)) (exchange message_request s))"

definition P2PNode_bind ::
  "('sk, 'pk) botan_ecdsa \<Rightarrow> (bytes \<Rightarrow> nat) \<Rightarrow> (nat \<Rightarrow> bytes) \<Rightarrow> 's exchange \<Rightarrow> string \<Rightarrow> 'sk P2PNode \<Rightarrow> 's \<Rightarrow>
   ('s, 'sk P2PNode) call" where
  "P2PNode_bind B bi_decode bi_encode exchange base58_private_key this s =
     (let message_request = APIMessage_new\<lparr>am_type := Some NODE_BIND, bind_node_id := Some (impl_node_id this),
            bind_b58_private_key := Some base58_private_key\<rparr>
      in lift_call (exchange message_request s) (\<lambda>_.
           bind_result (ms_setAsBase58 bi_encode (PrivateKeyDSA_setAsBinaryVector B bi_decode)
               (m_bound_private_key this) base58_private_key)
             (\<lambda>k. Inr (this\<lparr>m_bound_private_key := k\<rparr>))))"

definition P2PSocket_new :: "'sk P2PNode \<Rightarrow> u32 \<Rightarrow> P2PSocket" where
  "P2PSocket_new the_node socket_id =
     \<lparr>sock_node_id = impl_node_id the_node, sock_socket_id = socket_id, m_remote_sh = []\<rparr>"

text \<open>Both operations that give a socket read the number of the node from the accept part of the reply.\<close>

definition socket_of_reply :: "'sk P2PNode \<Rightarrow> APIMessage \<Rightarrow> P2PSocket" where
  "socket_of_reply this message_reply =
     (P2PSocket_new this (u32_field (accept_node_id message_reply)))\<lparr>m_remote_sh :=
        (case accept_SH message_reply of Some sh \<Rightarrow> sh | None \<Rightarrow> [])\<rparr>"

definition P2PNode_accept :: "'s exchange \<Rightarrow> 'sk P2PNode \<Rightarrow> 's \<Rightarrow> ('s, P2PSocket) call" where
  "P2PNode_accept exchange this s =
     (let message_request = APIMessage_new\<lparr>am_type := Some NODE_ACCEPT, accept_node_id := Some (impl_node_id this)\<rparr>
      in lift_call (exchange message_request s) (\<lambda>message_reply. Inr (socket_of_reply this message_reply)))"

definition P2PNode_connect :: "'s exchange \<Rightarrow> string \<Rightarrow> 'sk P2PNode \<Rightarrow> 's \<Rightarrow> ('s, P2PSocket) call" where
  "P2PNode_connect exchange SH this s =
     (let message_request = APIMessage_new\<lparr>am_type := Some NODE_CONNECT, connect_node_id := Some (impl_node_id this),
            connect_SH := Some SH\<rparr>
      in lift_call (exchange message_request s) (\<lambda>message_reply. Inr (socket_of_reply this message_reply)))"

definition P2PNode_listen :: "'s exchange \<Rightarrow> u32 \<Rightarrow> 'sk P2PNode \<Rightarrow> 's \<Rightarrow> ('s, unit) call" where
  "P2PNode_listen exchange max_conn this s =
     (let message_request = APIMessage_new\<lparr>am_type := Some NODE_LISTEN, listen_node_id := Some (impl_node_id this),
            listen_max_connections := Some max_conn\<rparr>
      in lift_call (exchange message_request s) (\<lambda>_. Inr ()))"

subsection \<open>The C interface of nodes (P2PNode.cpp)\<close>

text \<open>
  System errors become return codes, everything else leaves the C function as an exception.  The
  pointers the functions are to fill are parameters by value, so what was made is not seen by the
  caller: the result is the code alone.
\<close>

definition c_code :: "'a result \<Rightarrow> int result" where
  "c_code r =
     (case r of
        Inr _ \<Rightarrow> Inr (error_code success)
      | Inl (SystemError e) \<Rightarrow> Inr e
      | Inl e \<Rightarrow> Inl e)"

definition c_call :: "('s, 'a) call \<Rightarrow> ('s, int) call" where
  "c_call c = map_option (\<lambda>(s, r). (s, c_code r)) c"

definition p2p_createNodeOnDaemon :: "'s exchange \<Rightarrow> 's \<Rightarrow> ('s, int) call" where
  "p2p_createNodeOnDaemon exchange s = c_call (P2PNode_new exchange s :: ('s, nat P2PNode) call)"

text \<open>Without a connection given, the shared one is used; making it may throw first.\<close>

definition p2p_createNode :: "'s \<times> unit result \<Rightarrow> 's exchange \<Rightarrow> ('s, int) call" where
  "p2p_createNode daemon_made exchange =
     (case daemon_made of
        (s, Inl e) \<Rightarrow> Some (s, c_code (Inl e :: unit result))
      | (s, Inr _) \<Rightarrow> p2p_createNodeOnDaemon exchange s)"

definition p2p_destroyNode :: "'s exchange \<Rightarrow> 'sk P2PNode \<Rightarrow> 's \<Rightarrow> ('s, unit) call" where
  "p2p_destroyNode exchange node s = P2PNode_delete exchange node s"

definition p2p_accept :: "'s exchange \<Rightarrow> 'sk P2PNode \<Rightarrow> 's \<Rightarrow> ('s, int) call" where
  "p2p_accept exchange listening_node s = c_call (P2PNode_accept exchange listening_node s)"

definition p2p_connect :: "'s exchange \<Rightarrow> 'sk P2PNode \<Rightarrow> string \<Rightarrow> 's \<Rightarrow> ('s, int) call" where
  "p2p_connect exchange connecting_node SH s = c_call (P2PNode_connect exchange SH connecting_node s)"

definition p2p_bindNode ::
  "('sk, 'pk) botan_ecdsa \<Rightarrow> (bytes \<Rightarrow> nat) \<Rightarrow> (nat \<Rightarrow> bytes) \<Rightarrow> 's exchange \<Rightarrow> 'sk P2PNode \<Rightarrow> string \<Rightarrow> 's \<Rightarrow>
   ('s, int) call" where
  "p2p_bindNode B bi_decode bi_encode exchange node base58_private_key s =
     c_call (P2PNode_bind B bi_decode bi_encode exchange (takeWhile (\<lambda>c. c \<noteq> CHR 0x00) base58_private_key) node s)"

definition p2p_listenNode :: "'s exchange \<Rightarrow> 'sk P2PNode \<Rightarrow> u32 \<Rightarrow> 's \<Rightarrow> ('s, int) call" where
  "p2p_listenNode exchange node max_conn s = c_call (P2PNode_listen exchange max_conn node s)"

subsection \<open>Sockets and contexts (P2PSocket.cpp, P2PContext.cpp)\<close>

definition P2PSocket_delete :: "'s exchange \<Rightarrow> P2PSocket \<Rightarrow> 's \<Rightarrow> ('s, unit) call" where
  "P2PSocket_delete exchange this s =
     (let message_request = APIMessage_new\<lparr>am_type := Some SOCKET_UNREGISTER,
            socket_node_id := Some (sock_node_id this), socket_socket_id := Some (sock_socket_id this)\<rparr>
      in map_option (\<lambda>(s1, r). (s1, swallow_system_error r)) (exchange message_request s))"

definition p2p_destroySocket :: "'s exchange \<Rightarrow> P2PSocket \<Rightarrow> 's \<Rightarrow> ('s, unit) call" where
  "p2p_destroySocket exchange socket s = P2PSocket_delete exchange socket s"

datatype ContextType = CONTEXT_SEQPACKET | CONTEXT_STREAM | CONTEXT_DATAGRAM | CONTEXT_ANY

record P2PContext =
  m_context_type :: ContextType
  m_parent_socket :: P2PSocket
  m_context_id :: "u32 option"

text \<open>The constructor leaves the number of the context uninitialised; reading it then is undefined.\<close>

definition P2PContext_new :: "ContextType \<Rightarrow> P2PSocket \<Rightarrow> P2PContext" where
  "P2PContext_new context_type parent_socket =
     \<lparr>m_context_type = context_type, m_parent_socket = parent_socket, m_context_id = None\<rparr>"

definition getContextType :: "P2PContext \<Rightarrow> ContextType" where
  "getContextType this = m_context_type this"

definition getContextID :: "P2PContext \<Rightarrow> u32 result" where
  "getContextID this = deref (m_context_id this)"

definition getParentSocket :: "P2PContext \<Rightarrow> P2PSocket" where
  "getParentSocket this = m_parent_socket this"

text \<open>The bodies of the functions that should give a context are empty: they end without a value.\<close>

definition createContext :: "ContextType \<Rightarrow> P2PSocket \<Rightarrow> P2PContext result" where
  "createContext type this = Inl UndefinedBehaviour"

definition acceptContext :: "ContextType \<Rightarrow> P2PSocket \<Rightarrow> P2PContext result" where
  "acceptContext type this = Inl UndefinedBehaviour"

definition closeContext :: "u32 \<Rightarrow> P2PSocket \<Rightarrow> P2PSocket" where
  "closeContext context_number this = this"

subsection \<open>Properties\<close>

lemma listen_paths_mem: "listen_paths err ps = Inr (Some p) \<Longrightarrow> p \<in> set ps"
  by (induction ps) (auto split: if_splits)

lemma connect_paths_found:
  "p \<in> set ps \<Longrightarrow> (\<And>q. is_error (err q) \<longleftrightarrow> q \<noteq> p) \<Longrightarrow> connect_paths err ps path = ((p, True), Inr ())"
  by (induction ps arbitrary: path) auto

lemma connect_paths_none:
  "ps \<noteq> [] \<Longrightarrow> (\<And>q. is_error (err q)) \<Longrightarrow>
     connect_paths err ps path = ((last ps, False), Inl (SystemError (be_value_field (err (last ps)))))"
  by (induction ps arbitrary: path) auto

lemma getSocketPathList_nonempty: "getSocketPathList to_bool env config = Inr ps \<Longrightarrow> ps \<noteq> []"
  by (auto simp: getSocketPathList_def result_simps)

text \<open>
  (C31) A program and a daemon with the same configuration find each other: where the server listens,
  \<^verbatim>\<open>connect\<close> ends up and starts to receive; when no socket accepts, it throws the error of the last
  path and is not connected.
\<close>

theorem daemon_found:
  assumes "UnixAPIServer_new to_bool acceptor_error env config = Inr srv"
    and "P2PUnixDaemon_connect connect_error (getSocketPathList to_bool env config) d = (d', r)"
  shows "((\<forall>q. is_error (connect_error q) \<longleftrightarrow> q \<noteq> socket_path srv) \<longrightarrow>
      r = Inr () \<and> is_connected d' \<and> m_socket_path d' = socket_path srv \<and>
      session_read (daemon_session d') = Some asyncReceive) \<and>
    ((\<forall>q. is_error (connect_error q)) \<longrightarrow> (\<exists>e. r = Inl (SystemError e)) \<and> \<not> is_connected d')"
proof -
  obtain ps p where ps: "getSocketPathList to_bool env config = Inr ps" "listen_paths acceptor_error ps = Inr p"
    and srv: "UnixAPIServer_accept (APIServer_new\<lparr>acceptor_ptr := p,
         socket_path := (case p of Some path \<Rightarrow> path | None \<Rightarrow> [])\<rparr>) = Inr srv"
    using assms(1) by (auto simp: UnixAPIServer_new_def result_simps)
  then have p: "p = Some (socket_path srv)" by (cases p) (auto simp: UnixAPIServer_accept_def)
  with ps(2) listen_paths_mem have mem: "socket_path srv \<in> set ps" by blast
  have ne: "ps \<noteq> []" using ps(1) by (rule getSocketPathList_nonempty)
  show ?thesis
  proof (intro conjI impI)
    assume e: "\<forall>q. is_error (connect_error q) \<longleftrightarrow> q \<noteq> socket_path srv"
    have "connect_paths connect_error ps path = ((socket_path srv, True), Inr ())" for path
      using e by (intro connect_paths_found [OF mem]) blast
    then have d': "d' = P2PDaemon_receiveLoop (d\<lparr>m_socket := LiveSock, ud_connected := False,
        m_socket_path := socket_path srv, ud_connected := True\<rparr>)" "r = Inr ()"
      using assms(2) by (simp_all add: ps(1) P2PUnixDaemon_connect_def Let_def)
    show "r = Inr ()" "is_connected d'" "m_socket_path d' = socket_path srv"
      "session_read (daemon_session d') = Some asyncReceive"
      by (simp_all add: d' is_connected_def P2PDaemon_receiveLoop_def P2PSession_receiveLoop_def)
  next
    assume e: "\<forall>q. is_error (connect_error q)"
    have "connect_paths connect_error ps path =
        ((last ps, False), Inl (SystemError (be_value_field (connect_error (last ps)))))" for path
      using e by (intro connect_paths_none [OF ne]) blast
    then have "r = Inl (SystemError (be_value_field (connect_error (last ps))))" "\<not> ud_connected d'"
      using assms(2) by (auto simp: ps(1) P2PUnixDaemon_connect_def Let_def)
    then show "\<exists>e. r = Inl (SystemError e)" "\<not> is_connected d'" by (simp_all add: is_connected_def)
  qed
qed

theorem daemon_found_witness:
  "is_connected (fst (P2PUnixDaemon_connect (\<lambda>q. if q = ''/run/s'' then no_error else eof_error)
     (getSocketPathList (\<lambda>_. None) \<lparr>env_config_dir = None, env_uid = 0, env_home = None, env_pw_dir = []\<rparr>
       \<lparr>internal_config = [''api.unix.system_sock_path'' \<mapsto> ''/run/s''], internal_config_defaults = Map.empty,
        config_directory = [], config_file = []\<rparr>)
     (P2PUnixDaemon_of_session P2PSession_new)))"
proof -
  let ?env = "\<lparr>env_config_dir = None, env_uid = 0, env_home = None, env_pw_dir = []\<rparr>"
  let ?config = "\<lparr>internal_config = [''api.unix.system_sock_path'' \<mapsto> ''/run/s''], internal_config_defaults = Map.empty,
      config_directory = [], config_file = []\<rparr>"
  let ?err = "\<lambda>q. if q = ''/run/s'' then no_error else eof_error"
  obtain srv where srv: "UnixAPIServer_new (\<lambda>_. None) (\<lambda>_. no_error) ?env ?config = Inr srv" "socket_path srv = ''/run/s''"
    by (simp add: UnixAPIServer_new_def getSocketPathList_def getPermissions_def getValue_def ptree_get_def
        is_error_def no_error_def UnixAPIServer_accept_def)
  obtain d' r where d: "P2PUnixDaemon_connect ?err (getSocketPathList (\<lambda>_. None) ?env ?config)
      (P2PUnixDaemon_of_session P2PSession_new) = (d', r)" by fastforce
  have "\<forall>q. is_error (?err q) \<longleftrightarrow> q \<noteq> socket_path srv"
    by (simp add: srv(2) is_error_def no_error_def eof_error_def)
  with daemon_found [OF srv(1) d] have "is_connected d'" by blast
  with d show ?thesis by simp
qed

text \<open>
  \<^verbatim>\<open>disconnect\<close> is not safe to use: after it a send is undefined, a second \<^verbatim>\<open>disconnect\<close> is, and
  so is the destructor, which calls it again.  Without it, the destructor is fine.
\<close>

theorem disconnect_once:
  assumes "m_socket (underlying_daemon d) = LiveSock"
  shows "P2PAutoDaemon_delete d = Inr () \<and>
    (\<exists>d'. P2PAutoDaemon_disconnect d = Inr (0, d') \<and> \<not> P2PAutoDaemon_is_connected d' \<and>
       P2PAutoDaemon_disconnect d' = Inl UndefinedBehaviour \<and> P2PAutoDaemon_delete d' = Inl UndefinedBehaviour \<and>
       P2PAutoDaemon_asyncSend ser now werr m out d' = Inl UndefinedBehaviour \<and>
       P2PAutoDaemon_asyncReceive d' = Inl UndefinedBehaviour)"
  using assms
  by (simp add: P2PAutoDaemon_delete_def P2PAutoDaemon_disconnect_def P2PAutoDaemon_is_connected_def is_connected_def
      P2PAutoDaemon_asyncSend_def P2PAutoDaemon_asyncReceive_def P2PUnixDaemon_delete_def P2PUnixDaemon_disconnect_def
      P2PUnixDaemon_asyncSend_def P2PUnixDaemon_asyncReceive_def)

theorem disconnect_once_witness:
  "\<exists>d'. P2PAutoDaemon_disconnect (fst (P2PAutoDaemon_new (\<lambda>_. no_error) (Inr [''/run/s'']))) = Inr (0, d') \<and>
     P2PAutoDaemon_delete d' = Inl UndefinedBehaviour"
proof -
  let ?d = "fst (P2PAutoDaemon_new (\<lambda>_. no_error) (Inr [''/run/s'']))"
  have "m_socket (underlying_daemon ?d) = LiveSock"
    by (simp add: P2PAutoDaemon_new_def P2PAutoDaemon_connect_def P2PUnixDaemon_connect_def is_error_def no_error_def
        P2PDaemon_receiveLoop_def Let_def)
  from disconnect_once [OF this] show ?thesis by blast
qed

text \<open>
  The C functions turn system errors into their codes and success into zero, and let nothing else
  through as a code; the node or socket they made does not reach the caller in any case.
\<close>

theorem c_interface_codes:
  "c_call c = Some (s, Inr code) \<longleftrightarrow>
     (\<exists>x. c = Some (s, Inr x) \<and> code = 0) \<or> c = Some (s, Inl (SystemError code))"
proof (cases c)
  case (Some sr)
  obtain s' r where sr: "sr = (s', r)" by (cases sr)
  show ?thesis
  proof (cases r)
    case (Inl e)
    then show ?thesis by (cases e) (auto simp: Some sr c_call_def c_code_def)
  next
    case (Inr x)
    then show ?thesis by (auto simp: Some sr c_call_def c_code_def)
  qed
qed (simp add: c_call_def)

end
