(* ===== verification/Client_Session.thy ===== *)
theory Client_Session
  imports Client_Library
begin

section \<open>Exchanges of a client session\<close>

text \<open>
  Several threads of a program may be inside \<^verbatim>\<open>clientExchange\<close> at once, and their replies arrive in any
  order.  The relation below runs the two halves of the exchange and the receiving thread in every
  interleaving; its second argument holds the tokens the daemon has yet to answer.
\<close>

inductive session_steps :: "P2PSession \<Rightarrow> u32 set \<Rightarrow> bool" where
  steps_start: "session_steps P2PSession_new {}"
| steps_send: "session_steps s T \<Longrightarrow> exchange_send m s = (s', Inr (t, marked)) \<Longrightarrow> session_steps s' (insert t T)"
| steps_reply: "session_steps s T \<Longrightarrow> t \<in> T \<Longrightarrow> message_token r = Some t \<Longrightarrow>
     P2PSession_handleReceive (r, e) s = Inr s' \<Longrightarrow> session_steps s' (T - {t})"
| steps_untagged: "session_steps s T \<Longrightarrow> message_token r = None \<Longrightarrow>
     P2PSession_handleReceive (r, e) s = Inr s' \<Longrightarrow> session_steps s' T"
| steps_return: "session_steps s T \<Longrightarrow> exchange_receive t s = Some (s', res) \<Longrightarrow> session_steps s' T"

definition session_inv :: "P2PSession \<Rightarrow> u32 set \<Rightarrow> bool" where
  "session_inv s T \<longleftrightarrow> T \<subseteq> dom (awaiting_receive s) \<and>
     (\<forall>t p. awaiting_receive s t = Some p \<longrightarrow> future_retrieved p \<and> (promise_value p = None \<longleftrightarrow> t \<in> T) \<and>
        (\<forall>m. promise_value p = Some m \<longrightarrow> message_token m = Some t))"

lemma session_invD:
  "session_inv s T \<Longrightarrow> awaiting_receive s t = Some p \<Longrightarrow> future_retrieved p \<and> (promise_value p = None \<longleftrightarrow> t \<in> T) \<and>
     (\<forall>m. promise_value p = Some m \<longrightarrow> message_token m = Some t)"
  by (simp add: session_inv_def)

lemma awaiting_receiveLoop [simp]: "awaiting_receive (P2PSession_receiveLoop s) = awaiting_receive s"
  by (simp add: P2PSession_receiveLoop_def)

lemma session_inv_cong: "awaiting_receive s = awaiting_receive s' \<Longrightarrow> session_inv s T \<longleftrightarrow> session_inv s' T"
  by (simp add: session_inv_def)

lemma handleReceive_untagged:
  "message_token r = None \<Longrightarrow> P2PSession_handleReceive (r, e) s = Inr s' \<Longrightarrow>
     awaiting_receive s' = awaiting_receive s"
  by (auto simp: P2PSession_handleReceive_def Let_def)

lemma handleReceive_tagged:
  assumes "message_token r = Some t" and "awaiting_receive s t = Some p" and "promise_value p = None"
  shows "\<exists>s'. P2PSession_handleReceive (r, e) s = Inr s' \<and> next_msg_token s' = next_msg_token s \<and>
    awaiting_receive s' = (awaiting_receive s)(t \<mapsto> p\<lparr>promise_value := Some r\<rparr>) \<and>
    (session_read s \<noteq> None \<longrightarrow> session_read s' \<noteq> None)"
  using assms by (simp add: P2PSession_handleReceive_def u32_field_def P2PSession_receiveLoop_def Let_def)

lemma exchange_send_fresh:
  assumes "awaiting_receive s (next_msg_token s) = None"
  shows "exchange_send m s =
    (s\<lparr>next_msg_token := next_msg_token s + 1, awaiting_receive := (awaiting_receive s)(next_msg_token s \<mapsto>
        \<lparr>promise_value = None, future_retrieved = True\<rparr>)\<rparr>,
     Inr (next_msg_token s, m\<lparr>message_token := Some (next_msg_token s)\<rparr>))"
  using assms by (simp add: exchange_send_def markMessage_def Let_def)

lemma session_inv_send:
  assumes "session_inv s T" and "exchange_send m s = (s', Inr (t, marked))"
  shows "session_inv s' (insert t T)"
proof -
  have "awaiting_receive s (next_msg_token s) = None"
    using assms by (auto simp: session_inv_def exchange_send_def markMessage_def Let_def split: option.splits if_splits)
  from exchange_send_fresh [OF this, of m] assms(2)
  have "t = next_msg_token s" "awaiting_receive s t = None"
    "awaiting_receive s' = (awaiting_receive s)(t \<mapsto> \<lparr>promise_value = None, future_retrieved = True\<rparr>)"
    using \<open>awaiting_receive s (next_msg_token s) = None\<close> by auto
  with assms(1) show ?thesis by (auto simp: session_inv_def)
qed

lemma session_inv_reply:
  assumes "session_inv s T" and "t \<in> T" and "message_token r = Some t"
  shows "\<exists>s'. P2PSession_handleReceive (r, e) s = Inr s' \<and> session_inv s' (T - {t}) \<and>
    (\<exists>p. awaiting_receive s' t = Some p \<and> promise_value p = Some r)"
proof -
  obtain p where p: "awaiting_receive s t = Some p" "promise_value p = None" "future_retrieved p"
    using assms(1,2) by (auto simp: session_inv_def)
  from handleReceive_tagged [OF assms(3) p(1,2), of e] obtain s' where s': "P2PSession_handleReceive (r, e) s = Inr s'"
    "awaiting_receive s' = (awaiting_receive s)(t \<mapsto> p\<lparr>promise_value := Some r\<rparr>)" by blast
  moreover have "session_inv s' (T - {t})"
    using assms p s'(2) by (auto simp: session_inv_def)
  ultimately show ?thesis by simp
qed

lemma session_inv_return:
  assumes "session_inv s T" and "exchange_receive t s = Some (s', res)"
  shows "session_inv s' T"
proof -
  obtain p where "awaiting_receive s t = Some p" "promise_value p \<noteq> None"
    and s': "awaiting_receive s' = (awaiting_receive s)(t := None)"
    using assms(2) by (auto simp: exchange_receive_def Let_def split: option.splits)
  then have "t \<notin> T" using session_invD [OF assms(1), of t p] by simp
  moreover have "future_retrieved q \<and> (promise_value q = None \<longleftrightarrow> u \<in> T) \<and>
      (\<forall>m. promise_value q = Some m \<longrightarrow> message_token m = Some u)" if "awaiting_receive s' u = Some q" for u q
    using session_invD [OF assms(1), of u q] that by (simp add: s' split: if_splits)
  moreover have "T \<subseteq> dom (awaiting_receive s)" using assms(1) by (simp add: session_inv_def)
  ultimately show ?thesis unfolding session_inv_def s' by auto
qed

lemma session_steps_inv: "session_steps s T \<Longrightarrow> session_inv s T"
proof (induction rule: session_steps.induct)
  case steps_start
  show ?case by (simp add: session_inv_def P2PSession_new_def)
next
  case (steps_send s T m s' t marked)
  then show ?case using session_inv_send by blast
next
  case (steps_reply s T t r e s')
  then show ?case using session_inv_reply [of s T t r e] by auto
next
  case (steps_untagged s T r e s')
  then show ?case using handleReceive_untagged session_inv_cong by metis
next
  case (steps_return s T t s' res)
  then show ?case using session_inv_return by blast
qed

lemma exchange_receive_value:
  "awaiting_receive s t = Some p \<Longrightarrow> promise_value p = Some r \<Longrightarrow>
     \<exists>s'. exchange_receive t s = Some (s', case am_error r of Some x \<Rightarrow> Inl (SystemError (err_code x)) | None \<Rightarrow> Inr r)"
  by (simp add: exchange_receive_def Let_def split: option.split)

subsection \<open>Properties\<close>



end
