(* ===== verification/Client_Stack.thy ===== *)
theory Client_Stack
  imports Client_Session
begin

section \<open>From the program to the daemon and back\<close>

text \<open>
  The client library and the daemon put together: a node of a program talks through its session, the
  framing and the socket to the server of the daemon, whose session talks to the node manager.  The
  state of the daemon is \<open>None\<close> once it has ended; then the client's read ends with an error.
\<close>

definition unix_peer ::
  "('sk, 'pk) botan_ecdsa \<Rightarrow> (string \<Rightarrow> bytes) \<Rightarrow> (bytes \<Rightarrow> nat) \<Rightarrow> (nat \<Rightarrow> bytes) \<Rightarrow> (APIMessage \<Rightarrow> string) \<Rightarrow>
   (string \<Rightarrow> APIMessage) \<Rightarrow> nat \<Rightarrow> APIMessage \<Rightarrow> 'sk daemon_state option \<Rightarrow>
   'sk daemon_state option \<times> (APIMessage \<times> error_condition) list" where
  "unix_peer B keccak dec enc ser parse sid m d =
     (let lost = (None, [(APIMessage_new, stdErrorFromBoostError eof_error)]) in
      case d of
        None \<Rightarrow> lost
      | Some st \<Rightarrow>
          (case UnixAPISocket_asyncSend ser True no_error m [] of
             Inl _ \<Rightarrow> lost
           | Inr (sent, _) \<Rightarrow>
               (case server_input B keccak dec enc ser parse sid sent st of
                  Inl _ \<Rightarrow> lost
                | Inr (nm1, srv1) \<Rightarrow>
                    (case session_heap srv1 sid of
                       None \<Rightarrow> (Some (nm1, srv1), [(APIMessage_new, stdErrorFromBoostError eof_error)])
                     | Some us \<Rightarrow>
                         (Some (nm1, srv1\<lparr>session_heap := (session_heap srv1)(sid \<mapsto> us\<lparr>us_out := []\<rparr>)\<rparr>),
                          map (\<lambda>r. (r, stdErrorFromBoostError no_error)) (receive_all parse (us_out us)))))))"

definition unix_exchange ::
  "('sk, 'pk) botan_ecdsa \<Rightarrow> (string \<Rightarrow> bytes) \<Rightarrow> (bytes \<Rightarrow> nat) \<Rightarrow> (nat \<Rightarrow> bytes) \<Rightarrow> (APIMessage \<Rightarrow> string) \<Rightarrow>
   (string \<Rightarrow> APIMessage) \<Rightarrow> nat \<Rightarrow> (P2PSession \<times> 'sk daemon_state option) exchange" where
  "unix_exchange B keccak dec enc ser parse sid =
     clientExchange (unix_peer B keccak dec enc ser parse sid)"

subsection \<open>One exchange\<close>

text \<open>
  The connection at rest: no call is under way, the session of the daemon waits for a request and has
  nothing left to send.
\<close>

definition link_idle :: "nat \<Rightarrow> P2PSession \<times> 'sk daemon_state option \<Rightarrow> UnixAPISession \<Rightarrow> bool" where
  "link_idle sid st us \<longleftrightarrow> awaiting_receive (fst st) = Map.empty \<and>
     (case snd st of None \<Rightarrow> False | Some (nm, srv) \<Rightarrow>
        session_heap srv sid = Some us \<and> us_read us = Some asyncReceive \<and> us_in us = [] \<and> us_out us = [] \<and>
        \<not> is_error (us_write_error us))"

definition codec_ok :: "(APIMessage \<Rightarrow> string) \<Rightarrow> (string \<Rightarrow> APIMessage) \<Rightarrow> APIMessage \<Rightarrow> bool" where
  "codec_ok ser parse m \<longleftrightarrow> parse (ser m) = m \<and> length (ser m) < 4294967296"

lemma drain_codec:
  "list_all (codec_ok ser parse) ms \<Longrightarrow> drain parse ReadSize (frames ser ms) = (ms, ReadSize, [])"
  using drain_frames [of ms parse ser "[]"] by (simp add: codec_ok_def frame_fits_def list_all_iff)

lemma peer_answers:
  assumes "link_idle sid (s, Some (nm, srv)) us" and "codec_ok ser parse m"
    and "APISession_process B keccak dec enc sid m (nm, us_session us) = Inr ((nm', s'), out)"
    and "list_all (codec_ok ser parse) out"
  shows "unix_peer B keccak dec enc ser parse sid m (Some (nm, srv)) =
    (Some (nm', srv\<lparr>session_heap := (session_heap srv)(sid \<mapsto> us\<lparr>us_session := s'\<rparr>)\<rparr>),
     map (\<lambda>r. (r, stdErrorFromBoostError no_error)) out)"
proof -
  have us: "session_heap srv sid = Some us" "us_read us = Some asyncReceive" "us_in us = []" "us_out us = []"
    "\<not> is_error (us_write_error us)" using assms(1) by (simp_all add: link_idle_def)
  have d: "drain parse asyncReceive (us_in us @ generateSendString (ser m)) = ([m], asyncReceive, [])"
    using drain_codec [of ser parse "[m]"] assms(2) us(3) by (simp add: asyncReceive_def)
  have run: "session_run B keccak dec enc sid [m] (nm, us_session us) = Inr ((nm', s'), out)"
    using assms(3) by simp
  have eq: "us\<lparr>us_in := [], us_session := s', us_out := frames ser out, us_read := Some asyncReceive\<rparr> =
      us\<lparr>us_session := s', us_out := frames ser out\<rparr>"
    using us(2,3) by (cases us) simp
  have "server_input B keccak dec enc ser parse sid (generateSendString (ser m)) (nm, srv) =
      Inr (nm', srv\<lparr>session_heap := (session_heap srv)(sid \<mapsto> us\<lparr>us_session := s', us_out := frames ser out\<rparr>)\<rparr>)"
    using server_input_session [OF us(1,5,2) d run, of ser] by (simp only: us(4) append_Nil eq)
  moreover have "receive_all parse (frames ser out) = out"
    using drain_codec [OF assms(4)] drain_receive_all [of parse "frames ser out"] by simp
  moreover have "us\<lparr>us_session := s', us_out := []\<rparr> = us\<lparr>us_session := s'\<rparr>" using us(4) by (cases us) simp
  ultimately show ?thesis
    by (simp add: unix_peer_def UnixAPISocket_asyncSend_def is_error_def no_error_def fun_upd_same del: fun_upd_apply)
qed

definition marked :: "P2PSession \<Rightarrow> APIMessage \<Rightarrow> APIMessage" where
  "marked s m = m\<lparr>message_token := Some (next_msg_token s)\<rparr>"

text \<open>A request that the daemon answers with one message comes back with it.\<close>

lemma exchange_answered:
  assumes idle: "link_idle sid (s, Some (nm, srv)) us" and "codec_ok ser parse (marked s m)"
    and process: "APISession_process B keccak dec enc sid (marked s m) (nm, us_session us) = Inr ((nm', s'), [r])"
    and "codec_ok ser parse r" and "message_token r = Some (next_msg_token s)" and "am_error r = None"
  shows "\<exists>t. unix_exchange B keccak dec enc ser parse sid m (s, Some (nm, srv)) =
      Some ((t, Some (nm', srv\<lparr>session_heap := (session_heap srv)(sid \<mapsto> us\<lparr>us_session := s'\<rparr>)\<rparr>)), Inr r) \<and>
    awaiting_receive t = Map.empty \<and> next_msg_token t = next_msg_token s + 1 \<and>
    (session_read s \<noteq> None \<longrightarrow> session_read t \<noteq> None)"
proof -
  let ?n = "next_msg_token s" and ?p = "\<lparr>promise_value = None, future_retrieved = True\<rparr>"
  let ?s1 = "s\<lparr>next_msg_token := ?n + 1, awaiting_receive := (awaiting_receive s)(?n \<mapsto> ?p)\<rparr>"
  have empty: "awaiting_receive s = Map.empty" using idle by (simp add: link_idle_def)
  have send: "exchange_send m s = (?s1, Inr (?n, marked s m))"
    using exchange_send_fresh [of s m] empty by (simp add: marked_def)
  obtain s2 where r: "P2PSession_handleReceive (r, stdErrorFromBoostError no_error) ?s1 = Inr s2"
    "next_msg_token s2 = ?n + 1" "awaiting_receive s2 = (awaiting_receive s)(?n \<mapsto> ?p\<lparr>promise_value := Some r\<rparr>)"
    "session_read s \<noteq> None \<longrightarrow> session_read s2 \<noteq> None"
    using handleReceive_tagged [OF assms(5), of ?s1 ?p "stdErrorFromBoostError no_error"] by auto
  have "exchange_receive ?n s2 = Some (s2\<lparr>awaiting_receive := (awaiting_receive s2)(?n := None)\<rparr>, Inr r)"
    using assms(6) by (simp add: exchange_receive_def r(3))
  moreover have "(awaiting_receive s2)(?n := None) = Map.empty" by (simp add: r(3) empty fun_eq_iff)
  moreover have "unix_peer B keccak dec enc ser parse sid (marked s m) (Some (nm, srv)) =
      (Some (nm', srv\<lparr>session_heap := (session_heap srv)(sid \<mapsto> us\<lparr>us_session := s'\<rparr>)\<rparr>),
       [(r, stdErrorFromBoostError no_error)])"
    using peer_answers [OF idle assms(2) process] assms(4) by simp
  ultimately show ?thesis
    using r(1,2,4) by (simp add: unix_exchange_def clientExchange_def send)
qed

text \<open>A request that the daemon does not answer never comes back.\<close>

lemma exchange_unanswered:
  assumes idle: "link_idle sid (s, Some (nm, srv)) us" and "codec_ok ser parse (marked s m)"
    and "APISession_process B keccak dec enc sid (marked s m) (nm, us_session us) = Inr ((nm', s'), [])"
  shows "unix_exchange B keccak dec enc ser parse sid m (s, Some (nm, srv)) = None"
proof -
  have "awaiting_receive s = Map.empty" using idle by (simp add: link_idle_def)
  moreover have "unix_peer B keccak dec enc ser parse sid (marked s m) (Some (nm, srv)) =
      (Some (nm', srv\<lparr>session_heap := (session_heap srv)(sid \<mapsto> us\<lparr>us_session := s'\<rparr>)\<rparr>), [])"
    using peer_answers [OF idle assms(2,3)] by simp
  ultimately show ?thesis
    using exchange_send_fresh [of s m]
    by (simp add: unix_exchange_def clientExchange_def marked_def exchange_receive_def)
qed

lemma exchange_daemon_ends:
  assumes idle: "link_idle sid (s, Some (nm, srv)) us" and "codec_ok ser parse (marked s m)"
    and "APISession_process B keccak dec enc sid (marked s m) (nm, us_session us) = Inl e"
  shows "unix_exchange B keccak dec enc ser parse sid m (s, Some (nm, srv)) = None"
proof -
  have us: "awaiting_receive s = Map.empty" "session_heap srv sid = Some us" "us_read us = Some asyncReceive"
    "us_in us = []" using idle by (simp_all add: link_idle_def)
  have "drain parse asyncReceive (generateSendString (ser (marked s m))) = ([marked s m], asyncReceive, [])"
    using drain_codec [of ser parse "[marked s m]"] assms(2) by (simp add: asyncReceive_def)
  then have "server_input B keccak dec enc ser parse sid (generateSendString (ser (marked s m))) (nm, srv) = Inl e"
    using us assms(3)
    by (simp add: server_input_def UnixAPIServer_handleReceive_def is_cond_def stdErrorFromBoostError_def no_error_def)
  moreover have "message_token APIMessage_new = None" by (simp add: APIMessage_new_def)
  ultimately show ?thesis
    using exchange_send_fresh [of s m] us(1)
    by (simp add: unix_exchange_def clientExchange_def marked_def unix_peer_def UnixAPISocket_asyncSend_def
        is_error_def no_error_def P2PSession_handleReceive_def exchange_receive_def P2PSession_receiveLoop_def Let_def)
qed

subsection \<open>The service a program sees\<close>

text \<open>
  What the nodes of a program rely on: a registration yields the least number that is not in use, a
  number in use can be given back.
\<close>

locale node_service =
  fixes exchange :: "'s exchange" and ids :: "'s \<Rightarrow> u32 set" and ok :: "'s \<Rightarrow> bool"
  assumes register_law: "ok s \<Longrightarrow> j \<noteq> 0 \<Longrightarrow> j \<notin> ids s \<Longrightarrow>
      \<exists>s' r i. exchange (APIMessage_new\<lparr>am_type := Some NODE_REGISTER\<rparr>) s = Some (s', Inr r) \<and>
        register_node_id r = Some i \<and> ok s' \<and> i \<noteq> 0 \<and> i \<notin> ids s \<and>
        (\<forall>j. j \<noteq> 0 \<and> j < i \<longrightarrow> j \<in> ids s) \<and> ids s' = insert i (ids s)"
    and unregister_law: "ok s \<Longrightarrow> i \<in> ids s \<Longrightarrow>
      \<exists>s' r. exchange (APIMessage_new\<lparr>am_type := Some NODE_UNREGISTER, unregister_node_id := Some i\<rparr>) s =
        Some (s', Inr r) \<and> ok s' \<and> ids s' = ids s - {i}"

fun new_nodes :: "'s exchange \<Rightarrow> nat \<Rightarrow> 's \<Rightarrow> ('s \<times> 'sk P2PNode list) option" where
  "new_nodes exchange 0 s = Some (s, [])"
| "new_nodes exchange (Suc n) s =
     (case P2PNode_new exchange s of
        Some (s1, Inr node) \<Rightarrow>
          (case new_nodes exchange n s1 of Some (s2, ns) \<Rightarrow> Some (s2, node # ns) | None \<Rightarrow> None)
      | _ \<Rightarrow> None)"

text \<open>Counting on from a number: there is room for the next, and the list of the numbers.\<close>

lemma u32_room:
  fixes k :: u32
  assumes "unat k + Suc n < 4294967296"
  shows "k + 1 \<noteq> 0" and "unat (k + 1) + n < 4294967296"
proof -
  have k: "k \<noteq> - 1"
  proof
    assume "k = - 1"
    then have "unat k = 4294967295" by (simp add: unsigned_minus_1_eq_mask mask_eq_exp_minus_1)
    with assms show False by simp
  qed
  then show "k + 1 \<noteq> 0" by (simp add: u32_Suc_eq_0)
  show "unat (k + 1) + n < 4294967296" using assms unat_Suc_u32 [OF k] by simp
qed

lemma map_numbers_Suc:
  fixes k :: u32
  shows "map (\<lambda>j. f (k + word_of_nat j)) [1..<Suc (Suc n)] = f (k + 1) # map (\<lambda>j. f (k + 1 + word_of_nat j)) [1..<Suc n]"
proof -
  have "map (\<lambda>j. f (k + word_of_nat j)) [1..<Suc (Suc n)] = f (k + 1) # map (\<lambda>j. f (k + word_of_nat (Suc j))) [1..<Suc n]"
    by (simp add: upt_conv_Cons map_Suc_upt [symmetric] comp_def del: upt_Suc)
  then show ?thesis by (simp add: algebra_simps)
qed

context node_service begin

lemma new_node:
  assumes "ok s" and "j \<noteq> 0" and "j \<notin> ids s"
  shows "\<exists>s' i. P2PNode_new exchange s =
      Some (s', Inr (\<lparr>impl_node_id = i, m_bound_private_key = PrivateKeyDSA_new\<rparr> :: 'sk P2PNode)) \<and> ok s' \<and>
    i \<noteq> 0 \<and> i \<notin> ids s \<and> (\<forall>j. j \<noteq> 0 \<and> j < i \<longrightarrow> j \<in> ids s) \<and> ids s' = insert i (ids s)"
proof -
  obtain s' r i where "exchange (APIMessage_new\<lparr>am_type := Some NODE_REGISTER\<rparr>) s = Some (s', Inr r)"
    "register_node_id r = Some i" "ok s'" "i \<noteq> 0" "i \<notin> ids s" "\<forall>j. j \<noteq> 0 \<and> j < i \<longrightarrow> j \<in> ids s"
    "ids s' = insert i (ids s)"
    using register_law [OF assms] by blast
  then show ?thesis by (intro exI [of _ s'] exI [of _ i]) (simp add: P2PNode_new_def lift_call_def u32_field_def)
qed

lemma delete_node:
  assumes "ok s" and "impl_node_id node \<in> ids s"
  shows "\<exists>s'. P2PNode_delete exchange node s = Some (s', Inr ()) \<and> ok s' \<and> ids s' = ids s - {impl_node_id node}"
proof -
  obtain s' r where "exchange (APIMessage_new\<lparr>am_type := Some NODE_UNREGISTER,
      unregister_node_id := Some (impl_node_id node)\<rparr>) s = Some (s', Inr r)" "ok s'" "ids s' = ids s - {impl_node_id node}"
    using unregister_law [OF assms] by blast
  then show ?thesis by (intro exI [of _ s']) (simp add: P2PNode_delete_def swallow_system_error_def)
qed

lemma next_number:
  assumes "ok s" and "ids s = {0<..k}" and "k + 1 \<noteq> 0"
  shows "\<exists>s'. P2PNode_new exchange s =
      Some (s', Inr (\<lparr>impl_node_id = k + 1, m_bound_private_key = PrivateKeyDSA_new\<rparr> :: 'sk P2PNode)) \<and> ok s' \<and> ids s' = {0<..k + 1}"
proof -
  have gt: "k < k + 1" using assms(3) by (rule u32_Suc_le) simp
  then have "k + 1 \<notin> ids s" using assms(2) by auto
  from new_node [OF assms(1,3) this] obtain s' i where new: "P2PNode_new exchange s =
      Some (s', Inr (\<lparr>impl_node_id = i, m_bound_private_key = PrivateKeyDSA_new\<rparr> :: 'sk P2PNode))" "ok s'" "i \<noteq> 0" "i \<notin> ids s"
    "\<forall>j. j \<noteq> 0 \<and> j < i \<longrightarrow> j \<in> ids s" "ids s' = insert i (ids s)" by blast
  have "k < i" using new(3,4) assms(2) by (auto simp: not_le word_greater_zero_iff)
  then have "k + 1 \<le> i" using u32_less_Suc by blast
  moreover have "\<not> k + 1 < i" using new(5) \<open>k + 1 \<notin> ids s\<close> assms(3) by blast
  ultimately have i: "i = k + 1" by simp
  have "j \<le> k + 1 \<longleftrightarrow> j \<le> k \<or> j = k + 1" for j
    using u32_less_Suc [of k j] gt by (meson leI antisym less_imp_le order_trans order_refl)
  then have "{0<..k + 1} = insert (k + 1) {0<..k}"
    using assms(3) by (auto simp: word_greater_zero_iff)
  with new i assms(2) show ?thesis by auto
qed

lemma numbered_nodes:
  assumes "ok s" and "ids s = {0<..k}" and "unat k + n < 4294967296"
  shows "\<exists>s' ns. new_nodes exchange n s = Some (s', ns :: 'sk P2PNode list) \<and> ok s' \<and> ids s' = {0<..k + word_of_nat n} \<and>
    map impl_node_id ns = map (\<lambda>j. k + word_of_nat j) [1..<Suc n]"
  using assms
proof (induction n arbitrary: s k)
  case (Suc n)
  note room = u32_room [OF Suc.prems(3)]
  from next_number [OF Suc.prems(1,2) room(1)] obtain s1 where 1: "P2PNode_new exchange s =
      Some (s1, Inr (\<lparr>impl_node_id = k + 1, m_bound_private_key = PrivateKeyDSA_new\<rparr> :: 'sk P2PNode))" "ok s1" "ids s1 = {0<..k + 1}"
    by blast
  from Suc.IH [OF 1(2,3) room(2)] obtain s' ns where 2: "new_nodes exchange n s1 = Some (s', ns :: 'sk P2PNode list)" "ok s'"
    "ids s' = {0<..k + 1 + word_of_nat n}" "map impl_node_id ns = map (\<lambda>j. k + 1 + word_of_nat j) [1..<Suc n]" by blast
  with 1 show ?case using map_numbers_Suc [of "\<lambda>i. i" k n] by (simp add: algebra_simps del: upt_Suc)
qed simp

end

subsection \<open>The stack provides the service\<close>

definition node_codec :: "(APIMessage \<Rightarrow> string) \<Rightarrow> (string \<Rightarrow> APIMessage) \<Rightarrow> bool" where
  "node_codec ser parse \<longleftrightarrow> (\<forall>t i. codec_ok ser parse (register_request t) \<and>
     codec_ok ser parse ((register_request t)\<lparr>register_node_id := Some i\<rparr>) \<and>
     codec_ok ser parse (unregister_request t i))"

definition link_ok ::
  "(APIMessage \<Rightarrow> string) \<Rightarrow> (string \<Rightarrow> APIMessage) \<Rightarrow> nat \<Rightarrow> P2PSession \<times> 'sk daemon_state option \<Rightarrow> bool" where
  "link_ok ser parse sid st \<longleftrightarrow> node_codec ser parse \<and> session_read (fst st) \<noteq> None \<and>
     (\<exists>us nm srv. snd st = Some (nm, srv) \<and> link_idle sid st us \<and> server_inv (nm, srv))"

definition link_ids :: "nat \<Rightarrow> P2PSession \<times> 'sk daemon_state option \<Rightarrow> u32 set" where
  "link_ids sid st =
     (case snd st of
        None \<Rightarrow> {}
      | Some (nm, srv) \<Rightarrow>
          (case session_heap srv sid of None \<Rightarrow> {} | Some us \<Rightarrow> fst ` set (nodes (us_session us))))"

lemma register_answer:
  assumes "api_inv (nm, s)" and "j \<noteq> 0" and "j \<notin> fst ` set (nodes s)"
  shows "\<exists>nm' s' i. NodeRegister self m (nm, s) = Inr ((nm', s'), [m\<lparr>register_node_id := Some i\<rparr>]) \<and>
    api_inv (nm', s') \<and> i \<noteq> 0 \<and> i \<notin> fst ` set (nodes s) \<and>
    (\<forall>j. j \<noteq> 0 \<and> j < i \<longrightarrow> j \<in> fst ` set (nodes s)) \<and>
    fst ` set (nodes s') = insert i (fst ` set (nodes s))"
proof -
  have ids: "ids_inv s" using assms(1) by (simp add: api_inv_def)
  have ne: "next_node_id s \<noteq> 0" using ids assms(2,3) by (auto simp: ids_inv_def)
  obtain n nm1 where c: "createNode (Some self) nm = (n, nm1)" by fastforce
  obtain s' where r: "NodeRegister self m (nm, s) = Inr ((nm1, s'), [m\<lparr>register_node_id := Some (next_node_id s)\<rparr>])"
    "fst ` set (nodes s') = insert (next_node_id s) (fst ` set (nodes s))"
    using ne c by (simp add: NodeRegister_def Let_def keys_omap_insert)
  moreover have "next_node_id s \<notin> fst ` set (nodes s)"
    "\<forall>j. j \<noteq> 0 \<and> j < next_node_id s \<longrightarrow> j \<in> fst ` set (nodes s)"
    using ids unfolding ids_inv_def by blast+
  ultimately show ?thesis using ne register_inv [OF assms(1) r(1)] by blast
qed

lemma unregister_answer:
  assumes "api_inv (nm, s)" and "i \<in> fst ` set (nodes s)" and "unregister_node_id m = Some i"
  shows "\<exists>nm' s'. NodeUnRegister m (nm, s) = Inr ((nm', s'), [m]) \<and> api_inv (nm', s') \<and>
    fst ` set (nodes s') = fst ` set (nodes s) - {i}"
proof -
  obtain nt where nt: "map_of (nodes s) i = Some nt"
    using assms(2) by (metis dom_map_of_conv_image_fst domD)
  obtain nm' s' out where r: "NodeUnRegister m (nm, s) = Inr ((nm', s'), out)" "api_inv (nm', s')"
    using unregister_inv [OF assms(1), of m] by blast
  have "out = [m]" "nodes s' = omap_erase i (nodes s)"
    using r(1) nt assms(3) by (auto simp: NodeUnRegister_def u32_field_def Let_def result_simps split: if_splits)
  with r show ?thesis by (auto simp: set_omap_erase image_iff)
qed

lemma link_ok_step:
  assumes "node_codec ser parse" and "link_idle sid (s, Some (nm, srv)) us" and "server_inv (nm, srv)"
    and "plain_request m" and "APISession_process B keccak dec enc sid m (nm, us_session us) = Inr ((nm', s'), out)"
    and "awaiting_receive t = Map.empty" and "session_read t \<noteq> None"
  shows "link_ok ser parse sid (t, Some (nm', srv\<lparr>session_heap := (session_heap srv)(sid \<mapsto> us\<lparr>us_session := s'\<rparr>)\<rparr>)) \<and>
    link_ids sid (t, Some (nm', srv\<lparr>session_heap := (session_heap srv)(sid \<mapsto> us\<lparr>us_session := s'\<rparr>)\<rparr>)) =
      fst ` set (nodes s')"
proof -
  have "session_heap srv sid = Some us" "us_read us = Some asyncReceive" "\<not> is_error (us_write_error us)"
    using assms(2) by (simp_all add: link_idle_def)
  then have "server_inv (nm', srv\<lparr>session_heap := (session_heap srv)(sid \<mapsto> us\<lparr>us_session := s'\<rparr>)\<rparr>)"
    using process_update_inv [OF assms(3) _ assms(4), of sid us B keccak dec enc nm' "us\<lparr>us_session := s'\<rparr>" out] assms(5)
    by simp
  with assms(1,2,6,7) show ?thesis by (auto simp: link_ok_def link_idle_def link_ids_def)
qed

lemma link_okE:
  assumes "link_ok ser parse sid st"
  obtains s nm srv us where "st = (s, Some (nm, srv))" "link_idle sid (s, Some (nm, srv)) us"
    "api_inv (nm, us_session us)" "node_codec ser parse" "link_ids sid st = fst ` set (nodes (us_session us))"
    "server_inv (nm, srv)" "session_read s \<noteq> None"
  using assms by (cases st) (auto simp: link_ok_def link_idle_def link_ids_def server_inv_def)

lemma unix_register:
  fixes st :: "P2PSession \<times> 'sk daemon_state option"
  assumes "link_ok ser parse sid st" and j: "j \<noteq> 0" "j \<notin> link_ids sid st"
  shows "\<exists>s' r i. unix_exchange B keccak dec enc ser parse sid (APIMessage_new\<lparr>am_type := Some NODE_REGISTER\<rparr>) st =
      Some (s', Inr r) \<and> register_node_id r = Some i \<and> link_ok ser parse sid s' \<and> i \<noteq> 0 \<and> i \<notin> link_ids sid st \<and>
      (\<forall>j. j \<noteq> 0 \<and> j < i \<longrightarrow> j \<in> link_ids sid st) \<and> link_ids sid s' = insert i (link_ids sid st)"
proof -
  from assms(1) obtain s nm srv us where st: "st = (s, Some (nm, srv))" "link_idle sid (s, Some (nm, srv)) us"
    "api_inv (nm, us_session us)" "node_codec ser parse" "link_ids sid st = fst ` set (nodes (us_session us))"
    "server_inv (nm, srv)" "session_read s \<noteq> None"
    by (elim link_okE)
  let ?m = "APIMessage_new\<lparr>am_type := Some NODE_REGISTER\<rparr>"
  have m: "marked s ?m = register_request (next_msg_token s)" by (simp add: marked_def register_request_def)
  obtain nm' s' i where r: "NodeRegister sid (marked s ?m) (nm, us_session us) =
      Inr ((nm', s'), [(marked s ?m)\<lparr>register_node_id := Some i\<rparr>])" "api_inv (nm', s')" "i \<noteq> 0" "i \<notin> link_ids sid st"
    "\<forall>j. j \<noteq> 0 \<and> j < i \<longrightarrow> j \<in> link_ids sid st" "fst ` set (nodes s') = insert i (link_ids sid st)"
    using register_answer [OF st(3) j(1), of sid "marked s ?m"] j(2) unfolding st(5) by blast
  have p: "APISession_process B keccak dec enc sid (marked s ?m) (nm, us_session us) =
      Inr ((nm', s'), [(marked s ?m)\<lparr>register_node_id := Some i\<rparr>])"
    using r(1) by (simp add: APISession_process_def type_field_def marked_def)
  have c: "codec_ok ser parse (marked s ?m)" "codec_ok ser parse ((marked s ?m)\<lparr>register_node_id := Some i\<rparr>)"
    using st(4) by (simp_all add: node_codec_def m)
  have a: "message_token ((marked s ?m)\<lparr>register_node_id := Some i\<rparr>) = Some (next_msg_token s)"
    "am_error ((marked s ?m)\<lparr>register_node_id := Some i\<rparr>) = None"
    by (simp_all add: marked_def APIMessage_new_def)
  have plain: "plain_request (marked s ?m)" by (simp add: plain_request_def type_field_def marked_def)
  from exchange_answered [OF st(2) c(1) p c(2) a] link_ok_step [OF st(4,2,6) plain p]
  obtain st' where "unix_exchange B keccak dec enc ser parse sid ?m st =
      Some (st', Inr ((marked s ?m)\<lparr>register_node_id := Some i\<rparr>))" "link_ok ser parse sid st'"
    "link_ids sid st' = fst ` set (nodes s')"
    using st(7) unfolding st(1) by blast
  with r(3-6) show ?thesis
    by (intro exI [of _ st'] exI [of _ "(marked s ?m)\<lparr>register_node_id := Some i\<rparr>"] exI [of _ i]) simp
qed

lemma unix_unregister:
  fixes st :: "P2PSession \<times> 'sk daemon_state option"
  assumes "link_ok ser parse sid st" and i: "i \<in> link_ids sid st"
  shows "\<exists>s' r. unix_exchange B keccak dec enc ser parse sid
        (APIMessage_new\<lparr>am_type := Some NODE_UNREGISTER, unregister_node_id := Some i\<rparr>) st = Some (s', Inr r) \<and>
      link_ok ser parse sid s' \<and> link_ids sid s' = link_ids sid st - {i}"
proof -
  from assms(1) obtain s nm srv us where st: "st = (s, Some (nm, srv))" "link_idle sid (s, Some (nm, srv)) us"
    "api_inv (nm, us_session us)" "node_codec ser parse" "link_ids sid st = fst ` set (nodes (us_session us))"
    "server_inv (nm, srv)" "session_read s \<noteq> None"
    by (elim link_okE)
  let ?m = "APIMessage_new\<lparr>am_type := Some NODE_UNREGISTER, unregister_node_id := Some i\<rparr>"
  have m: "marked s ?m = unregister_request (next_msg_token s) i" by (simp add: marked_def unregister_request_def)
  have "unregister_node_id (marked s ?m) = Some i" by (simp add: marked_def)
  from unregister_answer [OF st(3) _ this] i obtain nm' s' where r: "NodeUnRegister (marked s ?m) (nm, us_session us) =
      Inr ((nm', s'), [marked s ?m])" "api_inv (nm', s')" "fst ` set (nodes s') = link_ids sid st - {i}"
    unfolding st(5) by blast
  have p: "APISession_process B keccak dec enc sid (marked s ?m) (nm, us_session us) = Inr ((nm', s'), [marked s ?m])"
    using r(1) by (simp add: APISession_process_def type_field_def marked_def)
  have c: "codec_ok ser parse (marked s ?m)" using st(4) by (simp add: node_codec_def m)
  have a: "message_token (marked s ?m) = Some (next_msg_token s)" "am_error (marked s ?m) = None"
    by (simp_all add: marked_def APIMessage_new_def)
  have plain: "plain_request (marked s ?m)" by (simp add: plain_request_def type_field_def marked_def)
  from exchange_answered [OF st(2) c p c a] link_ok_step [OF st(4,2,6) plain p]
  obtain st' where "unix_exchange B keccak dec enc ser parse sid ?m st = Some (st', Inr (marked s ?m))"
    "link_ok ser parse sid st'" "link_ids sid st' = fst ` set (nodes s')"
    using st(7) unfolding st(1) by blast
  with r(3) show ?thesis by auto
qed

interpretation unix_link: node_service
  "unix_exchange B keccak dec enc ser parse sid" "link_ids sid" "link_ok ser parse sid"
  for B :: "('sk, 'pk) botan_ecdsa" and keccak dec enc ser parse sid
  by unfold_locales (rule unix_register unix_unregister; assumption)+

lemma accepted_link_ok:
  assumes "server_inv (nm, srv)" and "handleAccept no_error srv = Inr srv'" and "node_codec ser parse"
    and "awaiting_receive s = Map.empty" and "session_read s \<noteq> None"
  shows "link_ok ser parse (next_session srv) (s, Some (nm, srv')) \<and>
    link_ids (next_session srv) (s, Some (nm, srv')) = {}"
proof -
  have "\<not> is_error no_error" by (simp add: is_error_def no_error_def)
  from handleAccept_inv [OF assms(1) this] assms(2) have "server_inv (nm, srv')"
    "session_heap srv' (next_session srv) = Some ((UnixAPISession_new no_error)\<lparr>us_read := Some asyncReceive\<rparr>)"
    by auto
  with assms(3-5) \<open>\<not> is_error no_error\<close> show ?thesis
    by (simp add: link_ok_def link_idle_def link_ids_def UnixAPISession_new_def) (simp add: APISession_new_def)
qed

text \<open>A serializer and its parser for the messages of the node service, for examples.\<close>

definition plain_ser :: "APIMessage \<Rightarrow> string" where
  "plain_ser m =
     (let num = (\<lambda>f. string_of_bytes (be4_of_word (u32_field f))) in
      if type_field m = NODE_REGISTER then
        (case register_node_id m of
           None \<Rightarrow> CHR ''r'' # num (message_token m)
         | Some i \<Rightarrow> CHR ''R'' # num (message_token m) @ num (Some i))
      else CHR ''u'' # num (message_token m) @ num (unregister_node_id m))"

definition plain_parse :: "string \<Rightarrow> APIMessage" where
  "plain_parse s =
     (let t = ntohl (take 4 (tl s)); i = ntohl (take 4 (drop 4 (tl s))) in
      if hd s = CHR ''r'' then register_request t
      else if hd s = CHR ''R'' then (register_request t)\<lparr>register_node_id := Some i\<rparr>
      else unregister_request t i)"

lemma plain_node_codec: "node_codec plain_ser plain_parse"
  by (simp add: node_codec_def codec_ok_def plain_ser_def plain_parse_def type_field_def register_request_def
      unregister_request_def APIMessage_new_def u32_field_def Let_def)

text \<open>A server that has just been started, for examples.\<close>

definition example_server :: UnixAPIServer where
  "example_server = APIServer_new\<lparr>acceptor_ptr := Some ''/run/s'', socket_path := ''/run/s'', accept_pending := True\<rparr>"

lemma example_server_reach: "server_reach B keccak dec enc ser (NodeManager_new, example_server)"
proof -
  let ?config = "\<lparr>internal_config = [''api.unix.system_sock_path'' \<mapsto> ''/run/s''], internal_config_defaults = Map.empty,
      config_directory = [], config_file = []\<rparr>"
  have "UnixAPIServer_new (\<lambda>_. None) (\<lambda>_. no_error)
      \<lparr>env_config_dir = None, env_uid = 0, env_home = None, env_pw_dir = []\<rparr> ?config = Inr example_server"
    by (simp add: UnixAPIServer_new_def getSocketPathList_def getPermissions_def getValue_def ptree_get_def
        is_error_def no_error_def UnixAPIServer_accept_def APIServer_new_def example_server_def)
  then show ?thesis by (rule server_start)
qed

lemma reused_number:
  assumes "link_ok ser parse sid st" and "link_ids sid st = {0<..k}" and "i \<in> {0<..k}"
    and "impl_node_id node = i"
  shows "\<exists>st1 st2. P2PNode_delete (unix_exchange B keccak dec enc ser parse sid) node st = Some (st1, Inr ()) \<and>
    P2PNode_new (unix_exchange B keccak dec enc ser parse sid) st1 =
      Some (st2, Inr (\<lparr>impl_node_id = i, m_bound_private_key = PrivateKeyDSA_new\<rparr> :: 'sk P2PNode))"
proof -
  have "impl_node_id node \<in> link_ids sid st" using assms(2-4) by simp
  from unix_link.delete_node [OF assms(1) this, of B keccak dec enc] obtain st1 where
    del: "P2PNode_delete (unix_exchange B keccak dec enc ser parse sid) node st = Some (st1, Inr ())"
    "link_ok ser parse sid st1" "link_ids sid st1 = {0<..k} - {i}"
    using assms(2,4) by blast
  have "i \<noteq> 0" "i \<notin> link_ids sid st1" using assms(3) del(3) by auto
  from unix_link.new_node [OF del(2) this, of B keccak dec enc] obtain st2 i' where
    new: "P2PNode_new (unix_exchange B keccak dec enc ser parse sid) st1 =
      Some (st2, Inr (\<lparr>impl_node_id = i', m_bound_private_key = PrivateKeyDSA_new\<rparr> :: 'sk P2PNode))"
    "i' \<noteq> 0" "i' \<notin> link_ids sid st1" "\<forall>j. j \<noteq> 0 \<and> j < i' \<longrightarrow> j \<in> link_ids sid st1" by blast
  have "\<not> i < i'" using new(4) \<open>i \<noteq> 0\<close> \<open>i \<notin> link_ids sid st1\<close> by blast
  moreover have "\<not> i' < i"
  proof
    assume "i' < i"
    then have "i' \<in> {0<..k} - {i}" using assms(3) new(2) by (auto simp: word_greater_zero_iff)
    with new(3) del(3) show False by simp
  qed
  ultimately have "i' = i" by simp
  with del new show ?thesis by blast
qed

subsection \<open>Properties\<close>

text \<open>
  (C1) End to end: a program that connects to a daemon in any state its server reaches, whatever its
  other clients have done, and makes \<open>n\<close> nodes gets them all, with the numbers from 1 to \<open>n\<close>; a node
  it then deletes is unregistered, and the next node it makes gets that number again.  The requests
  and replies travel through the library's session, the framing, the server and its session.
\<close>

theorem client_node_numbers:
  assumes "server_reach B keccak dec enc ser (nm, srv)" and "handleAccept no_error srv = Inr srv'"
    and "node_codec ser parse" and "n < 4294967296" and "ex = unix_exchange B keccak dec enc ser parse (next_session srv)"
  shows "\<exists>st (ns :: 'sk P2PNode list). new_nodes ex n (P2PSession_receiveLoop P2PSession_new, Some (nm, srv')) = Some (st, ns) \<and>
    map impl_node_id ns = map word_of_nat [1..<Suc n] \<and>
    (\<forall>node\<in>set ns. \<exists>st1 st2 (node' :: 'sk P2PNode). P2PNode_delete ex node st = Some (st1, Inr ()) \<and>
       P2PNode_new ex st1 = Some (st2, Inr node') \<and> impl_node_id node' = impl_node_id node)"
proof -
  let ?sid = "next_session srv" and ?st0 = "(P2PSession_receiveLoop P2PSession_new, Some (nm, srv'))"
  have inv: "server_inv (nm, srv)" using assms(1) by (rule server_reach_inv)
  have "link_ok ser parse ?sid ?st0" "link_ids ?sid ?st0 = {0<..0}"
    using accepted_link_ok [OF inv assms(2,3), of "P2PSession_receiveLoop P2PSession_new"]
    by (simp_all add: P2PSession_receiveLoop_def P2PSession_new_def)
  from unix_link.numbered_nodes [OF this, of n B keccak dec enc] assms(4)
  obtain st and ns :: "'sk P2PNode list" where new: "new_nodes ex n ?st0 = Some (st, ns)"
    "link_ok ser parse ?sid st" "link_ids ?sid st = {0<..word_of_nat n}" "map impl_node_id ns = map word_of_nat [1..<Suc n]"
    by (auto simp: assms(5))
  have "\<exists>st1 st2 (node' :: 'sk P2PNode). P2PNode_delete ex node st = Some (st1, Inr ()) \<and>
       P2PNode_new ex st1 = Some (st2, Inr node') \<and> impl_node_id node' = impl_node_id node" if "node \<in> set ns" for node
  proof -
    have "impl_node_id node \<in> word_of_nat ` {1..<Suc n}"
      using that arg_cong [OF new(4), of set] by (metis image_eqI list.set_map set_upt)
    then obtain j where j: "impl_node_id node = word_of_nat j" "0 < j" "j \<le> n" by auto
    then have "unat (impl_node_id node) = j" "unat (word_of_nat n :: u32) = n"
      using assms(4) by (simp_all add: unat_u32_of_nat)
    then have "impl_node_id node \<in> {0<..word_of_nat n}"
      using j by (simp add: word_less_nat_alt word_le_nat_alt)
    from reused_number [OF new(2,3) this refl, of B keccak dec enc] obtain st1 st2 where
      "P2PNode_delete ex node st = Some (st1, Inr ())"
      "P2PNode_new ex st1 = Some (st2, Inr (\<lparr>impl_node_id = impl_node_id node,
         m_bound_private_key = PrivateKeyDSA_new\<rparr> :: 'sk P2PNode))"
      unfolding assms(5) [symmetric] by blast
    then show ?thesis by (metis P2PNode.select_convs(1))
  qed
  with new show ?thesis by blast
qed

theorem client_node_numbers_witness:
  "\<exists>(srv :: UnixAPIServer) srv' st (ns :: nat P2PNode list). handleAccept no_error srv = Inr srv' \<and>
     new_nodes (unix_exchange plain_ecdsa bytes_of_string be_value be_bytes plain_ser plain_parse (next_session srv)) 3
       (P2PSession_receiveLoop P2PSession_new, Some (NodeManager_new, srv')) = Some (st, ns) \<and>
     map impl_node_id ns = map word_of_nat [1..<Suc 3]"
proof -
  let ?srv = example_server
  have r: "server_reach plain_ecdsa bytes_of_string be_value be_bytes plain_ser (NodeManager_new, ?srv)"
    by (rule example_server_reach)
  obtain srv' where a: "handleAccept no_error ?srv = Inr srv'"
    by (simp add: example_server_def handleAccept_def receiveLoop_def UnixAPIServer_accept_def Let_def)
  from client_node_numbers [OF r a plain_node_codec, of 3 "unix_exchange plain_ecdsa bytes_of_string be_value be_bytes
      plain_ser plain_parse (next_session ?srv)"]
  obtain st and ns :: "nat P2PNode list" where
    "new_nodes (unix_exchange plain_ecdsa bytes_of_string be_value be_bytes plain_ser plain_parse (next_session ?srv)) 3
       (P2PSession_receiveLoop P2PSession_new, Some (NodeManager_new, srv')) = Some (st, ns)" "map impl_node_id ns = map word_of_nat [1..<Suc 3]"
    by auto
  with a show ?thesis by blast
qed

text \<open>
  (C35) Calls that never return: the destructor of a socket, a call of \<^verbatim>\<open>accept\<close> (which ends the daemon)
  and a call of \<^verbatim>\<open>listen\<close> on a node the daemon does not know wait for an answer that does not come.
\<close>

theorem calls_block:
  assumes "link_idle sid (s, Some (nm, srv)) us" and "map_of (nodes (us_session us)) (impl_node_id node) = None"
    and "\<forall>m \<in> {APIMessage_new\<lparr>am_type := Some SOCKET_UNREGISTER, socket_node_id := Some (sock_node_id socket),
           socket_socket_id := Some (sock_socket_id socket)\<rparr>,
         APIMessage_new\<lparr>am_type := Some NODE_ACCEPT, accept_node_id := Some (impl_node_id node)\<rparr>,
         APIMessage_new\<lparr>am_type := Some NODE_LISTEN, listen_node_id := Some (impl_node_id node),
           listen_max_connections := Some max_conn\<rparr>}. codec_ok ser parse (marked s m)"
    and "ex = unix_exchange B keccak dec enc ser parse sid"
  shows "P2PSocket_delete ex socket (s, Some (nm, srv)) = None \<and> P2PNode_accept ex node (s, Some (nm, srv)) = None \<and>
    P2PNode_listen ex max_conn node (s, Some (nm, srv)) = None"
proof (intro conjI)
  show "P2PSocket_delete ex socket (s, Some (nm, srv)) = None"
    using exchange_unanswered [OF assms(1), of ser parse _ B keccak dec enc nm "us_session us"] assms(3)
    by (simp add: P2PSocket_delete_def assms(4) APISession_process_def type_field_def marked_def SocketUnRegister_def)
  show "P2PNode_accept ex node (s, Some (nm, srv)) = None"
    using exchange_daemon_ends [OF assms(1), of ser parse _ B keccak dec enc Terminate] assms(3)
    by (simp add: P2PNode_accept_def assms(4) APISession_process_def type_field_def marked_def NodeAccept_def
        lift_call_def)
  show "P2PNode_listen ex max_conn node (s, Some (nm, srv)) = None"
    using exchange_unanswered [OF assms(1), of ser parse _ B keccak dec enc nm "us_session us"] assms(2,3)
    by (simp add: P2PNode_listen_def assms(4) APISession_process_def type_field_def marked_def NodeListen_def
        lift_call_def remoteThrow_def u32_field_def)
qed

definition example_us :: UnixAPISession where
  "example_us = (UnixAPISession_new no_error)\<lparr>us_read := Some asyncReceive\<rparr>"

definition example_request :: "MessageType \<Rightarrow> APIMessage" where
  "example_request ty = (case ty of
     SOCKET_UNREGISTER \<Rightarrow> marked P2PSession_new (APIMessage_new\<lparr>am_type := Some SOCKET_UNREGISTER,
       socket_node_id := Some 1, socket_socket_id := Some 2\<rparr>)
   | NODE_ACCEPT \<Rightarrow> marked P2PSession_new (APIMessage_new\<lparr>am_type := Some NODE_ACCEPT, accept_node_id := Some 4\<rparr>)
   | _ \<Rightarrow> marked P2PSession_new (APIMessage_new\<lparr>am_type := Some NODE_LISTEN, listen_node_id := Some 4,
       listen_max_connections := Some 10\<rparr>))"

theorem calls_block_witness:
  "P2PSocket_delete (unix_exchange plain_ecdsa bytes_of_string be_value be_bytes
       (\<lambda>m. if type_field m = SOCKET_UNREGISTER then ''s'' else if type_field m = NODE_ACCEPT then ''a'' else ''l'')
       (\<lambda>b. if b = ''s'' then example_request SOCKET_UNREGISTER else if b = ''a'' then example_request NODE_ACCEPT
            else example_request NODE_LISTEN) 0)
     \<lparr>sock_node_id = 1, sock_socket_id = 2, m_remote_sh = []\<rparr>
     (P2PSession_new, Some (NodeManager_new, APIServer_new\<lparr>session_heap := [0 \<mapsto> example_us]\<rparr>)) = None"
proof -
  let ?ser = "\<lambda>m. if type_field m = SOCKET_UNREGISTER then ''s'' else if type_field m = NODE_ACCEPT then ''a'' else ''l''"
  let ?parse = "\<lambda>b. if b = ''s'' then example_request SOCKET_UNREGISTER else if b = ''a'' then example_request NODE_ACCEPT
      else example_request NODE_LISTEN"
  let ?node = "\<lparr>impl_node_id = 4, m_bound_private_key = PrivateKeyDSA_new\<rparr> :: nat P2PNode"
  have idle: "link_idle 0 (P2PSession_new, Some (NodeManager_new, APIServer_new\<lparr>session_heap := [0 \<mapsto> example_us]\<rparr>)) example_us"
    by (simp add: link_idle_def P2PSession_new_def example_us_def UnixAPISession_new_def is_error_def no_error_def)
  have "map_of (nodes (us_session example_us)) (impl_node_id ?node) = None"
    by (simp add: example_us_def UnixAPISession_new_def APISession_new_def)
  note b = calls_block [OF idle this, of "\<lparr>sock_node_id = 1, sock_socket_id = 2, m_remote_sh = []\<rparr>" 10 ?ser ?parse
      _ plain_ecdsa bytes_of_string be_value be_bytes, OF _ refl]
  show ?thesis
    by (rule b [THEN conjunct1])
      (simp add: codec_ok_def example_request_def marked_def type_field_def)
qed

end
