(* ===== verification/Client_Shared.thy ===== *)
theory Client_Shared
  imports Client_Stack
begin

section \<open>The connection that nodes share (P2PNode.cpp, P2PDaemon.cpp, Singleton.h)\<close>

text \<open>
  A node made without naming a daemon asks \<^verbatim>\<open>SharedSingleton<P2PAutoDaemon>\<close> for one and holds a
  shared pointer to it.  The first such node makes the connection, the last one that goes destroys it.
  Here the constructor and the destructor of a node, the singleton, the connection with its session and
  its socket, and the server of the daemon are put together.
\<close>

subsection \<open>The state of a program\<close>

text \<open>
  When the last shared pointer is released, the main thread deletes the socket and then stops the
  thread of the session.  The read that was waiting on the socket ends with an error, and its handler,
  bound to the deleted socket, is run by that thread unless the thread is stopped before:
  \<open>StopFirst\<close> and \<open>ReadFirst\<close> are the two orders.
\<close>

datatype teardown = StopFirst | ReadFirst

text \<open>What the program is linked with and runs on, and which of the two orders its threads take.\<close>

record ('sk, 'pk) surroundings =
  env_ecdsa :: "('sk, 'pk) botan_ecdsa"
  env_keccak :: "string \<Rightarrow> bytes"
  env_dec :: "bytes \<Rightarrow> nat"
  env_enc :: "nat \<Rightarrow> bytes"
  env_ser :: "APIMessage \<Rightarrow> string"
  env_parse :: "string \<Rightarrow> APIMessage"
  env_connect_error :: "string \<Rightarrow> boost_error"
  env_paths :: "string list result"
  env_shutdown_error :: boost_error
  env_order :: teardown

text \<open>
  \<open>daemons\<close> are the connection objects by address, with the number of the session the server keeps for
  each; \<open>held\<close> has an entry for every shared pointer in a node; \<open>daemon_side\<close> is the daemon's own state.
\<close>

record 'sk program =
  shared_instance :: singleton
  daemons :: "nat \<rightharpoonup> nat \<times> P2PAutoDaemon"
  held :: "nat list"
  daemon_side :: "'sk daemon_state option"

definition program_new :: "'sk daemon_state \<Rightarrow> 'sk program" where
  "program_new st =
     \<lparr>shared_instance = \<lparr>static_instance = None, live_objects = [], next_address = 0\<rparr>, daemons = Map.empty,
      held = [], daemon_side = Some st\<rparr>"

subsection \<open>Operations\<close>

text \<open>\<^verbatim>\<open>clientExchange\<close> of a connection goes to its session, which sends through the connection's socket.\<close>

definition P2PDaemon_clientExchange ::
  "('sk, 'pk) surroundings \<Rightarrow> nat \<Rightarrow> (P2PAutoDaemon \<times> 'sk daemon_state option) exchange" where
  "P2PDaemon_clientExchange E sid request_message st =
     (case st of (this, d) \<Rightarrow>
        if m_socket (underlying_daemon this) \<noteq> LiveSock then Some ((this, d), Inl UndefinedBehaviour)
        else map_option (\<lambda>((s, d1), r).
               ((this\<lparr>underlying_daemon := (underlying_daemon this)\<lparr>daemon_session := s\<rparr>\<rparr>, d1), r))
             (unix_exchange (env_ecdsa E) (env_keccak E) (env_dec E) (env_enc E) (env_ser E) (env_parse E) sid
               request_message (daemon_session (underlying_daemon this), d)))"

definition shared_exchange :: "('sk, 'pk) surroundings \<Rightarrow> nat \<Rightarrow> 'sk program exchange" where
  "shared_exchange E p request_message pr =
     (case daemons pr p of
        None \<Rightarrow> Some (pr, Inl UndefinedBehaviour)
      | Some (sid, this) \<Rightarrow>
          map_option (\<lambda>((this1, d1), r).
              (pr\<lparr>daemons := (daemons pr)(p \<mapsto> (sid, this1)), daemon_side := d1\<rparr>, r))
            (P2PDaemon_clientExchange E sid request_message (this, daemon_side pr)))"

text \<open>What the server of the daemon does when a connection has been made: the number of its new session.\<close>

definition server_accepts :: "P2PAutoDaemon \<Rightarrow> 'sk daemon_state option \<Rightarrow> nat \<times> 'sk daemon_state option" where
  "server_accepts this d =
     (case d of
        None \<Rightarrow> (0, None)
      | Some (nm, srv) \<Rightarrow>
          if P2PAutoDaemon_is_connected this then
            (next_session srv, case handleAccept no_error srv of Inl _ \<Rightarrow> None | Inr srv1 \<Rightarrow> Some (nm, srv1))
          else (next_session srv, Some (nm, srv)))"

text \<open>
  The singleton for this class: an object that is not held any more is made anew.  When its constructor
  throws, the static pointer is not set.
\<close>

definition P2PAutoDaemon_getInstance :: "('sk, 'pk) surroundings \<Rightarrow> 'sk program \<Rightarrow> 'sk program \<times> nat result" where
  "P2PAutoDaemon_getInstance E pr =
     (case SharedSingleton_getInstance (shared_instance pr) of (p, instance1) \<Rightarrow>
        if p \<in> set (live_objects (shared_instance pr)) then (pr, Inr p)
        else case P2PAutoDaemon_new (env_connect_error E) (env_paths E) of
               (_, Inl e) \<Rightarrow> (pr, Inl e)
             | (this, Inr _) \<Rightarrow>
                 (case server_accepts this (daemon_side pr) of (sid, d1) \<Rightarrow>
                    (pr\<lparr>shared_instance := instance1, daemons := (daemons pr)(p \<mapsto> (sid, this)), daemon_side := d1\<rparr>,
                     Inr p)))"

text \<open>The destructors: an exception that leaves one ends the program.\<close>

definition UnixAPISocket_delete :: "boost_error \<Rightarrow> unit result" where
  "UnixAPISocket_delete shutdown_error = (if is_error shutdown_error then Inl Terminate else Inr ())"

definition P2PSession_delete :: "teardown \<Rightarrow> P2PSession \<Rightarrow> unit result" where
  "P2PSession_delete order this =
     (case order of
        StopFirst \<Rightarrow> Inr ()
      | ReadFirst \<Rightarrow> if session_read this \<noteq> None then Inl UndefinedBehaviour else Inr ())"

definition server_closes ::
  "('sk, 'pk) surroundings \<Rightarrow> nat \<Rightarrow> P2PAutoDaemon \<Rightarrow> 'sk daemon_state option \<Rightarrow> 'sk daemon_state option" where
  "server_closes E sid this d =
     (case d of
        None \<Rightarrow> None
      | Some st \<Rightarrow>
          if P2PAutoDaemon_is_connected this then
            (case server_close (env_ecdsa E) (env_keccak E) (env_dec E) (env_enc E) (env_ser E) sid st of
               Inl _ \<Rightarrow> None
             | Inr st1 \<Rightarrow> Some st1)
          else Some st)"

text \<open>A shared pointer goes: the object is destroyed when no node holds another.\<close>

definition release_daemon :: "('sk, 'pk) surroundings \<Rightarrow> nat \<Rightarrow> 'sk program \<Rightarrow> 'sk program result" where
  "release_daemon E p pr =
     (if p \<in> set (held pr) then Inr pr
      else case daemons pr p of
             None \<Rightarrow> Inl UndefinedBehaviour
           | Some (sid, this) \<Rightarrow>
               bind_result (P2PAutoDaemon_delete this) (\<lambda>_.
               bind_result (UnixAPISocket_delete (env_shutdown_error E)) (\<lambda>_.
               bind_result (P2PSession_delete (env_order E) (daemon_session (underlying_daemon this))) (\<lambda>_.
                 Inr (pr\<lparr>shared_instance := (shared_instance pr)\<lparr>live_objects :=
                            removeAll p (live_objects (shared_instance pr))\<rparr>,
                         daemons := (daemons pr)(p := None),
                         daemon_side := server_closes E sid this (daemon_side pr)\<rparr>)))))"

text \<open>
  A node on a shared connection keeps its address.  If registering throws, the pointer passed to the
  constructor is released on the way out.
\<close>

definition P2PNode_of_shared ::
  "('sk, 'pk) surroundings \<Rightarrow> nat \<Rightarrow> 'sk program \<Rightarrow> ('sk program, nat \<times> 'sk P2PNode) call" where
  "P2PNode_of_shared E p pr =
     (case P2PNode_new (shared_exchange E p) pr of
        None \<Rightarrow> None
      | Some (pr1, Inr node) \<Rightarrow> Some (pr1\<lparr>held := p # held pr1\<rparr>, Inr (p, node))
      | Some (pr1, Inl e) \<Rightarrow>
          (case release_daemon E p pr1 of
             Inl e1 \<Rightarrow> Some (pr1, Inl e1)
           | Inr pr2 \<Rightarrow> Some (pr2, Inl e)))"

definition P2PNode_default ::
  "('sk, 'pk) surroundings \<Rightarrow> 'sk program \<Rightarrow> ('sk program, nat \<times> 'sk P2PNode) call" where
  "P2PNode_default E pr =
     (case P2PAutoDaemon_getInstance E pr of
        (pr1, Inl e) \<Rightarrow> Some (pr1, Inl e)
      | (pr1, Inr p) \<Rightarrow> P2PNode_of_shared E p pr1)"

definition P2PNode_shared_delete ::
  "('sk, 'pk) surroundings \<Rightarrow> nat \<times> 'sk P2PNode \<Rightarrow> 'sk program \<Rightarrow> ('sk program, unit) call" where
  "P2PNode_shared_delete E this pr =
     (case this of (p, node) \<Rightarrow>
        case P2PNode_delete (shared_exchange E p) node pr of
          None \<Rightarrow> None
        | Some (pr1, Inl e) \<Rightarrow> Some (pr1, Inl e)
        | Some (pr1, Inr _) \<Rightarrow>
            (let pr2 = pr1\<lparr>held := remove1 p (held pr1)\<rparr> in
             case release_daemon E p pr2 of
               Inl e \<Rightarrow> Some (pr2, Inl e)
             | Inr pr3 \<Rightarrow> Some (pr3, Inr ())))"

text \<open>Programs that make some nodes, and that delete some.\<close>

fun default_nodes ::
  "('sk, 'pk) surroundings \<Rightarrow> nat \<Rightarrow> 'sk program \<Rightarrow> ('sk program \<times> (nat \<times> 'sk P2PNode) list) option" where
  "default_nodes E 0 pr = Some (pr, [])"
| "default_nodes E (Suc n) pr =
     (case P2PNode_default E pr of
        Some (pr1, Inr node) \<Rightarrow>
          (case default_nodes E n pr1 of Some (pr2, ns) \<Rightarrow> Some (pr2, node # ns) | None \<Rightarrow> None)
      | _ \<Rightarrow> None)"

fun delete_default_nodes ::
  "('sk, 'pk) surroundings \<Rightarrow> (nat \<times> 'sk P2PNode) list \<Rightarrow> 'sk program \<Rightarrow> ('sk program, unit) call" where
  "delete_default_nodes E [] pr = Some (pr, Inr ())"
| "delete_default_nodes E (n # ns) pr =
     (case P2PNode_shared_delete E n pr of
        Some (pr1, Inr _) \<Rightarrow> delete_default_nodes E ns pr1
      | stopped \<Rightarrow> stopped)"

subsection \<open>The shared connection provides the node service\<close>

definition shared_state :: "P2PAutoDaemon \<Rightarrow> 'sk program \<Rightarrow> P2PSession \<times> 'sk daemon_state option" where
  "shared_state this pr = (daemon_session (underlying_daemon this), daemon_side pr)"

definition shared_ids :: "nat \<Rightarrow> 'sk program \<Rightarrow> u32 set" where
  "shared_ids p pr = (case daemons pr p of None \<Rightarrow> {} | Some (sid, this) \<Rightarrow> link_ids sid (shared_state this pr))"

text \<open>At address \<open>p\<close> is the only connection; it is open, at rest, and held by \<open>k\<close> nodes.\<close>

definition shared_ok :: "('sk, 'pk) surroundings \<Rightarrow> nat \<Rightarrow> nat \<Rightarrow> 'sk program \<Rightarrow> bool" where
  "shared_ok E p k pr \<longleftrightarrow>
     static_instance (shared_instance pr) = Some p \<and> live_objects (shared_instance pr) = [p] \<and>
     next_address (shared_instance pr) = Suc p \<and> held pr = replicate k p \<and>
     (\<exists>sid this. daemons pr = [p \<mapsto> (sid, this)] \<and> m_socket (underlying_daemon this) = LiveSock \<and>
        P2PAutoDaemon_is_connected this \<and> link_ok (env_ser E) (env_parse E) sid (shared_state this pr))"

text \<open>No connection is left.\<close>

definition shared_idle :: "nat \<Rightarrow> 'sk program \<Rightarrow> bool" where
  "shared_idle p pr \<longleftrightarrow> live_objects (shared_instance pr) = [] \<and> next_address (shared_instance pr) = p \<and>
     held pr = [] \<and> daemons pr = Map.empty \<and> (\<exists>st. daemon_side pr = Some st \<and> server_inv st)"

text \<open>The daemon can be reached.\<close>

definition connects :: "('sk, 'pk) surroundings \<Rightarrow> bool" where
  "connects E \<longleftrightarrow> node_codec (env_ser E) (env_parse E) \<and>
     (case P2PAutoDaemon_new (env_connect_error E) (env_paths E) of
        (_, Inl _) \<Rightarrow> False
      | (this, Inr _) \<Rightarrow> P2PAutoDaemon_is_connected this)"

lemma shared_exchange_link:
  assumes "shared_ok E p k pr" and "daemons pr = [p \<mapsto> (sid, this)]"
    and "unix_exchange (env_ecdsa E) (env_keccak E) (env_dec E) (env_enc E) (env_ser E) (env_parse E) sid m
      (shared_state this pr) = Some (st', r)"
    and "link_ok (env_ser E) (env_parse E) sid st'"
  shows "\<exists>pr'. shared_exchange E p m pr = Some (pr', r) \<and> shared_ok E p k pr' \<and> shared_ids p pr' = link_ids sid st'"
proof -
  obtain s d where st': "st' = (s, d)" by fastforce
  let ?conn = "this\<lparr>underlying_daemon := (underlying_daemon this)\<lparr>daemon_session := s\<rparr>\<rparr>"
  let ?pr = "pr\<lparr>daemons := [p \<mapsto> (sid, ?conn)], daemon_side := d\<rparr>"
  have t: "m_socket (underlying_daemon this) = LiveSock" "P2PAutoDaemon_is_connected this"
    using assms(1,2) by (auto simp: shared_ok_def dest: fun_cong [of _ _ p])
  have "shared_exchange E p m pr = Some (?pr, r)"
    using assms(2,3) t(1) by (simp add: shared_exchange_def P2PDaemon_clientExchange_def shared_state_def st')
  moreover have "shared_ok E p k ?pr"
    unfolding shared_ok_def
    by (intro conjI exI [of _ sid] exI [of _ ?conn])
      (use assms(1,4) t in \<open>simp_all add: shared_ok_def shared_state_def st' P2PAutoDaemon_is_connected_def is_connected_def\<close>)
  moreover have "shared_ids p ?pr = link_ids sid st'" by (simp add: shared_ids_def shared_state_def st')
  ultimately show ?thesis by blast
qed

lemma shared_okE:
  assumes "shared_ok E p k pr"
  obtains sid this where "daemons pr = [p \<mapsto> (sid, this)]" "m_socket (underlying_daemon this) = LiveSock"
    "P2PAutoDaemon_is_connected this" "link_ok (env_ser E) (env_parse E) sid (shared_state this pr)"
    "shared_ids p pr = link_ids sid (shared_state this pr)"
  using assms by (auto simp: shared_ok_def shared_ids_def)

lemma shared_register:
  assumes "shared_ok E p k pr" and "j \<noteq> 0" and "j \<notin> shared_ids p pr"
  shows "\<exists>pr' r i. shared_exchange E p (APIMessage_new\<lparr>am_type := Some NODE_REGISTER\<rparr>) pr = Some (pr', Inr r) \<and>
    register_node_id r = Some i \<and> shared_ok E p k pr' \<and> i \<noteq> 0 \<and> i \<notin> shared_ids p pr \<and>
    (\<forall>j. j \<noteq> 0 \<and> j < i \<longrightarrow> j \<in> shared_ids p pr) \<and> shared_ids p pr' = insert i (shared_ids p pr)"
proof -
  from assms(1) obtain sid this where t: "daemons pr = [p \<mapsto> (sid, this)]"
    "link_ok (env_ser E) (env_parse E) sid (shared_state this pr)" "shared_ids p pr = link_ids sid (shared_state this pr)"
    by (elim shared_okE)
  have "j \<notin> link_ids sid (shared_state this pr)" using assms(3) t(3) by simp
  from unix_register [OF t(2) assms(2) this, of "env_ecdsa E" "env_keccak E" "env_dec E" "env_enc E"]
  obtain st' r i where new: "unix_exchange (env_ecdsa E) (env_keccak E) (env_dec E) (env_enc E) (env_ser E) (env_parse E) sid
      (APIMessage_new\<lparr>am_type := Some NODE_REGISTER\<rparr>) (shared_state this pr) = Some (st', Inr r)"
    "link_ok (env_ser E) (env_parse E) sid st'" "register_node_id r = Some i" "i \<noteq> 0" "i \<notin> shared_ids p pr"
    "\<forall>j. j \<noteq> 0 \<and> j < i \<longrightarrow> j \<in> shared_ids p pr" "link_ids sid st' = insert i (shared_ids p pr)"
    unfolding t(3) by blast
  from shared_exchange_link [OF assms(1) t(1) new(1,2)] new(3-7) show ?thesis by auto
qed

lemma shared_unregister:
  assumes "shared_ok E p k pr" and "i \<in> shared_ids p pr"
  shows "\<exists>pr' r. shared_exchange E p (APIMessage_new\<lparr>am_type := Some NODE_UNREGISTER, unregister_node_id := Some i\<rparr>) pr =
      Some (pr', Inr r) \<and> shared_ok E p k pr' \<and> shared_ids p pr' = shared_ids p pr - {i}"
proof -
  from assms(1) obtain sid this where t: "daemons pr = [p \<mapsto> (sid, this)]"
    "link_ok (env_ser E) (env_parse E) sid (shared_state this pr)" "shared_ids p pr = link_ids sid (shared_state this pr)"
    by (elim shared_okE)
  have "i \<in> link_ids sid (shared_state this pr)" using assms(2) t(3) by simp
  from unix_unregister [OF t(2) this, of "env_ecdsa E" "env_keccak E" "env_dec E" "env_enc E"]
    shared_exchange_link [OF assms(1) t(1)] t(3)
  show ?thesis by metis
qed

interpretation shared_link: node_service "shared_exchange E p" "shared_ids p" "shared_ok E p k"
  for E :: "('sk, 'pk) surroundings" and p k
  by unfold_locales (rule shared_register shared_unregister; assumption)+

subsection \<open>Making and deleting nodes\<close>

text \<open>A connection that has been made is open, and the session that came with it has a read pending.\<close>

lemma connected_daemon:
  assumes "P2PAutoDaemon_new connect_error paths = (this, Inr ())"
  shows "m_socket (underlying_daemon this) = LiveSock \<and> awaiting_receive (daemon_session (underlying_daemon this)) = Map.empty \<and>
    session_read (daemon_session (underlying_daemon this)) \<noteq> None"
  using assms
  by (auto simp: P2PAutoDaemon_new_def P2PAutoDaemon_connect_def P2PAutoDaemon_of_session_def P2PUnixDaemon_connect_def
      P2PUnixDaemon_of_session_def P2PDaemon_receiveLoop_def P2PSession_receiveLoop_def P2PSession_new_def Let_def
      split: sum.splits prod.splits)

lemma getInstance_first:
  assumes "connects E" and "shared_idle p pr"
  shows "\<exists>pr'. P2PAutoDaemon_getInstance E pr = (pr', Inr p) \<and> shared_ok E p 0 pr' \<and> shared_ids p pr' = {}"
proof -
  obtain this where t: "P2PAutoDaemon_new (env_connect_error E) (env_paths E) = (this, Inr ())"
    "P2PAutoDaemon_is_connected this" "node_codec (env_ser E) (env_parse E)"
    using assms(1) by (auto simp: connects_def split: prod.splits sum.splits)
  from assms(2) obtain nm srv where d: "daemon_side pr = Some (nm, srv)" "server_inv (nm, srv)"
    by (auto simp: shared_idle_def)
  have "\<not> is_error no_error" by (simp add: is_error_def no_error_def)
  from handleAccept_inv [OF d(2) this] obtain srv' where acc: "handleAccept no_error srv = Inr srv'" by blast
  let ?sg = "shared_instance pr"
  let ?pr = "pr\<lparr>shared_instance := ?sg\<lparr>static_instance := Some p, live_objects := [p], next_address := Suc p\<rparr>,
      daemons := [p \<mapsto> (next_session srv, this)], daemon_side := Some (nm, srv')\<rparr>"
  have "SharedSingleton_getInstance ?sg =
      (p, ?sg\<lparr>static_instance := Some p, live_objects := [p], next_address := Suc p\<rparr>)"
    using assms(2) by (auto simp: SharedSingleton_getInstance_def shared_idle_def Let_def split: option.split)
  then have "P2PAutoDaemon_getInstance E pr = (?pr, Inr p)"
    using assms(2) t d acc
    by (simp add: P2PAutoDaemon_getInstance_def shared_idle_def server_accepts_def)
  moreover have "shared_ok E p 0 ?pr" "shared_ids p ?pr = {}"
    using accepted_link_ok [OF d(2) acc t(3), of "daemon_session (underlying_daemon this)"] connected_daemon [OF t(1)]
      t(2) assms(2)
    by (auto simp: shared_ok_def shared_ids_def shared_state_def shared_idle_def)
  ultimately show ?thesis by blast
qed

lemma getInstance_again:
  "shared_ok E p k pr \<Longrightarrow> P2PAutoDaemon_getInstance E pr = (pr, Inr p)"
  by (simp add: P2PAutoDaemon_getInstance_def SharedSingleton_getInstance_def shared_ok_def Let_def)

lemma shared_ok_held:
  "shared_ok E p k pr \<Longrightarrow> shared_ok E p k' (pr\<lparr>held := replicate k' p\<rparr>)"
  "shared_ids p (pr\<lparr>held := h\<rparr>) = shared_ids p pr"
  "shared_ok E p k pr \<Longrightarrow> held pr = replicate k p"
  by (simp_all add: shared_ok_def shared_ids_def shared_state_def split: option.split)

lemma of_shared_next:
  fixes E :: "('sk, 'pk) surroundings"
  assumes "shared_ok E p k pr" and "shared_ids p pr = {0<..i}" and "i + 1 \<noteq> 0"
  shows "\<exists>pr'. P2PNode_of_shared E p pr =
      Some (pr', Inr (p, \<lparr>impl_node_id = i + 1, m_bound_private_key = PrivateKeyDSA_new\<rparr>)) \<and>
    shared_ok E p (Suc k) pr' \<and> shared_ids p pr' = {0<..i + 1}"
proof -
  from shared_link.next_number [OF assms] obtain pr1 where
    1: "P2PNode_new (shared_exchange E p) pr =
      Some (pr1, Inr (\<lparr>impl_node_id = i + 1, m_bound_private_key = PrivateKeyDSA_new\<rparr> :: 'sk P2PNode))"
    "shared_ok E p k pr1" "shared_ids p pr1 = {0<..i + 1}" by blast
  with shared_ok_held(1) [OF 1(2), of "Suc k"] shared_ok_held(3) [OF 1(2)] show ?thesis
    by (simp add: P2PNode_of_shared_def shared_ok_held(2))
qed

text \<open>The nodes made after the first are all on the same connection.\<close>

lemma default_nodes_numbered:
  fixes E :: "('sk, 'pk) surroundings"
  assumes "shared_ok E p k pr" and "shared_ids p pr = {0<..i}" and "unat i + n < 4294967296"
  shows "\<exists>pr' ns. default_nodes E n pr = Some (pr', ns) \<and> shared_ok E p (k + n) pr' \<and>
    shared_ids p pr' = {0<..i + word_of_nat n} \<and>
    map (\<lambda>(q, node). (q, impl_node_id node)) ns = map (\<lambda>j. (p, i + word_of_nat j)) [1..<Suc n]"
  using assms
proof (induction n arbitrary: pr k i)
  case (Suc n)
  note room = u32_room [OF Suc.prems(3)]
  from of_shared_next [OF Suc.prems(1,2) room(1)] obtain pr1 where 1: "P2PNode_of_shared E p pr =
      Some (pr1, Inr (p, \<lparr>impl_node_id = i + 1, m_bound_private_key = PrivateKeyDSA_new\<rparr>))"
    "shared_ok E p (Suc k) pr1" "shared_ids p pr1 = {0<..i + 1}" by blast
  from Suc.IH [OF 1(2,3) room(2)] obtain pr2 ns where 2: "default_nodes E n pr1 = Some (pr2, ns)"
    "shared_ok E p (Suc k + n) pr2" "shared_ids p pr2 = {0<..i + 1 + word_of_nat n}"
    "map (\<lambda>(q, node). (q, impl_node_id node)) ns = map (\<lambda>j. (p, i + 1 + word_of_nat j)) [1..<Suc n]" by blast
  with 1(1) getInstance_again [OF Suc.prems(1)] show ?case
    using map_numbers_Suc [of "\<lambda>i. (p, i)" i n]
    by (simp add: P2PNode_default_def algebra_simps del: upt_Suc)
qed simp

lemma shared_delete_more:
  assumes "shared_ok E p (Suc (Suc k)) pr" and "impl_node_id node \<in> shared_ids p pr"
  shows "\<exists>pr'. P2PNode_shared_delete E (p, node) pr = Some (pr', Inr ()) \<and> shared_ok E p (Suc k) pr' \<and>
    shared_ids p pr' = shared_ids p pr - {impl_node_id node}"
proof -
  from shared_link.delete_node [OF assms] obtain pr1 where
    1: "P2PNode_delete (shared_exchange E p) node pr = Some (pr1, Inr ())" "shared_ok E p (Suc (Suc k)) pr1"
    "shared_ids p pr1 = shared_ids p pr - {impl_node_id node}" by blast
  with shared_ok_held(1) [OF 1(2), of "Suc k"] shared_ok_held(3) [OF 1(2)] show ?thesis
    by (simp add: P2PNode_shared_delete_def release_daemon_def shared_ok_held(2))
qed

text \<open>The last node of a connection that goes takes it down, and the server ends its session.\<close>

lemma release_last:
  assumes "shared_ok E p k pr" and "\<not> is_error (env_shutdown_error E)" and "pr1 = pr\<lparr>held := []\<rparr>"
  shows "env_order E = StopFirst \<Longrightarrow> \<exists>pr'. release_daemon E p pr1 = Inr pr' \<and> shared_idle (Suc p) pr'"
    and "env_order E = ReadFirst \<Longrightarrow> release_daemon E p pr1 = Inl UndefinedBehaviour"
proof -
  from assms(1) obtain sid this where t: "daemons pr = [p \<mapsto> (sid, this)]" "m_socket (underlying_daemon this) = LiveSock"
    "P2PAutoDaemon_is_connected this" "link_ok (env_ser E) (env_parse E) sid (shared_state this pr)"
    by (elim shared_okE)
  have del: "P2PAutoDaemon_delete this = Inr ()" "UnixAPISocket_delete (env_shutdown_error E) = Inr ()"
    using t(2) assms(2)
    by (simp_all add: P2PAutoDaemon_delete_def P2PUnixDaemon_delete_def P2PUnixDaemon_disconnect_def UnixAPISocket_delete_def)
  have read: "session_read (daemon_session (underlying_daemon this)) \<noteq> None"
    using t(4) by (simp add: link_ok_def shared_state_def)
  then show "release_daemon E p pr1 = Inl UndefinedBehaviour" if "env_order E = ReadFirst"
    using that t(1) del by (simp add: release_daemon_def assms(3) P2PSession_delete_def)
  from t(4) obtain nm srv us where d: "daemon_side pr = Some (nm, srv)" "server_inv (nm, srv)" "session_heap srv sid = Some us"
    by (auto simp: link_ok_def link_idle_def shared_state_def)
  then have "sid \<in> api_sessions srv" by (auto simp: server_inv_def)
  from close_inv [OF d(2) this, of "env_ecdsa E" "env_keccak E" "env_dec E" "env_enc E" "env_ser E"] obtain srv' where
    close: "server_close (env_ecdsa E) (env_keccak E) (env_dec E) (env_enc E) (env_ser E) sid (nm, srv) = Inr (nm, srv')"
      "server_inv (nm, srv')" by blast
  show "\<exists>pr'. release_daemon E p pr1 = Inr pr' \<and> shared_idle (Suc p) pr'" if "env_order E = StopFirst"
    using that t(1,3) del d(1) close assms(1)
    by (auto simp: release_daemon_def assms(3) P2PSession_delete_def server_closes_def shared_idle_def shared_ok_def)
qed

lemma shared_delete_last:
  assumes "shared_ok E p (Suc 0) pr" and "impl_node_id node \<in> shared_ids p pr" and "\<not> is_error (env_shutdown_error E)"
  shows "env_order E = StopFirst \<Longrightarrow>
      \<exists>pr'. P2PNode_shared_delete E (p, node) pr = Some (pr', Inr ()) \<and> shared_idle (Suc p) pr'"
    and "env_order E = ReadFirst \<Longrightarrow> \<exists>pr'. P2PNode_shared_delete E (p, node) pr = Some (pr', Inl UndefinedBehaviour)"
proof -
  from shared_link.delete_node [OF assms(1,2)] obtain pr1 where
    1: "P2PNode_delete (shared_exchange E p) node pr = Some (pr1, Inr ())" "shared_ok E p (Suc 0) pr1" by blast
  have held: "held pr1 = [p]" using shared_ok_held(3) [OF 1(2)] by simp
  note last = release_last [OF 1(2) assms(3) refl]
  show "\<exists>pr'. P2PNode_shared_delete E (p, node) pr = Some (pr', Inr ()) \<and> shared_idle (Suc p) pr'"
    if "env_order E = StopFirst"
    using last(1) [OF that] 1(1) held by (auto simp: P2PNode_shared_delete_def)
  show "\<exists>pr'. P2PNode_shared_delete E (p, node) pr = Some (pr', Inl UndefinedBehaviour)" if "env_order E = ReadFirst"
    using last(2) [OF that] 1(1) held by (simp add: P2PNode_shared_delete_def)
qed

lemma delete_default_nodes_append:
  "delete_default_nodes E (xs @ ys) pr =
     (case delete_default_nodes E xs pr of Some (pr1, Inr _) \<Rightarrow> delete_default_nodes E ys pr1 | stopped \<Rightarrow> stopped)"
  by (induction xs arbitrary: pr) (simp_all split: option.split prod.split sum.split)

lemma delete_default_nodes_more:
  assumes "shared_ok E p (length ds + Suc k) pr" and "fst ` set ds \<subseteq> {p}" and "distinct (map (impl_node_id \<circ> snd) ds)"
    and "(impl_node_id \<circ> snd) ` set ds \<subseteq> shared_ids p pr"
  shows "\<exists>pr'. delete_default_nodes E ds pr = Some (pr', Inr ()) \<and> shared_ok E p (Suc k) pr' \<and>
    shared_ids p pr' = shared_ids p pr - (impl_node_id \<circ> snd) ` set ds"
  using assms
proof (induction ds arbitrary: pr)
  case (Cons d ds)
  obtain node where d: "d = (p, node)" using Cons.prems(2) by (cases d) auto
  have "shared_ok E p (Suc (Suc (length ds + k))) pr" "impl_node_id node \<in> shared_ids p pr"
    using Cons.prems(1,4) by (simp_all add: d)
  from shared_delete_more [OF this] obtain pr1 where 1: "P2PNode_shared_delete E d pr = Some (pr1, Inr ())"
    "shared_ok E p (length ds + Suc k) pr1" "shared_ids p pr1 = shared_ids p pr - {impl_node_id node}"
    by (auto simp: d)
  have "(impl_node_id \<circ> snd) ` set ds \<subseteq> shared_ids p pr1" using Cons.prems(3,4) 1(3) by (force simp: d)
  from Cons.IH [OF 1(2) _ _ this] Cons.prems(2,3) obtain pr2 where "delete_default_nodes E ds pr1 = Some (pr2, Inr ())"
    "shared_ok E p (Suc k) pr2" "shared_ids p pr2 = shared_ids p pr1 - (impl_node_id \<circ> snd) ` set ds" by auto
  with 1 show ?case by (auto simp: d)
qed simp

lemma delete_default_nodes_all:
  assumes "shared_ok E p (length ds) pr" and "ds \<noteq> []" and "fst ` set ds \<subseteq> {p}" and "distinct (map (impl_node_id \<circ> snd) ds)"
    and "(impl_node_id \<circ> snd) ` set ds \<subseteq> shared_ids p pr" and "\<not> is_error (env_shutdown_error E)"
  shows "env_order E = StopFirst \<Longrightarrow> \<exists>pr'. delete_default_nodes E ds pr = Some (pr', Inr ()) \<and> shared_idle (Suc p) pr'"
    and "env_order E = ReadFirst \<Longrightarrow> \<exists>pr'. delete_default_nodes E ds pr = Some (pr', Inl UndefinedBehaviour)"
proof -
  obtain bs d where ds: "ds = bs @ [d]" using assms(2) by (cases ds rule: rev_cases) auto
  obtain node where d: "d = (p, node)" using assms(3) by (cases d) (auto simp: ds)
  from delete_default_nodes_more [of E p bs 0 pr] assms obtain pr1 where 1: "delete_default_nodes E bs pr = Some (pr1, Inr ())"
    "shared_ok E p (Suc 0) pr1" "shared_ids p pr1 = shared_ids p pr - (impl_node_id \<circ> snd) ` set bs"
    by (auto simp: ds)
  have "impl_node_id node \<in> shared_ids p pr1" using assms(4,5) 1(3) by (auto simp: ds d)
  note last = shared_delete_last [OF 1(2) this assms(6)]
  show "\<exists>pr'. delete_default_nodes E ds pr = Some (pr', Inr ()) \<and> shared_idle (Suc p) pr'" if "env_order E = StopFirst"
    using last(1) [OF that] 1(1) by (auto simp: ds d delete_default_nodes_append)
  show "\<exists>pr'. delete_default_nodes E ds pr = Some (pr', Inl UndefinedBehaviour)" if "env_order E = ReadFirst"
    using last(2) [OF that] 1(1) by (auto simp: ds d delete_default_nodes_append)
qed

text \<open>The first node of a program, or the first after the connection was taken down.\<close>

lemma default_first:
  assumes "connects E" and "shared_idle p pr"
  shows "\<exists>pr' node. P2PNode_default E pr = Some (pr', Inr (p, node)) \<and> impl_node_id node = 1"
    and "\<exists>pr'. P2PAutoDaemon_getInstance E pr = (pr', Inr p) \<and> shared_ok E p 0 pr' \<and> shared_ids p pr' = {0<..0} \<and>
      P2PNode_default E pr = P2PNode_default E pr'"
proof -
  from getInstance_first [OF assms] obtain pr' where 1: "P2PAutoDaemon_getInstance E pr = (pr', Inr p)"
    "shared_ok E p 0 pr'" "shared_ids p pr' = {0<..0}" by auto
  with of_shared_next [OF 1(2,3)] show "\<exists>pr' node. P2PNode_default E pr = Some (pr', Inr (p, node)) \<and> impl_node_id node = 1"
    by (auto simp: P2PNode_default_def)
  from 1 getInstance_again [OF 1(2)] show "\<exists>pr'. P2PAutoDaemon_getInstance E pr = (pr', Inr p) \<and> shared_ok E p 0 pr' \<and>
      shared_ids p pr' = {0<..0} \<and> P2PNode_default E pr = P2PNode_default E pr'"
    by (auto simp: P2PNode_default_def)
qed

lemma default_nodes_first:
  assumes "connects E" and "shared_idle p pr" and "0 < n" and "n < 4294967296"
  shows "\<exists>pr' ns. default_nodes E n pr = Some (pr', ns) \<and> shared_ok E p n pr' \<and> shared_ids p pr' = {0<..word_of_nat n} \<and>
    map (\<lambda>(q, node). (q, impl_node_id node)) ns = map (\<lambda>j. (p, word_of_nat j)) [1..<Suc n]"
proof -
  from default_first(2) [OF assms(1,2)] obtain pr' where 1: "shared_ok E p 0 pr'" "shared_ids p pr' = {0<..0}"
    "P2PNode_default E pr = P2PNode_default E pr'" by blast
  obtain m where "n = Suc m" using assms(3) by (cases n) auto
  then have "default_nodes E n pr = default_nodes E n pr'" using 1(3) by simp
  with default_nodes_numbered [OF 1(1,2), of n] assms(4) show ?thesis by simp
qed

text \<open>The nodes of such a program, in any order, fit the deletion.\<close>

lemma numbered_nodes_fit:
  fixes ns :: "(nat \<times> 'sk P2PNode) list"
  assumes "map (\<lambda>(q, node). (q, impl_node_id node)) ns = map (\<lambda>j. (p, word_of_nat j)) [1..<Suc n]"
    and "n < 4294967296" and "mset ds = mset ns"
  shows "length ds = n" and "fst ` set ds \<subseteq> {p}" and "distinct (map (impl_node_id \<circ> snd) ds)"
    and "(impl_node_id \<circ> snd) ` set ds \<subseteq> {0<..word_of_nat n}"
proof -
  have fsts: "map fst ns = map (\<lambda>j. p) [1..<Suc n]"
    using arg_cong [OF assms(1), of "map fst"] by (simp add: comp_def case_prod_beta del: upt_Suc)
  have ids: "map (impl_node_id \<circ> snd) ns = map word_of_nat [1..<Suc n]"
    using arg_cong [OF assms(1), of "map snd"] by (simp add: comp_def case_prod_beta del: upt_Suc)
  have set: "set ds = set ns" using assms(3) by (metis set_mset_mset)
  show "length ds = n" using arg_cong [OF assms(1), of length] mset_eq_length [OF assms(3)] by (simp del: upt_Suc)
  show "fst ` set ds \<subseteq> {p}" using arg_cong [OF fsts, of set] by (auto simp: set simp del: upt_Suc)
  have "inj_on (word_of_nat :: nat \<Rightarrow> u32) (set [1..<Suc n])"
    by (rule inj_on_inverseI [where g = unat]) (use assms(2) in \<open>auto simp: unat_u32_of_nat\<close>)
  then have "distinct (map (impl_node_id \<circ> snd) ns)" unfolding ids by (simp add: distinct_map del: upt_Suc)
  moreover have "mset (map (impl_node_id \<circ> snd) ds) = mset (map (impl_node_id \<circ> snd) ns)" using assms(3) by simp
  ultimately show "distinct (map (impl_node_id \<circ> snd) ds)" by (metis mset_eq_imp_distinct_iff)
  have "(impl_node_id \<circ> snd) ` set ns = word_of_nat ` {1..<Suc n}"
    using arg_cong [OF ids, of set] by (simp del: upt_Suc)
  also have "\<dots> \<subseteq> {0<..word_of_nat n}"
    using assms(2) by (auto simp: word_less_nat_alt word_le_nat_alt unat_u32_of_nat)
  finally show "(impl_node_id \<circ> snd) ` set ds \<subseteq> {0<..word_of_nat n}" by (simp add: set)
qed

subsection \<open>Any program\<close>

text \<open>
  A step of a program makes a node or deletes one of those it has; the state is the list of its nodes
  and all that is behind them.
\<close>

inductive program_step ::
  "('sk, 'pk) surroundings \<Rightarrow> (nat \<times> 'sk P2PNode) list \<times> 'sk program \<Rightarrow> (nat \<times> 'sk P2PNode) list \<times> 'sk program \<Rightarrow> bool"
  for E where
  program_make: "P2PNode_default E pr = Some (pr', Inr n) \<Longrightarrow> length ns < 4294967295 \<Longrightarrow>
    program_step E (ns, pr) (n # ns, pr')"
| program_delete: "n \<in> set ns \<Longrightarrow> P2PNode_shared_delete E n pr = Some (pr', Inr ()) \<Longrightarrow>
    program_step E (ns, pr) (remove1 n ns, pr')"

inductive_cases program_stepE: "program_step E (ns, pr) (ns', pr')"

abbreviation node_numbers :: "(nat \<times> 'sk P2PNode) list \<Rightarrow> u32 set" where
  "node_numbers ns \<equiv> (impl_node_id \<circ> snd) ` set ns"

definition program_inv :: "('sk, 'pk) surroundings \<Rightarrow> (nat \<times> 'sk P2PNode) list \<Rightarrow> 'sk program \<Rightarrow> bool" where
  "program_inv E ns pr \<longleftrightarrow> distinct (map (impl_node_id \<circ> snd) ns) \<and>
     (if ns = [] then \<exists>p. shared_idle p pr
      else \<exists>p. shared_ok E p (length ns) pr \<and> fst ` set ns = {p} \<and> shared_ids p pr = node_numbers ns)"

definition is_least_free :: "u32 \<Rightarrow> u32 set \<Rightarrow> bool" where
  "is_least_free i used \<longleftrightarrow> i \<noteq> 0 \<and> i \<notin> used \<and> (\<forall>j. j \<noteq> 0 \<and> j < i \<longrightarrow> j \<in> used)"

lemma free_number:
  assumes "length ns < 4294967295"
  shows "\<exists>j :: u32. j \<noteq> 0 \<and> j \<notin> f ` set ns"
proof (rule ccontr)
  assume "\<not> ?thesis"
  then have "UNIV \<subseteq> insert 0 (f ` set ns)" by auto
  then have "card (UNIV :: u32 set) \<le> card (insert 0 (f ` set ns))" by (intro card_mono) auto
  also have "\<dots> \<le> Suc (length ns)"
    using card_insert_le_m1 card_image_le [of "set ns" f] card_length [of ns] by (simp add: card_insert_if)
  finally show False using assms by (simp add: card_word)
qed

text \<open>On a connection that is there, and on none, a new node is the least number that is free.\<close>

lemma of_shared_new:
  fixes E :: "('sk, 'pk) surroundings"
  assumes "shared_ok E p k pr" and "j \<noteq> 0" and "j \<notin> shared_ids p pr"
  shows "\<exists>pr' (node :: 'sk P2PNode). P2PNode_of_shared E p pr = Some (pr', Inr (p, node)) \<and> shared_ok E p (Suc k) pr' \<and>
    impl_node_id node \<noteq> 0 \<and> impl_node_id node \<notin> shared_ids p pr \<and>
    (\<forall>j. j \<noteq> 0 \<and> j < impl_node_id node \<longrightarrow> j \<in> shared_ids p pr) \<and>
    shared_ids p pr' = insert (impl_node_id node) (shared_ids p pr)"
proof -
  from shared_link.new_node [OF assms] obtain pr1 i where 1: "P2PNode_new (shared_exchange E p) pr =
      Some (pr1, Inr (\<lparr>impl_node_id = i, m_bound_private_key = PrivateKeyDSA_new\<rparr> :: 'sk P2PNode))"
    "shared_ok E p k pr1" "i \<noteq> 0" "i \<notin> shared_ids p pr" "\<forall>j. j \<noteq> 0 \<and> j < i \<longrightarrow> j \<in> shared_ids p pr"
    "shared_ids p pr1 = insert i (shared_ids p pr)" by blast
  from shared_ok_held(1) [OF 1(2), of "Suc k"] shared_ok_held(3) [OF 1(2)]
  have "shared_ok E p (Suc k) (pr1\<lparr>held := p # held pr1\<rparr>)" by simp
  with 1 show ?thesis
    by (intro exI [of _ "pr1\<lparr>held := p # held pr1\<rparr>"] exI [of _ "\<lparr>impl_node_id = i, m_bound_private_key = PrivateKeyDSA_new\<rparr>"])
      (simp add: P2PNode_of_shared_def shared_ok_held(2))
qed

lemma program_make_inv:
  assumes "connects E" and "program_inv E ns pr" and "length ns < 4294967295"
  shows "\<exists>pr' p node. P2PNode_default E pr = Some (pr', Inr (p, node)) \<and> program_inv E ((p, node) # ns) pr' \<and>
    impl_node_id node \<noteq> 0 \<and> (\<forall>j. j \<noteq> 0 \<and> j < impl_node_id node \<longrightarrow> j \<in> node_numbers ns)"
proof -
  have "\<exists>pr1 p. P2PAutoDaemon_getInstance E pr = (pr1, Inr p) \<and> shared_ok E p (length ns) pr1 \<and>
      shared_ids p pr1 = node_numbers ns \<and> fst ` set ns \<subseteq> {p}"
  proof (cases "ns = []")
    case True
    with assms(2) obtain p where "shared_idle p pr" by (auto simp: program_inv_def)
    from getInstance_first [OF assms(1) this] True show ?thesis by auto
  next
    case False
    with assms(2) obtain p where "shared_ok E p (length ns) pr" "fst ` set ns = {p}" "shared_ids p pr = node_numbers ns"
      by (auto simp: program_inv_def)
    with getInstance_again [OF this(1)] show ?thesis by auto
  qed
  then obtain pr1 p where 1: "P2PAutoDaemon_getInstance E pr = (pr1, Inr p)" "shared_ok E p (length ns) pr1"
      "shared_ids p pr1 = node_numbers ns" "fst ` set ns \<subseteq> {p}" by blast
  obtain j where "j \<noteq> 0" "j \<notin> shared_ids p pr1" using free_number [OF assms(3)] 1(3) by blast
  from of_shared_new [OF 1(2) this] obtain pr2 node where 2: "P2PNode_of_shared E p pr1 = Some (pr2, Inr (p, node))"
    "shared_ok E p (Suc (length ns)) pr2" "impl_node_id node \<noteq> 0" "impl_node_id node \<notin> node_numbers ns"
    "\<forall>j. j \<noteq> 0 \<and> j < impl_node_id node \<longrightarrow> j \<in> node_numbers ns"
    "shared_ids p pr2 = insert (impl_node_id node) (node_numbers ns)"
    unfolding 1(3) by blast
  have "program_inv E ((p, node) # ns) pr2"
    using assms(2) 1(4) 2(2,4,6) by (auto simp: program_inv_def)
  with 1(1) 2 show ?thesis by (auto simp: P2PNode_default_def)
qed

lemma remove1_numbers:
  assumes "distinct (map f xs)" and "x \<in> set xs"
  shows "f ` set (remove1 x xs) = f ` set xs - {f x}" and "distinct (map f (remove1 x xs))"
proof -
  have "distinct xs" "inj_on f (set xs)" using assms(1) by (simp_all add: distinct_map)
  then have "set (remove1 x xs) = set xs - {x}" "distinct (remove1 x xs)" by simp_all
  with \<open>inj_on f (set xs)\<close> assms(2) show "f ` set (remove1 x xs) = f ` set xs - {f x}" "distinct (map f (remove1 x xs))"
    by (simp_all add: inj_on_image_set_diff [of f "set xs"] distinct_map inj_on_diff)
qed

lemma program_delete_inv:
  assumes "program_inv E ns pr" and "n \<in> set ns" and "\<not> is_error (env_shutdown_error E)"
  shows "tl ns \<noteq> [] \<or> env_order E = StopFirst \<Longrightarrow>
      \<exists>pr'. P2PNode_shared_delete E n pr = Some (pr', Inr ()) \<and> program_inv E (remove1 n ns) pr'"
    and "P2PNode_shared_delete E n pr = Some (pr', Inr ()) \<Longrightarrow> tl ns \<noteq> [] \<or> env_order E = StopFirst"
proof -
  from assms(1,2) obtain p where inv: "shared_ok E p (length ns) pr" "fst ` set ns = {p}" "shared_ids p pr = node_numbers ns"
    "distinct (map (impl_node_id \<circ> snd) ns)" by (auto simp: program_inv_def split: if_splits)
  have "fst n = p" using assms(2) inv(2) by blast
  then obtain node where n: "n = (p, node)" by (cases n) auto
  have mem: "impl_node_id node \<in> shared_ids p pr" using assms(2) inv(3) by (force simp: n)
  have one: "ns = [n]" if "tl ns = []" using that assms(2) by (cases ns) auto
  show "\<exists>pr'. P2PNode_shared_delete E n pr = Some (pr', Inr ()) \<and> program_inv E (remove1 n ns) pr'"
    if order: "tl ns \<noteq> [] \<or> env_order E = StopFirst"
  proof (cases "tl ns = []")
    case True
    with order have "env_order E = StopFirst" "shared_ok E p (Suc 0) pr" "remove1 n ns = []" using inv(1) one by simp_all
    with shared_delete_last(1) [OF this(2) mem assms(3) this(1)] show ?thesis by (auto simp: program_inv_def n)
  next
    case False
    then obtain k where k: "length ns = Suc (Suc k)" by (cases ns; cases "tl ns") auto
    from shared_delete_more [OF inv(1) [unfolded k] mem] obtain pr' where
      1: "P2PNode_shared_delete E n pr = Some (pr', Inr ())" "shared_ok E p (Suc k) pr'"
        "shared_ids p pr' = node_numbers ns - {impl_node_id node}" using inv(3) by (auto simp: n)
    have "length (remove1 n ns) = Suc k" using k assms(2) by (simp add: length_remove1)
    moreover have "node_numbers (remove1 n ns) = node_numbers ns - {impl_node_id node}"
      "distinct (map (impl_node_id \<circ> snd) (remove1 n ns))"
      using remove1_numbers [OF inv(4) assms(2)] by (simp_all add: n)
    moreover have "fst ` set (remove1 n ns) = {p}"
      using inv(2) set_remove1_subset [of n ns] \<open>length (remove1 n ns) = Suc k\<close> by (cases "remove1 n ns") auto
    ultimately show ?thesis using 1 by (auto simp: program_inv_def)
  qed
  show "tl ns \<noteq> [] \<or> env_order E = StopFirst" if "P2PNode_shared_delete E n pr = Some (pr', Inr ())"
  proof (rule ccontr)
    assume c: "\<not> ?thesis"
    then have "env_order E = ReadFirst" by (cases "env_order E") auto
    moreover have "shared_ok E p (Suc 0) pr" using inv(1) one c by simp
    ultimately obtain pr1 where "P2PNode_shared_delete E n pr = Some (pr1, Inl UndefinedBehaviour)"
      using shared_delete_last(2) [OF _ mem assms(3)] unfolding n by blast
    with that show False by simp
  qed
qed

lemma program_step_inv:
  assumes "program_step E (ns, pr) (ns', pr')" and "connects E" and "\<not> is_error (env_shutdown_error E)" and "program_inv E ns pr"
  shows "program_inv E ns' pr'"
  using assms(1)
proof (elim program_stepE)
  fix n
  assume "P2PNode_default E pr = Some (pr', Inr n)" "length ns < 4294967295" "ns' = n # ns"
  with program_make_inv [OF assms(2,4)] show ?thesis by fastforce
next
  fix n
  assume "n \<in> set ns" "P2PNode_shared_delete E n pr = Some (pr', Inr ())" "ns' = remove1 n ns"
  with program_delete_inv [OF assms(4) _ assms(3), of n] show ?thesis by fastforce
qed

lemma program_reach_inv:
  assumes "(program_step E)\<^sup>*\<^sup>* ([], program_new st) (ns, pr)" and "connects E" and "\<not> is_error (env_shutdown_error E)"
    and "server_inv st"
  shows "program_inv E ns pr"
  using assms(1)
proof (induction rule: rtranclp_induct2)
  case refl
  show ?case using assms(4) by (auto simp: program_inv_def shared_idle_def program_new_def)
next
  case (step ns pr ns' pr')
  then show ?case using program_step_inv assms(2,3) by blast
qed

text \<open>A program on a daemon that can be reached, for examples.\<close>

definition example_surroundings :: "teardown \<Rightarrow> (nat, nat) surroundings" where
  "example_surroundings order =
     \<lparr>env_ecdsa = plain_ecdsa, env_keccak = bytes_of_string, env_dec = be_value, env_enc = be_bytes,
      env_ser = plain_ser, env_parse = plain_parse, env_connect_error = (\<lambda>_. no_error), env_paths = Inr [''/run/s''],
      env_shutdown_error = no_error, env_order = order\<rparr>"

lemma example_connects: "connects (example_surroundings order)"
  using plain_node_codec
  by (simp add: connects_def example_surroundings_def P2PAutoDaemon_new_def P2PAutoDaemon_connect_def
      P2PAutoDaemon_of_session_def P2PUnixDaemon_connect_def P2PUnixDaemon_of_session_def P2PDaemon_receiveLoop_def
      P2PAutoDaemon_is_connected_def is_connected_def is_error_def no_error_def)

subsection \<open>Properties\<close>



text \<open>
  (C2) Whatever a program does with nodes that name no daemon, making and deleting them in any order:
  there is one connection as long as there are nodes, and all of them hold it, and none when there are
  none; their numbers are different; a further node is made and gets the least number that is free; and
  every node can be deleted, the last one if the thread of the session is stopped in time.
\<close>

theorem program_history:
  assumes "server_reach (env_ecdsa E) (env_keccak E) (env_dec E) (env_enc E) (env_ser E) st" and "connects E"
    and "\<not> is_error (env_shutdown_error E)" and "(program_step E)\<^sup>*\<^sup>* ([], program_new st) (ns, pr)"
  shows "dom (daemons pr) = fst ` set ns \<and> card (dom (daemons pr)) \<le> 1 \<and> distinct (map (impl_node_id \<circ> snd) ns) \<and>
    (\<forall>n\<in>set ns. (\<exists>pr'. P2PNode_shared_delete E n pr = Some (pr', Inr ())) \<longleftrightarrow> tl ns \<noteq> [] \<or> env_order E = StopFirst) \<and>
    (length ns < 4294967295 \<longrightarrow> (\<exists>pr' p node. P2PNode_default E pr = Some (pr', Inr (p, node)) \<and>
       is_least_free (impl_node_id node) (node_numbers ns)))"
proof -
  have inv: "program_inv E ns pr"
    using program_reach_inv [OF assms(4,2,3)] server_reach_inv [OF assms(1)] by blast
  have "dom (daemons pr) = fst ` set ns \<and> card (fst ` set ns) \<le> 1"
  proof (cases "ns = []")
    case True
    with inv show ?thesis by (auto simp: program_inv_def shared_idle_def)
  next
    case False
    with inv obtain p where p: "shared_ok E p (length ns) pr" "fst ` set ns = {p}" by (auto simp: program_inv_def)
    from p(1) obtain sid this where "daemons pr = [p \<mapsto> (sid, this)]" by (elim shared_okE)
    with p(2) show ?thesis by simp
  qed
  moreover have "distinct (map (impl_node_id \<circ> snd) ns)" using inv by (simp add: program_inv_def)
  moreover have "(\<exists>pr'. P2PNode_shared_delete E n pr = Some (pr', Inr ())) \<longleftrightarrow> tl ns \<noteq> [] \<or> env_order E = StopFirst"
    if "n \<in> set ns" for n
    using program_delete_inv [OF inv that assms(3)] by blast
  moreover have "\<exists>pr' p node. P2PNode_default E pr = Some (pr', Inr (p, node)) \<and> is_least_free (impl_node_id node) (node_numbers ns)"
    if "length ns < 4294967295"
    using program_make_inv [OF assms(2) inv that] by (auto simp: is_least_free_def program_inv_def)
  ultimately show ?thesis by simp
qed

theorem program_history_witness:
  "\<exists>pr n. (program_step (example_surroundings ReadFirst))\<^sup>*\<^sup>* ([], program_new (NodeManager_new, example_server)) ([n], pr) \<and>
     dom (daemons pr) = {fst n} \<and> \<not> (\<exists>pr'. P2PNode_shared_delete (example_surroundings ReadFirst) n pr = Some (pr', Inr ()))"
proof -
  let ?E = "example_surroundings ReadFirst" and ?st = "(NodeManager_new, example_server)"
  have ok: "\<not> is_error (env_shutdown_error ?E)" "env_order ?E = ReadFirst"
    by (simp_all add: example_surroundings_def is_error_def no_error_def)
  note history = program_history [OF example_server_reach example_connects ok(1)]
  from history [OF rtranclp.rtrancl_refl] obtain pr n where "P2PNode_default ?E (program_new ?st) = Some (pr, Inr n)" by auto
  then have "program_step ?E ([], program_new ?st) ([n], pr)" by (rule program_make) simp
  then have reach: "(program_step ?E)\<^sup>*\<^sup>* ([], program_new ?st) ([n], pr)" by blast
  from history [OF this] ok(2) have "dom (daemons pr) = {fst n}"
    "\<not> (\<exists>pr'. P2PNode_shared_delete ?E n pr = Some (pr', Inr ()))" by simp_all
  with reach show ?thesis by blast
qed

end
