(* ===== verification/IP_Endpoint.thy ===== *)
theory IP_Endpoint
  imports Crypto_Keys
begin

section \<open>Endpoints (src/daemon/transport/ip, udp/UDPInterfaceEndpoint.cpp, SocketEndpoint.cpp)\<close>

text \<open>
  Addresses of peers and their text form, \<^verbatim>\<open>prefix:address:port\<close>.  The addresses themselves, their
  text and the conversion of numbers belong to the boost library and are parameters.  Positions in
  strings are 64-bit numbers, and the sources compute with the value that stands for "not found".
\<close>

record 'ip asio_ip =
  ip_to_string :: "'ip \<Rightarrow> string"
  ip_from_string :: "string \<Rightarrow> 'ip result"
  ip_is_v4 :: "'ip \<Rightarrow> bool"
  ip_default :: 'ip
  to_port :: "string \<Rightarrow> u16 result"

subsection \<open>Strings\<close>

definition size_npos :: size_t where
  "size_npos = - 1"

definition str_find :: "char \<Rightarrow> string \<Rightarrow> size_t" where
  "str_find c s = (if c \<in> set s then word_of_nat (length (takeWhile (\<lambda>x. x \<noteq> c) s)) else size_npos)"

definition str_rfind :: "char \<Rightarrow> string \<Rightarrow> size_t" where
  "str_rfind c s =
     (if c \<in> set s then word_of_nat (length s - 1 - length (takeWhile (\<lambda>x. x \<noteq> c) (rev s))) else size_npos)"

definition substr :: "string \<Rightarrow> size_t \<Rightarrow> size_t \<Rightarrow> string result" where
  "substr s pos n =
     (if length s < unat pos then Inl (LibraryException ''std::out_of_range'')
      else Inr (take (unat n) (drop (unat pos) s)))"

lemma unat_size_of_nat: "n < 18446744073709551616 \<Longrightarrow> unat (word_of_nat n :: size_t) = n"
  by (simp add: unsigned_of_nat take_bit_nat_eq_self)

lemma size_of_nat_diff: "b \<le> a \<Longrightarrow> (word_of_nat a :: size_t) - word_of_nat b = word_of_nat (a - b)"
  by (simp add: of_nat_diff)

lemma takeWhile_neq_append: "c \<notin> set xs \<Longrightarrow> takeWhile (\<lambda>x. x \<noteq> c) (xs @ c # ys) = xs"
  by (induction xs) auto

lemma str_find_append: "c \<notin> set xs \<Longrightarrow> str_find c (xs @ c # ys) = word_of_nat (length xs)"
  by (simp add: str_find_def takeWhile_neq_append)

lemma str_rfind_append:
  assumes "c \<notin> set ys"
  shows "str_rfind c (xs @ c # ys) = word_of_nat (length xs)"
proof -
  have "takeWhile (\<lambda>x. x \<noteq> c) (rev (xs @ c # ys)) = rev ys"
    using takeWhile_neq_append [of c "rev ys" "rev xs"] assms by simp
  then show ?thesis by (simp add: str_rfind_def)
qed

subsection \<open>IP endpoints\<close>

record 'ip IPInterfaceEndpoint =
  ep_prefix :: string
  ep_ip :: 'ip
  ep_port :: u16

definition IPInterfaceEndpoint_new :: "'ip asio_ip \<Rightarrow> string \<Rightarrow> 'ip IPInterfaceEndpoint" where
  "IPInterfaceEndpoint_new A prefix = \<lparr>ep_prefix = prefix, ep_ip = ip_default A, ep_port = 0\<rparr>"

definition IPInterfaceEndpoint_of :: "'ip \<Rightarrow> u16 \<Rightarrow> string \<Rightarrow> 'ip IPInterfaceEndpoint" where
  "IPInterfaceEndpoint_of ip port prefix = \<lparr>ep_prefix = prefix, ep_ip = ip, ep_port = port\<rparr>"

definition IPInterfaceEndpoint_of_text ::
  "'ip asio_ip \<Rightarrow> string \<Rightarrow> u16 \<Rightarrow> string \<Rightarrow> 'ip IPInterfaceEndpoint result" where
  "IPInterfaceEndpoint_of_text A ip port prefix =
     bind_result (ip_from_string A ip) (\<lambda>a. Inr (IPInterfaceEndpoint_of a port prefix))"

definition isIPv4 :: "'ip asio_ip \<Rightarrow> 'ip IPInterfaceEndpoint \<Rightarrow> bool" where
  "isIPv4 A this = ip_is_v4 A (ep_ip this)"

definition isIPv6 :: "'ip asio_ip \<Rightarrow> 'ip IPInterfaceEndpoint \<Rightarrow> bool" where
  "isIPv6 A this = (\<not> ip_is_v4 A (ep_ip this))"

definition getIPString :: "'ip asio_ip \<Rightarrow> 'ip IPInterfaceEndpoint \<Rightarrow> string" where
  "getIPString A this = ip_to_string A (ep_ip this)"

definition setIPString ::
  "'ip asio_ip \<Rightarrow> string \<Rightarrow> 'ip IPInterfaceEndpoint \<Rightarrow> 'ip IPInterfaceEndpoint result" where
  "setIPString A ip this =
     bind_result (substr ip 0 (str_find (CHR ''%'') ip)) (\<lambda>text.
     bind_result (ip_from_string A text) (\<lambda>a. Inr (this\<lparr>ep_ip := a\<rparr>)))"

definition getAsioIP :: "'ip IPInterfaceEndpoint \<Rightarrow> 'ip" where
  "getAsioIP this = ep_ip this"

definition setAsioIP :: "'ip \<Rightarrow> 'ip IPInterfaceEndpoint \<Rightarrow> 'ip IPInterfaceEndpoint" where
  "setAsioIP ip this = this\<lparr>ep_ip := ip\<rparr>"

definition getPort :: "'ip IPInterfaceEndpoint \<Rightarrow> u16" where
  "getPort this = ep_port this"

definition setPort :: "u16 \<Rightarrow> 'ip IPInterfaceEndpoint \<Rightarrow> 'ip IPInterfaceEndpoint" where
  "setPort port this = this\<lparr>ep_port := port\<rparr>"

definition IPInterfaceEndpoint_toString :: "'ip asio_ip \<Rightarrow> 'ip IPInterfaceEndpoint \<Rightarrow> string" where
  "IPInterfaceEndpoint_toString A this =
     ep_prefix this @ '':'' @ getIPString A this @ '':'' @ show_nat (unat (getPort this))"

text \<open>The port is stored before the address is read; an exception of the second leaves the first.\<close>

definition IPInterfaceEndpoint_fromString ::
  "'ip asio_ip \<Rightarrow> string \<Rightarrow> 'ip IPInterfaceEndpoint \<Rightarrow> 'ip IPInterfaceEndpoint \<times> unit result" where
  "IPInterfaceEndpoint_fromString A s this =
     (let prefix_delim = str_find (CHR '':'') s;
          port_delim = str_rfind (CHR '':'') s
      in case bind_result (substr s (port_delim + 1) (word_of_nat (length s) - port_delim)) (to_port A) of
           Inl e \<Rightarrow> (this, Inl e)
         | Inr port \<Rightarrow>
             let this1 = this\<lparr>ep_port := port\<rparr>
             in case bind_result (substr s (prefix_delim + 1) (port_delim - prefix_delim - 1))
                       (\<lambda>ip. setIPString A ip this1) of
                  Inl e \<Rightarrow> (this1, Inl e)
                | Inr this2 \<Rightarrow> (this2, Inr ()))"

definition UDPInterfaceEndpoint_new :: "'ip asio_ip \<Rightarrow> 'ip IPInterfaceEndpoint" where
  "UDPInterfaceEndpoint_new A = IPInterfaceEndpoint_new A ''UDP''"

definition UDPInterfaceEndpoint_of :: "'ip \<Rightarrow> u16 \<Rightarrow> 'ip IPInterfaceEndpoint" where
  "UDPInterfaceEndpoint_of ip port = IPInterfaceEndpoint_of ip port ''UDP''"

definition UDPInterfaceEndpoint_of_text :: "'ip asio_ip \<Rightarrow> string \<Rightarrow> u16 \<Rightarrow> 'ip IPInterfaceEndpoint result" where
  "UDPInterfaceEndpoint_of_text A ip port = IPInterfaceEndpoint_of_text A ip port ''UDP''"

definition UDPInterfaceEndpoint_clone :: "'ip IPInterfaceEndpoint \<Rightarrow> 'ip IPInterfaceEndpoint" where
  "UDPInterfaceEndpoint_clone this = UDPInterfaceEndpoint_of (getAsioIP this) (getPort this)"

subsection \<open>Socket endpoints\<close>

text \<open>
  A socket endpoint owns an interface endpoint or none.  The first component of the owned endpoint is
  its address in memory: copies are clones at an address of their own.
\<close>

record 'ip SocketEndpoint =
  se_endpoint :: "(nat \<times> 'ip IPInterfaceEndpoint) option"

definition SocketEndpoint_new :: "'ip SocketEndpoint" where
  "SocketEndpoint_new = \<lparr>se_endpoint = None\<rparr>"

text \<open>\<open>fresh\<close> is the address of the clone.\<close>

definition SocketEndpoint_of :: "nat \<Rightarrow> 'ip IPInterfaceEndpoint option \<Rightarrow> 'ip SocketEndpoint result" where
  "SocketEndpoint_of fresh e =
     bind_result (deref e) (\<lambda>x. Inr \<lparr>se_endpoint = Some (fresh, UDPInterfaceEndpoint_clone x)\<rparr>)"

definition SocketEndpoint_copy :: "nat \<Rightarrow> 'ip SocketEndpoint \<Rightarrow> 'ip SocketEndpoint result" where
  "SocketEndpoint_copy fresh tse = SocketEndpoint_of fresh (map_option snd (se_endpoint tse))"

definition SocketEndpoint_assign ::
  "nat \<Rightarrow> 'ip SocketEndpoint \<Rightarrow> 'ip SocketEndpoint \<Rightarrow> 'ip SocketEndpoint result" where
  "SocketEndpoint_assign fresh tse this =
     bind_result (deref (map_option snd (se_endpoint tse))) (\<lambda>x.
       Inr (this\<lparr>se_endpoint := Some (fresh, UDPInterfaceEndpoint_clone x)\<rparr>))"

definition SocketEndpoint_toString :: "'ip asio_ip \<Rightarrow> 'ip SocketEndpoint \<Rightarrow> string result" where
  "SocketEndpoint_toString A this =
     bind_result (deref (se_endpoint this)) (\<lambda>x. Inr (IPInterfaceEndpoint_toString A (snd x)))"

definition SocketEndpoint_eq :: "'ip asio_ip \<Rightarrow> 'ip SocketEndpoint \<Rightarrow> 'ip SocketEndpoint \<Rightarrow> bool" where
  "SocketEndpoint_eq A this tse =
     (case (se_endpoint this, se_endpoint tse) of
        (Some a, Some b) \<Rightarrow>
          IPInterfaceEndpoint_toString A (snd a) = IPInterfaceEndpoint_toString A (snd b) \<or> fst a = fst b
      | (a, b) \<Rightarrow> a = None \<and> b = None)"

definition SocketEndpoint_less :: "'ip asio_ip \<Rightarrow> 'ip SocketEndpoint \<Rightarrow> 'ip SocketEndpoint \<Rightarrow> bool" where
  "SocketEndpoint_less A this tse =
     (case (se_endpoint this, se_endpoint tse) of
        (Some a, Some b) \<Rightarrow> IPInterfaceEndpoint_toString A (snd a) < IPInterfaceEndpoint_toString A (snd b)
      | _ \<Rightarrow> False)"

definition SocketEndpoint_bool :: "'ip SocketEndpoint \<Rightarrow> bool" where
  "SocketEndpoint_bool this = (se_endpoint this \<noteq> None)"

definition SocketEndpoint_getPrefix :: "'ip SocketEndpoint \<Rightarrow> string" where
  "SocketEndpoint_getPrefix this = (case se_endpoint this of Some x \<Rightarrow> ep_prefix (snd x) | None \<Rightarrow> [])"

text \<open>\<open>known\<close> tells which prefixes the parent socket has an interface for.\<close>

definition resetEndpoint ::
  "'ip asio_ip \<Rightarrow> (string \<Rightarrow> bool) \<Rightarrow> nat \<Rightarrow> string \<Rightarrow> 'ip SocketEndpoint \<Rightarrow> 'ip SocketEndpoint result" where
  "resetEndpoint A known fresh name this =
     (if known name then Inr (this\<lparr>se_endpoint := Some (fresh, UDPInterfaceEndpoint_new A)\<rparr>)
      else Inl (IntException 180))"

definition SocketEndpoint_fromString ::
  "'ip asio_ip \<Rightarrow> (string \<Rightarrow> bool) \<Rightarrow> nat \<Rightarrow> string \<Rightarrow> 'ip SocketEndpoint \<Rightarrow> 'ip SocketEndpoint result" where
  "SocketEndpoint_fromString A known fresh s this =
     bind_result (substr s 0 (str_find (CHR '':'') s)) (\<lambda>prefix.
     bind_result (resetEndpoint A known fresh prefix this) (\<lambda>this1.
       case se_endpoint this1 of
         None \<Rightarrow> Inl UndefinedBehaviour
       | Some (p, x) \<Rightarrow>
           (case IPInterfaceEndpoint_fromString A s x of
              (x1, Inl e) \<Rightarrow> Inl e
            | (x1, Inr _) \<Rightarrow> Inr (this1\<lparr>se_endpoint := Some (p, x1)\<rparr>))))"

subsection \<open>Reading back the text form\<close>

lemma substr_prefix:
  assumes "length (xs @ ys) < 18446744073709551616"
  shows "substr (xs @ ys) 0 (word_of_nat (length xs)) = Inr xs"
  using assms by (simp add: substr_def unat_size_of_nat)

lemma unat_size_npos: "unat size_npos = 18446744073709551615"
  by (simp add: size_npos_def unsigned_minus_1_eq_mask mask_eq_exp_minus_1)

lemma setIPString_scope:
  assumes "length ip < 18446744073709551616"
  shows "setIPString A ip this = bind_result (ip_from_string A (takeWhile (\<lambda>c. c \<noteq> CHR ''%'') ip))
    (\<lambda>a. Inr (this\<lparr>ep_ip := a\<rparr>))"
proof -
  have "substr ip 0 (str_find (CHR ''%'') ip) = Inr (takeWhile (\<lambda>c. c \<noteq> CHR ''%'') ip)"
  proof (cases "CHR ''%'' \<in> set ip")
    case True
    have "length (takeWhile (\<lambda>c. c \<noteq> CHR ''%'') ip) \<le> length ip" by (rule length_takeWhile_le)
    then have "unat (str_find (CHR ''%'') ip) = length (takeWhile (\<lambda>c. c \<noteq> CHR ''%'') ip)"
      using assms True by (simp add: str_find_def unat_size_of_nat)
    then show ?thesis by (simp add: substr_def takeWhile_eq_take [symmetric])
  next
    case False
    then have tw: "takeWhile (\<lambda>c. c \<noteq> CHR ''%'') ip = ip" by (auto simp: takeWhile_eq_all_conv)
    show ?thesis unfolding tw using False assms by (simp add: substr_def str_find_def unat_size_npos)
  qed
  then show ?thesis by (simp add: setIPString_def)
qed

lemma fromString_parts:
  assumes "CHR '':'' \<notin> set pre" and "CHR '':'' \<notin> set port_text"
    and "length pre + length ip_text + length port_text + 2 < 18446744073709551616"
  shows "IPInterfaceEndpoint_fromString A (pre @ '':'' @ ip_text @ '':'' @ port_text) this =
    (case to_port A port_text of
       Inl e \<Rightarrow> (this, Inl e)
     | Inr port \<Rightarrow>
         (case ip_from_string A (takeWhile (\<lambda>c. c \<noteq> CHR ''%'') ip_text) of
            Inl e \<Rightarrow> (this\<lparr>ep_port := port\<rparr>, Inl e)
          | Inr a \<Rightarrow> (this\<lparr>ep_port := port, ep_ip := a\<rparr>, Inr ())))"
proof -
  let ?s = "pre @ '':'' @ ip_text @ '':'' @ port_text" and ?p = "length pre" and ?q = "length pre + 1 + length ip_text"
  have pd: "str_find (CHR '':'') ?s = word_of_nat ?p"
    using str_find_append [OF assms(1), of "ip_text @ '':'' @ port_text"] by simp
  have qd: "str_rfind (CHR '':'') ?s = word_of_nat ?q"
    using str_rfind_append [OF assms(2), of "pre @ '':'' @ ip_text"] by simp
  have suc: "(word_of_nat n :: size_t) + 1 = word_of_nat (Suc n)" for n by simp
  have "(word_of_nat ?q :: size_t) - word_of_nat ?p - 1 = word_of_nat (?q - ?p) - word_of_nat 1"
    using size_of_nat_diff [of ?p ?q] by simp
  also have "\<dots> = word_of_nat (length ip_text)"
    using size_of_nat_diff [of 1 "?q - ?p"] by simp
  finally have ipn: "(word_of_nat ?q :: size_t) - word_of_nat ?p - 1 = word_of_nat (length ip_text)" .
  have portn: "(word_of_nat (length ?s) :: size_t) - word_of_nat ?q = word_of_nat (Suc (length port_text))"
    using size_of_nat_diff [of ?q "length ?s"] by simp
  have port: "substr ?s (word_of_nat ?q + 1) (word_of_nat (length ?s) - word_of_nat ?q) = Inr port_text"
    unfolding suc portn using assms(3) by (simp add: substr_def unat_size_of_nat del: of_nat_Suc of_nat_add)
  have ip: "substr ?s (word_of_nat ?p + 1) (word_of_nat ?q - word_of_nat ?p - 1) = Inr ip_text"
    unfolding suc ipn using assms(3) by (simp add: substr_def unat_size_of_nat del: of_nat_Suc of_nat_add)
  have "length ip_text < 18446744073709551616" using assms(3) by simp
  note set = setIPString_scope [OF this]
  show ?thesis
    unfolding IPInterfaceEndpoint_fromString_def pd qd Let_def port ip
    by (cases "to_port A port_text"; cases "ip_from_string A (takeWhile (\<lambda>c. c \<noteq> CHR ''%'') ip_text)")
      (simp_all add: set)
qed

lemma show_nat_no_colon: "CHR '':'' \<notin> set (show_nat n)"
  using show_nat_chars [of "CHR '':''" n] by auto

lemma show_nat_port_length: "length (show_nat (unat (p :: u16))) \<le> 5"
proof -
  have "unat p < 2 ^ LENGTH(16)" by (rule unsigned_less)
  then have "unat p < 10 ^ 5" by simp
  then have "length (digits 10 (unat p)) \<le> 5" by (rule length_digits_le [rotated]) simp
  then show ?thesis by (simp add: show_nat_def)
qed

subsection \<open>Properties\<close>

text \<open>
  (C24) The text of an endpoint reads back as the endpoint, for IPv6 addresses with their own colons as
  well, as long as the address text does not name a zone; a zone is cut off before the address is
  read.
\<close>

theorem endpoint_roundtrip:
  assumes "CHR '':'' \<notin> set (ep_prefix e)" and "to_port A (show_nat (unat (ep_port e))) = Inr (ep_port e)"
    and "length (ep_prefix e) + length (ip_to_string A (ep_ip e)) < 1000000"
    and "ep_prefix e' = ep_prefix e"
  shows "IPInterfaceEndpoint_fromString A (IPInterfaceEndpoint_toString A e) e' =
    (case ip_from_string A (takeWhile (\<lambda>c. c \<noteq> CHR ''%'') (ip_to_string A (ep_ip e))) of
       Inl err \<Rightarrow> (e'\<lparr>ep_port := ep_port e\<rparr>, Inl err)
     | Inr a \<Rightarrow> (e\<lparr>ep_ip := a\<rparr>, Inr ()))"
proof -
  have "length (ep_prefix e) + length (ip_to_string A (ep_ip e)) + length (show_nat (unat (ep_port e))) + 2 <
      18446744073709551616"
    using assms(3) show_nat_port_length [of "ep_port e"] by simp
  from fromString_parts [OF assms(1) show_nat_no_colon this, of A e']
  have "IPInterfaceEndpoint_fromString A (IPInterfaceEndpoint_toString A e) e' =
    (case ip_from_string A (takeWhile (\<lambda>c. c \<noteq> CHR ''%'') (ip_to_string A (ep_ip e))) of
       Inl err \<Rightarrow> (e'\<lparr>ep_port := ep_port e\<rparr>, Inl err)
     | Inr a \<Rightarrow> (e'\<lparr>ep_port := ep_port e, ep_ip := a\<rparr>, Inr ()))"
    by (simp add: IPInterfaceEndpoint_toString_def getIPString_def getPort_def assms(2))
  moreover have "e'\<lparr>ep_port := ep_port e, ep_ip := a\<rparr> = e\<lparr>ep_ip := a\<rparr>" for a
    using assms(4) by (cases e; cases e') simp
  ultimately show ?thesis by (simp cong: sum.case_cong)
qed

definition plain_ip :: "string asio_ip" where
  "plain_ip = \<lparr>ip_to_string = (\<lambda>s. s), ip_from_string = Inr, ip_is_v4 = (\<lambda>s. CHR '':'' \<notin> set s), ip_default = ''0.0.0.0'',
     to_port = (\<lambda>s. if s = ''2185'' then Inr 2185 else Inl (LibraryException ''boost::bad_lexical_cast''))\<rparr>"

theorem endpoint_roundtrip_witness:
  "IPInterfaceEndpoint_fromString plain_ip
     (IPInterfaceEndpoint_toString plain_ip (UDPInterfaceEndpoint_of ''fe80::1'' 2185)) (UDPInterfaceEndpoint_new plain_ip) =
   (UDPInterfaceEndpoint_of ''fe80::1'' 2185, Inr ())"
proof -
  have p2185: "show_nat 2185 = ''2185''" by (simp add: show_nat_def digits.simps)
  show ?thesis
    using endpoint_roundtrip [of "UDPInterfaceEndpoint_of ''fe80::1'' 2185" plain_ip "UDPInterfaceEndpoint_new plain_ip"]
    by (simp add: UDPInterfaceEndpoint_of_def UDPInterfaceEndpoint_new_def IPInterfaceEndpoint_of_def
        IPInterfaceEndpoint_new_def plain_ip_def p2185)
qed



end
