(* ===== verification/Transport.thy ===== *)
theory Transport
  imports IP_Endpoint Common_Config
begin

section \<open>The transport (src/daemon/transport/Socket.cpp, Connection.cpp, udp)\<close>

text \<open>
  The transport socket with its interfaces and registered connections, the UDP interface and its
  connections.  Connections live on a heap as long as the socket has them registered or a send that is
  under way holds them.  What leaves the component is a list of events: datagrams, messages handed to
  the receive callback, disconnections handed to the disconnect callback.
\<close>

datatype 'ip udp_event =
    Datagram 'ip u16 string
  | ReceiveCallback int nat string
  | DisconnectCallback int nat

datatype timeout_wait = ConnectWait | InactivityWait

record 'ip UDPConnection =
  uc_endpoint :: "'ip IPInterfaceEndpoint"
  connecting_callback :: bool
  uc_connected :: bool
  conn_send_timer :: "int option"
  conn_receive_timeout :: "(timeout_wait \<times> int) option"

text \<open>
  \<open>send_now\<close> tells whether the operating system takes a datagram before the sending function returns:
  the buffers that are sent belong to temporary strings.
\<close>

record 'ip UDPInterface =
  mtu :: u16
  keepalive_timer :: int
  inactivity_timeout :: int
  ui_local :: "'ip \<times> u16"
  receive_callback :: bool
  disconnect_callback :: bool
  receiving :: bool
  send_now :: bool

record 'ip TSocket =
  interfaces :: "string \<rightharpoonup> 'ip UDPInterface"
  tconnections :: "string \<rightharpoonup> nat"
  conn_heap :: "nat \<rightharpoonup> 'ip UDPConnection"
  next_conn :: nat
  pending_sends :: "nat list"

type_synonym 'ip tstep = "('ip TSocket \<times> 'ip udp_event list) result"

definition UDP_KEEPALIVE_MSG :: string where "UDP_KEEPALIVE_MSG = ''UDP_KEEPALIVE''"
definition UDP_CONNECT_MSG :: string where "UDP_CONNECT_MSG = ''UDP_CONNECT''"
definition UDP_DISCONNECT_MSG :: string where "UDP_DISCONNECT_MSG = ''UDP_DISCONNECT''"

definition step_then :: "'ip tstep \<Rightarrow> ('ip TSocket \<Rightarrow> 'ip tstep) \<Rightarrow> 'ip tstep" where
  "step_then r f = bind_result r (\<lambda>(t, ev). bind_result (f t) (\<lambda>(t', ev'). Inr (t', ev @ ev')))"

subsection \<open>The transport socket\<close>

definition TSocket_new :: "'ip TSocket" where
  "TSocket_new = \<lparr>interfaces = Map.empty, tconnections = Map.empty, conn_heap = Map.empty, next_conn = 0,
     pending_sends = []\<rparr>"

definition getInterface :: "string \<Rightarrow> 'ip TSocket \<Rightarrow> 'ip UDPInterface option" where
  "getInterface prefix this = interfaces this prefix"

definition UDPInterface_getPrefix :: string where
  "UDPInterface_getPrefix = ''UDP''"

definition registerInterface :: "'ip UDPInterface \<Rightarrow> 'ip TSocket \<Rightarrow> 'ip TSocket" where
  "registerInterface interface this =
     (if interfaces this UDPInterface_getPrefix = None
      then this\<lparr>interfaces := (interfaces this)(UDPInterface_getPrefix \<mapsto> interface)\<rparr> else this)"

text \<open>\<^verbatim>\<open>receive\<close> starts a read of the next datagram.\<close>

definition UDPInterface_receive :: "'ip UDPInterface \<Rightarrow> 'ip UDPInterface" where
  "UDPInterface_receive this = this\<lparr>receiving := True\<rparr>"

definition UDPInterface_setReceiveCallback :: "'ip UDPInterface \<Rightarrow> 'ip UDPInterface" where
  "UDPInterface_setReceiveCallback this = UDPInterface_receive (this\<lparr>receive_callback := True\<rparr>)"

definition UDPInterface_setDisconnectCallback :: "'ip UDPInterface \<Rightarrow> 'ip UDPInterface" where
  "UDPInterface_setDisconnectCallback this = this\<lparr>disconnect_callback := True\<rparr>"

definition setReceiveCallback :: "'ip TSocket \<Rightarrow> 'ip TSocket" where
  "setReceiveCallback this =
     this\<lparr>interfaces := (\<lambda>p. map_option UDPInterface_setReceiveCallback (interfaces this p))\<rparr>"

definition setDisconnectCallback :: "'ip TSocket \<Rightarrow> 'ip TSocket" where
  "setDisconnectCallback this =
     this\<lparr>interfaces := (\<lambda>p. map_option UDPInterface_setDisconnectCallback (interfaces this p))\<rparr>"

text \<open>The map of connections is ordered by the text of the endpoints; the text is the key here.\<close>

definition getConnection :: "'ip asio_ip \<Rightarrow> 'ip IPInterfaceEndpoint \<Rightarrow> 'ip TSocket \<Rightarrow> nat option" where
  "getConnection A endpoint this = tconnections this (IPInterfaceEndpoint_toString A endpoint)"

definition registerConnection :: "'ip asio_ip \<Rightarrow> nat \<Rightarrow> 'ip TSocket \<Rightarrow> 'ip TSocket result" where
  "registerConnection A connection this =
     bind_result (deref (conn_heap this connection)) (\<lambda>c.
       let key = IPInterfaceEndpoint_toString A (uc_endpoint c) in
       Inr (if tconnections this key = None
            then this\<lparr>tconnections := (tconnections this)(key \<mapsto> connection)\<rparr> else this))"

definition unregisterConnection :: "'ip asio_ip \<Rightarrow> nat \<Rightarrow> 'ip TSocket \<Rightarrow> 'ip TSocket result" where
  "unregisterConnection A connection this =
     bind_result (deref (conn_heap this connection)) (\<lambda>c.
       Inr (this\<lparr>tconnections := (tconnections this)(IPInterfaceEndpoint_toString A (uc_endpoint c) := None)\<rparr>))"

definition onConnect :: "'ip asio_ip \<Rightarrow> nat \<Rightarrow> 'ip TSocket \<Rightarrow> 'ip TSocket result" where
  "onConnect A this t = registerConnection A this t"

definition onDisconnect :: "'ip asio_ip \<Rightarrow> nat \<Rightarrow> 'ip TSocket \<Rightarrow> 'ip TSocket result" where
  "onDisconnect A this t = unregisterConnection A this t"

subsection \<open>UDP connections\<close>

definition udp_interface :: "'ip TSocket \<Rightarrow> 'ip UDPInterface result" where
  "udp_interface t = deref (interfaces t UDPInterface_getPrefix)"

definition UDPInterface_send :: "nat \<Rightarrow> string \<Rightarrow> 'ip TSocket \<Rightarrow> 'ip tstep" where
  "UDPInterface_send connection data t =
     bind_result (udp_interface t) (\<lambda>i.
     bind_result (deref (conn_heap t connection)) (\<lambda>c.
       if send_now i
       then Inr (t\<lparr>pending_sends := connection # pending_sends t\<rparr>,
                 [Datagram (getAsioIP (uc_endpoint c)) (getPort (uc_endpoint c)) data])
       else Inl UndefinedBehaviour))"

definition UDPConnection_send :: "nat \<Rightarrow> string \<Rightarrow> 'ip TSocket \<Rightarrow> 'ip tstep" where
  "UDPConnection_send this data t = UDPInterface_send this data t"

definition update_conn ::
  "nat \<Rightarrow> ('ip UDPConnection \<Rightarrow> 'ip UDPConnection) \<Rightarrow> 'ip TSocket \<Rightarrow> 'ip TSocket result" where
  "update_conn c f t =
     bind_result (deref (conn_heap t c)) (\<lambda>x. Inr (t\<lparr>conn_heap := (conn_heap t)(c \<mapsto> f x)\<rparr>))"

definition sendKeepAlive :: "bool \<Rightarrow> nat \<Rightarrow> 'ip TSocket \<Rightarrow> 'ip tstep" where
  "sendKeepAlive aborted this t =
     (if aborted then Inr (t, [])
      else
        bind_result (udp_interface t) (\<lambda>i.
        step_then (UDPConnection_send this UDP_KEEPALIVE_MSG t) (\<lambda>t1.
        bind_result (update_conn this (\<lambda>c. c\<lparr>conn_send_timer := Some (keepalive_timer i)\<rparr>) t1) (\<lambda>t2. Inr (t2, [])))))"

definition receivedConnect :: "'ip asio_ip \<Rightarrow> nat \<Rightarrow> 'ip TSocket \<Rightarrow> 'ip tstep" where
  "receivedConnect A this t =
     bind_result (update_conn this (\<lambda>c. c\<lparr>uc_connected := True\<rparr>) t) (\<lambda>t1.
     bind_result (onConnect A this t1) (\<lambda>t2.
       sendKeepAlive False this t2))"

text \<open>
  The two functions that run when the receive timer ends, by expiry or by being set anew.  The one of
  the inactivity timer has kept a reference to a local variable of the function that set it; the one
  of \<^verbatim>\<open>connect\<close> calls the callback stored in the connection.
\<close>

definition inactivity_handler :: "bool \<Rightarrow> nat \<Rightarrow> 'ip TSocket \<Rightarrow> 'ip tstep" where
  "inactivity_handler aborted this t = (if aborted then Inr (t, []) else Inl UndefinedBehaviour)"

definition connect_handler :: "'ip asio_ip \<Rightarrow> bool \<Rightarrow> nat \<Rightarrow> 'ip TSocket \<Rightarrow> 'ip tstep" where
  "connect_handler A aborted this t =
     bind_result (deref (conn_heap t this)) (\<lambda>c.
       if \<not> connecting_callback c then Inl BadFunctionCall
       else if \<not> aborted then
         bind_result (update_conn this (\<lambda>c. c\<lparr>uc_connected := False\<rparr>) t) (\<lambda>t1. Inr (t1, []))
       else
         bind_result (update_conn this (\<lambda>c. c\<lparr>uc_connected := True\<rparr>) t) (\<lambda>t1.
         bind_result (onConnect A this t1) (\<lambda>t2. sendKeepAlive False this t2)))"

definition timeout_handler :: "'ip asio_ip \<Rightarrow> timeout_wait \<Rightarrow> bool \<Rightarrow> nat \<Rightarrow> 'ip TSocket \<Rightarrow> 'ip tstep" where
  "timeout_handler A w = (case w of InactivityWait \<Rightarrow> inactivity_handler | ConnectWait \<Rightarrow> connect_handler A)"

text \<open>
  Setting the timer anew aborts the wait that was under way; its function, which the I/O service would
  run next, is run at once here.
\<close>

definition set_receive_timeout :: "'ip asio_ip \<Rightarrow> timeout_wait \<Rightarrow> nat \<Rightarrow> 'ip TSocket \<Rightarrow> 'ip tstep" where
  "set_receive_timeout A w this t =
     bind_result (udp_interface t) (\<lambda>i.
     bind_result (deref (conn_heap t this)) (\<lambda>c.
     bind_result (update_conn this (\<lambda>c. c\<lparr>conn_receive_timeout := Some (w, inactivity_timeout i)\<rparr>) t) (\<lambda>t1.
       case conn_receive_timeout c of
         None \<Rightarrow> Inr (t1, [])
       | Some (w0, _) \<Rightarrow> timeout_handler A w0 True this t1)))"

definition receivedKeepAlive :: "'ip asio_ip \<Rightarrow> nat \<Rightarrow> 'ip TSocket \<Rightarrow> 'ip tstep" where
  "receivedKeepAlive A this t =
     step_then (set_receive_timeout A InactivityWait this t) (\<lambda>t1.
       bind_result (update_conn this (\<lambda>c. c\<lparr>uc_connected := True\<rparr>) t1) (\<lambda>t2. Inr (t2, [])))"

text \<open>Once unregistered, the connection is gone with the last send that holds it.\<close>

definition release :: "nat \<Rightarrow> 'ip TSocket \<Rightarrow> 'ip TSocket" where
  "release c t =
     (if c \<in> ran (tconnections t) \<or> c \<in> set (pending_sends t) then t
      else t\<lparr>conn_heap := (conn_heap t)(c := None)\<rparr>)"

definition receivedDisconnect :: "'ip asio_ip \<Rightarrow> nat \<Rightarrow> 'ip TSocket \<Rightarrow> 'ip tstep" where
  "receivedDisconnect A this t =
     bind_result (udp_interface t) (\<lambda>i.
     bind_result (deref (conn_heap t this)) (\<lambda>c.
     bind_result (update_conn this (\<lambda>c. c\<lparr>conn_send_timer := None, conn_receive_timeout := None\<rparr>) t) (\<lambda>t1.
     if \<not> disconnect_callback i then Inl BadFunctionCall
     else
       bind_result (update_conn this (\<lambda>c. c\<lparr>uc_connected := False\<rparr>) t1) (\<lambda>t2.
       bind_result (onDisconnect A this t2) (\<lambda>t3.
       step_then (Inr (release this t3, [DisconnectCallback (error_code connection_reset) this]))
         (case conn_receive_timeout c of
            None \<Rightarrow> (\<lambda>t4. Inr (t4, []))
          | Some (w, _) \<Rightarrow> timeout_handler A w True this))))))"

text \<open>The callback given is not stored.\<close>

definition UDPConnection_connect :: "'ip asio_ip \<Rightarrow> nat \<Rightarrow> 'ip TSocket \<Rightarrow> 'ip tstep" where
  "UDPConnection_connect A this t =
     step_then (set_receive_timeout A ConnectWait this t) (UDPConnection_send this UDP_CONNECT_MSG)"

definition UDPConnection_new :: "'ip IPInterfaceEndpoint \<Rightarrow> 'ip UDPConnection" where
  "UDPConnection_new endpoint = \<lparr>uc_endpoint = endpoint, connecting_callback = False, uc_connected = False,
     conn_send_timer = None, conn_receive_timeout = None\<rparr>"

definition UDPConnection_connected :: "'ip UDPConnection \<Rightarrow> bool" where
  "UDPConnection_connected this = uc_connected this"

definition make_conn :: "'ip IPInterfaceEndpoint \<Rightarrow> 'ip TSocket \<Rightarrow> nat \<times> 'ip TSocket" where
  "make_conn endpoint t =
     (let c = next_conn t
      in (c, t\<lparr>conn_heap := (conn_heap t)(c \<mapsto> UDPConnection_new endpoint), next_conn := Suc c\<rparr>))"

subsection \<open>The UDP interface\<close>

definition UDPInterface_new ::
  "'ip asio_ip \<Rightarrow> (string \<Rightarrow> u16 option) \<Rightarrow> (string \<Rightarrow> int option) \<Rightarrow> ('ip \<times> u16 \<Rightarrow> unit result) \<Rightarrow> bool \<Rightarrow>
   ConfigManager \<Rightarrow> 'ip UDPInterface result" where
  "UDPInterface_new A to_u16 to_int os_bind now config =
     bind_result (bind_result (getValue Some config ''transport.udp.local_ip'') (ip_from_string A)) (\<lambda>ip.
     bind_result (getValue to_u16 config ''transport.udp.port'') (\<lambda>port.
     bind_result (getValue to_u16 config ''transport.udp.mtu'') (\<lambda>m.
     bind_result (getValue to_int config ''transport.udp.keepalive_timer'') (\<lambda>k.
     bind_result (getValue to_int config ''transport.udp.inactivity_timeout'') (\<lambda>inact.
     bind_result (os_bind (ip, port)) (\<lambda>_.
       Inr \<lparr>mtu = m, keepalive_timer = k, inactivity_timeout = inact, ui_local = (ip, port),
            receive_callback = False, disconnect_callback = False, receiving = False, send_now = now\<rparr>))))))"

definition createEndpoint :: "'ip asio_ip \<Rightarrow> 'ip IPInterfaceEndpoint" where
  "createEndpoint A = UDPInterfaceEndpoint_new A"

definition UDPInterface_connect :: "'ip asio_ip \<Rightarrow> 'ip IPInterfaceEndpoint \<Rightarrow> 'ip TSocket \<Rightarrow> 'ip tstep" where
  "UDPInterface_connect A endpoint t =
     (case make_conn endpoint t of (c, t1) \<Rightarrow> UDPConnection_connect A c t1)"

text \<open>A missing interface is inserted as a null pointer by the subscript and then called.\<close>

definition TSocket_connect :: "'ip asio_ip \<Rightarrow> 'ip IPInterfaceEndpoint \<Rightarrow> 'ip TSocket \<Rightarrow> 'ip tstep" where
  "TSocket_connect A endpoint this =
     bind_result (deref (interfaces this (ep_prefix endpoint))) (\<lambda>_. UDPInterface_connect A endpoint this)"

text \<open>A send has completed: the connection it held is released, and with it a wait of its timer.\<close>

definition UDPInterface_handleSend :: "'ip asio_ip \<Rightarrow> nat \<Rightarrow> 'ip TSocket \<Rightarrow> 'ip tstep" where
  "UDPInterface_handleSend A connection t =
     (let t1 = t\<lparr>pending_sends := remove1 connection (pending_sends t)\<rparr>;
          t2 = release connection t1
      in case (conn_heap t1 connection, conn_heap t2 connection) of
           (Some c, None) \<Rightarrow>
             (case conn_receive_timeout c of
                None \<Rightarrow> Inr (t2, [])
              | Some (w, _) \<Rightarrow> timeout_handler A w True connection t2)
         | _ \<Rightarrow> Inr (t2, []))"

definition receive_timeout_expired :: "'ip asio_ip \<Rightarrow> nat \<Rightarrow> 'ip TSocket \<Rightarrow> 'ip tstep" where
  "receive_timeout_expired A connection t =
     bind_result (deref (conn_heap t connection)) (\<lambda>c.
       case conn_receive_timeout c of
         None \<Rightarrow> Inr (t, [])
       | Some (w, _) \<Rightarrow>
           bind_result (update_conn connection (\<lambda>c. c\<lparr>conn_receive_timeout := None\<rparr>) t) (\<lambda>t1.
             timeout_handler A w False connection t1))"

definition receive_again :: "'ip TSocket \<Rightarrow> 'ip TSocket" where
  "receive_again t = t\<lparr>interfaces := (\<lambda>p. if p = UDPInterface_getPrefix
     then map_option UDPInterface_receive (interfaces t p) else interfaces t p)\<rparr>"

definition UDPInterface_handleReceive ::
  "'ip asio_ip \<Rightarrow> bool result \<Rightarrow> int \<Rightarrow> ('ip \<times> u16) \<times> string \<Rightarrow> 'ip TSocket \<Rightarrow> 'ip tstep" where
  "UDPInterface_handleReceive A outgoing_only err received t =
     (case received of ((ip, port), message) \<Rightarrow>
        step_then
          (case getConnection A (UDPInterfaceEndpoint_of ip port) t of
             Some connection \<Rightarrow>
               if message = UDP_KEEPALIVE_MSG then receivedKeepAlive A connection t
               else if message = UDP_DISCONNECT_MSG then receivedDisconnect A connection t
               else
                 bind_result (udp_interface t) (\<lambda>i.
                   if receive_callback i then Inr (t, [ReceiveCallback err connection message])
                   else Inl BadFunctionCall)
           | None \<Rightarrow>
               if message = UDP_CONNECT_MSG then
                 bind_result outgoing_only (\<lambda>only.
                   if \<not> only then
                     (case make_conn (UDPInterfaceEndpoint_of ip port) t of (c, t1) \<Rightarrow> receivedConnect A c t1)
                   else Inr (t, []))
               else Inr (t, []))
          (\<lambda>t1. Inr (receive_again t1, [])))"

subsection \<open>Incoming connections\<close>

text \<open>
  What can happen to the interface while nobody connects out and no peer falls silent: datagrams
  arrive, sends complete, the keepalive timers of connections expire.
\<close>

datatype 'ip udp_input = Arrives "'ip \<times> u16" string | SendDone nat | KeepAliveDue nat

definition udp_input_step :: "'ip asio_ip \<Rightarrow> bool \<Rightarrow> 'ip udp_input \<Rightarrow> 'ip TSocket \<Rightarrow> 'ip tstep" where
  "udp_input_step A outgoing_only inp t =
     (case inp of
        Arrives src message \<Rightarrow> UDPInterface_handleReceive A (Inr outgoing_only) 0 (src, message) t
      | SendDone c \<Rightarrow> if c \<in> set (pending_sends t) then UDPInterface_handleSend A c t else Inr (t, [])
      | KeepAliveDue c \<Rightarrow>
          (case conn_heap t c of
             Some x \<Rightarrow> if conn_send_timer x \<noteq> None then sendKeepAlive False c t else Inr (t, [])
           | None \<Rightarrow> Inr (t, [])))"

fun udp_run :: "'ip asio_ip \<Rightarrow> bool \<Rightarrow> 'ip udp_input list \<Rightarrow> 'ip TSocket \<Rightarrow> 'ip tstep" where
  "udp_run A outgoing_only [] t = Inr (t, [])"
| "udp_run A outgoing_only (i # is) t = step_then (udp_input_step A outgoing_only i t) (udp_run A outgoing_only is)"

fun received_data :: "'ip udp_event list \<Rightarrow> string list" where
  "received_data [] = []"
| "received_data (ReceiveCallback _ _ m # ev) = m # received_data ev"
| "received_data (Datagram _ _ _ # ev) = received_data ev"
| "received_data (DisconnectCallback _ _ # ev) = received_data ev"

lemma received_data_append [simp]: "received_data (xs @ ys) = received_data xs @ received_data ys"
  by (induction xs rule: received_data.induct) simp_all

text \<open>
  The abstract view: the set of peers that are connected, by the text of their endpoints, and the
  messages that come from them.
\<close>

fun peer_step ::
  "'ip asio_ip \<Rightarrow> bool \<Rightarrow> 'ip udp_input \<Rightarrow> string set \<times> string list \<Rightarrow> string set \<times> string list" where
  "peer_step A outgoing_only (Arrives (ip, port) message) (peers, data) =
     (let k = IPInterfaceEndpoint_toString A (UDPInterfaceEndpoint_of ip port) in
      if k \<in> peers then
        if message = UDP_DISCONNECT_MSG then (peers - {k}, data)
        else if message = UDP_KEEPALIVE_MSG then (peers, data)
        else (peers, data @ [message])
      else if message = UDP_CONNECT_MSG \<and> \<not> outgoing_only then (insert k peers, data)
      else (peers, data))"
| "peer_step A outgoing_only _ (peers, data) = (peers, data)"

definition tr_ready :: "'ip TSocket \<Rightarrow> bool" where
  "tr_ready t \<longleftrightarrow> (\<exists>i. interfaces t UDPInterface_getPrefix = Some i \<and> send_now i \<and> receive_callback i \<and>
     disconnect_callback i)"

definition tr_inv :: "'ip asio_ip \<Rightarrow> 'ip TSocket \<Rightarrow> bool" where
  "tr_inv A t \<longleftrightarrow> tr_ready t \<and>
     (\<forall>k c. tconnections t k = Some c \<longrightarrow>
        (\<exists>x. conn_heap t c = Some x \<and> IPInterfaceEndpoint_toString A (uc_endpoint x) = k)) \<and>
     (\<forall>c x. conn_heap t c = Some x \<longrightarrow> c < next_conn t \<and>
        (conn_receive_timeout x = None \<or> (\<exists>n. conn_receive_timeout x = Some (InactivityWait, n))))"

text \<open>A registered connection is connected and has a wait for its next keepalive.\<close>

definition timed :: "'ip TSocket \<Rightarrow> bool" where
  "timed t \<longleftrightarrow> (\<forall>k c x. tconnections t k = Some c \<longrightarrow> conn_heap t c = Some x \<longrightarrow>
     UDPConnection_connected x \<and> conn_send_timer x \<noteq> None)"

lemma timed_update:
  assumes "timed t" and "tconnections t' = tconnections t" and "conn_heap t' = (conn_heap t)(c \<mapsto> x')"
    and "UDPConnection_connected x'" and "conn_send_timer x' \<noteq> None"
  shows "timed t'"
  using assms by (auto simp: timed_def)

lemma timed_release: "timed t \<Longrightarrow> timed (release c t)"
  by (auto simp: timed_def release_def)

lemma tr_inv_conn: "tr_inv A t \<Longrightarrow> tconnections t k = Some c \<Longrightarrow>
    \<exists>x. conn_heap t c = Some x \<and> IPInterfaceEndpoint_toString A (uc_endpoint x) = k"
  by (simp add: tr_inv_def)

lemma tr_inv_timeout: "tr_inv A t \<Longrightarrow> conn_heap t c = Some x \<Longrightarrow> conn_receive_timeout x = Some (w, n) \<Longrightarrow> w = InactivityWait"
  by (fastforce simp: tr_inv_def)

lemma aborted_ok: "tr_inv A t \<Longrightarrow> conn_heap t c = Some x \<Longrightarrow> conn_receive_timeout x = Some (w, n) \<Longrightarrow>
    timeout_handler A w True c t' = Inr (t', [])"
  using tr_inv_timeout [of A t c x w n] by (simp add: timeout_handler_def inactivity_handler_def)

text \<open>Updates that keep the invariant.\<close>

lemma tr_inv_pending [simp]: "tr_inv A (t\<lparr>pending_sends := ps\<rparr>) \<longleftrightarrow> tr_inv A t"
  by (simp add: tr_inv_def tr_ready_def)

lemma tr_inv_update:
  assumes "tr_inv A t" and "conn_heap t c = Some x" and "uc_endpoint x' = uc_endpoint x"
    and "conn_receive_timeout x' = None \<or> (\<exists>n. conn_receive_timeout x' = Some (InactivityWait, n))"
  shows "tr_inv A (t\<lparr>conn_heap := (conn_heap t)(c \<mapsto> x')\<rparr>)"
  using assms by (auto simp: tr_inv_def tr_ready_def split: if_splits) (metis option.inject)+

lemma tr_inv_release: "tr_inv A t \<Longrightarrow> tr_inv A (release c t)"
  by (auto simp: release_def tr_inv_def tr_ready_def ran_def split: if_splits)

lemma release_simps [simp]:
  "tconnections (release c t) = tconnections t" "interfaces (release c t) = interfaces t"
  by (simp_all add: release_def)

lemma tr_ready_interface:
  "tr_inv A t \<Longrightarrow> \<exists>i. udp_interface t = Inr i \<and> send_now i \<and> receive_callback i \<and> disconnect_callback i"
  by (auto simp: tr_inv_def tr_ready_def udp_interface_def)

lemma keepalive_ok:
  assumes "tr_inv A t" and "conn_heap t c = Some x"
  shows "\<exists>t' n. sendKeepAlive False c t =
      Inr (t', [Datagram (ep_ip (uc_endpoint x)) (ep_port (uc_endpoint x)) UDP_KEEPALIVE_MSG]) \<and>
    tr_inv A t' \<and> tconnections t' = tconnections t \<and> conn_heap t' = (conn_heap t)(c \<mapsto> x\<lparr>conn_send_timer := Some n\<rparr>)"
proof -
  obtain i where i: "udp_interface t = Inr i" "send_now i" using tr_ready_interface [OF assms(1)] by blast
  let ?t = "t\<lparr>pending_sends := c # pending_sends t,
      conn_heap := (conn_heap t)(c \<mapsto> x\<lparr>conn_send_timer := Some (keepalive_timer i)\<rparr>)\<rparr>"
  have "sendKeepAlive False c t = Inr (?t, [Datagram (ep_ip (uc_endpoint x)) (ep_port (uc_endpoint x)) UDP_KEEPALIVE_MSG])"
    using i assms(2)
    by (simp add: sendKeepAlive_def UDPConnection_send_def UDPInterface_send_def step_then_def update_conn_def
        getAsioIP_def getPort_def)
  moreover have "conn_receive_timeout x = None \<or> (\<exists>n. conn_receive_timeout x = Some (InactivityWait, n))"
    using assms by (simp add: tr_inv_def)
  then have "tr_inv A ?t"
    using tr_inv_update [of A "t\<lparr>pending_sends := c # pending_sends t\<rparr>" c x
        "x\<lparr>conn_send_timer := Some (keepalive_timer i)\<rparr>"] assms by simp
  ultimately show ?thesis by fastforce
qed

lemma receivedKeepAlive_ok:
  assumes "tr_inv A t" and "conn_heap t c = Some x"
  shows "\<exists>t'. receivedKeepAlive A c t = Inr (t', []) \<and> tr_inv A t' \<and> tconnections t' = tconnections t \<and>
    (timed t \<and> conn_send_timer x \<noteq> None \<longrightarrow> timed t')"
proof -
  obtain i where i: "udp_interface t = Inr i" using tr_ready_interface [OF assms(1)] by blast
  let ?x = "x\<lparr>conn_receive_timeout := Some (InactivityWait, inactivity_timeout i)\<rparr>"
  have "set_receive_timeout A InactivityWait c t = Inr (t\<lparr>conn_heap := (conn_heap t)(c \<mapsto> ?x)\<rparr>, [])"
    using i assms(2) tr_inv_timeout [OF assms]
    by (auto simp: set_receive_timeout_def update_conn_def timeout_handler_def inactivity_handler_def
        split: option.split)
  then have "receivedKeepAlive A c t = Inr (t\<lparr>conn_heap := (conn_heap t)(c \<mapsto> ?x\<lparr>uc_connected := True\<rparr>)\<rparr>, [])"
    by (simp add: receivedKeepAlive_def step_then_def update_conn_def)
  moreover have "tr_inv A (t\<lparr>conn_heap := (conn_heap t)(c \<mapsto> ?x\<lparr>uc_connected := True\<rparr>)\<rparr>)"
    by (rule tr_inv_update [OF assms]) simp_all
  moreover have "timed (t\<lparr>conn_heap := (conn_heap t)(c \<mapsto> ?x\<lparr>uc_connected := True\<rparr>)\<rparr>)"
    if "timed t" "conn_send_timer x \<noteq> None"
    by (rule timed_update [OF that(1), of _ c "?x\<lparr>uc_connected := True\<rparr>"]) (use that(2) in \<open>simp_all add: UDPConnection_connected_def\<close>)
  ultimately show ?thesis by auto
qed

lemma receivedDisconnect_ok:
  assumes "tr_inv A t" and "tconnections t k = Some c"
  shows "\<exists>t'. receivedDisconnect A c t = Inr (t', [DisconnectCallback 104 c]) \<and> tr_inv A t' \<and>
    tconnections t' = (tconnections t)(k := None) \<and> (timed t \<longrightarrow> timed t')"
proof -
  obtain i where i: "udp_interface t = Inr i" "disconnect_callback i" using tr_ready_interface [OF assms(1)] by blast
  obtain x where x: "conn_heap t c = Some x" "IPInterfaceEndpoint_toString A (uc_endpoint x) = k"
    using tr_inv_conn [OF assms] by blast
  let ?x = "x\<lparr>conn_send_timer := None, conn_receive_timeout := None, uc_connected := False\<rparr>"
  let ?t = "t\<lparr>conn_heap := (conn_heap t)(c \<mapsto> ?x), tconnections := (tconnections t)(k := None)\<rparr>"
  have "receivedDisconnect A c t = Inr (release c ?t, [DisconnectCallback 104 c])"
    using i x tr_inv_timeout [OF assms(1) x(1)]
    by (auto simp: receivedDisconnect_def update_conn_def onDisconnect_def unregisterConnection_def step_then_def
        timeout_handler_def inactivity_handler_def split: option.split)
  moreover have "tr_inv A (t\<lparr>conn_heap := (conn_heap t)(c \<mapsto> ?x)\<rparr>)"
    by (rule tr_inv_update [OF assms(1) x(1)]) simp_all
  then have "tr_inv A ?t" by (simp add: tr_inv_def tr_ready_def)
  then have "tr_inv A (release c ?t)" by (rule tr_inv_release)
  moreover have "timed (release c ?t)" if "timed t"
  proof (rule timed_release)
    have "k' = k" if "tconnections t k' = Some c" for k' using tr_inv_conn [OF assms(1) that] x by auto
    with that show "timed ?t" by (auto simp: timed_def split: if_splits)
  qed
  ultimately show ?thesis by simp
qed

lemma incoming_connect_ok:
  assumes "tr_inv A t" and "make_conn e t = (c, t1)" and "tconnections t (IPInterfaceEndpoint_toString A e) = None"
  shows "\<exists>t' ev. receivedConnect A c t1 = Inr (t', ev) \<and> received_data ev = [] \<and> tr_inv A t' \<and>
    tconnections t' = (tconnections t)(IPInterfaceEndpoint_toString A e \<mapsto> c) \<and> (timed t \<longrightarrow> timed t')"
proof -
  let ?k = "IPInterfaceEndpoint_toString A e"
  let ?x = "(UDPConnection_new e)\<lparr>uc_connected := True\<rparr>"
  have c: "c = next_conn t" "t1 = t\<lparr>conn_heap := (conn_heap t)(c \<mapsto> UDPConnection_new e), next_conn := Suc c\<rparr>"
    using assms(2) by (auto simp: make_conn_def Let_def)
  let ?t = "t\<lparr>next_conn := Suc c, conn_heap := (conn_heap t)(c \<mapsto> ?x), tconnections := (tconnections t)(?k \<mapsto> c)\<rparr>"
  have "conn_heap t c = None"
  proof (rule ccontr)
    assume "conn_heap t c \<noteq> None"
    then obtain y where "conn_heap t c = Some y" by blast
    with assms(1) have "c < next_conn t" by (simp add: tr_inv_def)
    with c(1) show False by simp
  qed
  then have inv: "tr_inv A ?t"
    using assms(1) c(1) by (auto simp: tr_inv_def tr_ready_def UDPConnection_new_def less_Suc_eq split: if_splits)
  have "receivedConnect A c t1 = sendKeepAlive False c ?t"
    using assms(3)
    by (simp add: receivedConnect_def update_conn_def onConnect_def registerConnection_def c(2) UDPConnection_new_def Let_def)
  with keepalive_ok [OF inv, of c ?x] obtain t' ev n where r: "receivedConnect A c t1 = Inr (t', ev)" "received_data ev = []"
    "tr_inv A t'" "tconnections t' = (tconnections t)(?k \<mapsto> c)"
    "conn_heap t' = (conn_heap t)(c \<mapsto> ?x\<lparr>conn_send_timer := Some n\<rparr>)" by auto
  moreover have "timed t'" if "timed t"
    using that r(4,5) by (auto simp: timed_def UDPConnection_connected_def)
  ultimately show ?thesis by blast
qed

lemma tr_inv_receive_again: "tr_inv A t \<Longrightarrow> tr_inv A (receive_again t)"
  by (auto simp: tr_inv_def tr_ready_def receive_again_def UDPInterface_receive_def)

lemma tconnections_receive_again [simp]: "tconnections (receive_again t) = tconnections t"
  by (simp add: receive_again_def)

lemma timed_receive_again [simp]: "timed (receive_again t) = timed t"
  by (simp add: receive_again_def timed_def)

lemma handleSend_ok:
  assumes "tr_inv A t"
  shows "\<exists>t'. UDPInterface_handleSend A c t = Inr (t', []) \<and> tr_inv A t' \<and> tconnections t' = tconnections t \<and>
    (timed t \<longrightarrow> timed t')"
proof -
  let ?t1 = "t\<lparr>pending_sends := remove1 c (pending_sends t)\<rparr>"
  have inv: "tr_inv A (release c ?t1)" by (rule tr_inv_release) (simp add: assms)
  have "UDPInterface_handleSend A c t = Inr (release c ?t1, [])"
    using aborted_ok [OF assms]
    by (auto simp: UDPInterface_handleSend_def Let_def split: option.split)
  moreover have "timed (release c ?t1)" if "timed t"
    by (rule timed_release) (use that in \<open>simp add: timed_def\<close>)
  ultimately show ?thesis using inv by simp
qed

text \<open>After a datagram has been handled the next one is awaited.\<close>

lemma receive_again_ok:
  assumes "r = Inr (t1, ev1)" and "tr_inv A t1"
  shows "\<exists>t' ev. step_then r (\<lambda>t1. Inr (receive_again t1, [])) = Inr (t', ev) \<and> tr_inv A t' \<and>
    tconnections t' = tconnections t1 \<and> received_data ev = received_data ev1 \<and> timed t' = timed t1"
  using assms tr_inv_receive_again [of A t1] by (simp add: step_then_def)

lemmas arrival_defs = udp_input_step_def UDPInterface_handleReceive_def getConnection_def Let_def

lemma unknown_peer_ok:
  assumes "tr_inv A t" and "tconnections t (IPInterfaceEndpoint_toString A (UDPInterfaceEndpoint_of ip port)) = None"
  shows "\<exists>t' ev. udp_input_step A only (Arrives (ip, port) message) t = Inr (t', ev) \<and> tr_inv A t' \<and> (timed t \<longrightarrow> timed t') \<and>
    peer_step A only (Arrives (ip, port) message) (dom (tconnections t), data) =
      (dom (tconnections t'), data @ received_data ev)"
proof (cases "message = UDP_CONNECT_MSG \<and> \<not> only")
  case True
  obtain c t1 where c: "make_conn (UDPInterfaceEndpoint_of ip port) t = (c, t1)" by fastforce
  from incoming_connect_ok [OF assms(1) c assms(2)] obtain t' ev where r: "receivedConnect A c t1 = Inr (t', ev)"
    "received_data ev = []" "tr_inv A t'"
    "tconnections t' = (tconnections t)(IPInterfaceEndpoint_toString A (UDPInterfaceEndpoint_of ip port) \<mapsto> c)"
    "timed t \<longrightarrow> timed t'" by blast
  from receive_again_ok [OF r(1,3)] True assms(2) r show ?thesis by (auto simp: arrival_defs c)
next
  case False
  from receive_again_ok [OF refl assms(1), of "[]"] False assms(2) show ?thesis by (auto simp: arrival_defs)
qed

lemma known_peer_ok:
  assumes "tr_inv A t" and "tconnections t (IPInterfaceEndpoint_toString A (UDPInterfaceEndpoint_of ip port)) = Some c"
  shows "\<exists>t' ev. udp_input_step A only (Arrives (ip, port) message) t = Inr (t', ev) \<and> tr_inv A t' \<and> (timed t \<longrightarrow> timed t') \<and>
    peer_step A only (Arrives (ip, port) message) (dom (tconnections t), data) =
      (dom (tconnections t'), data @ received_data ev)"
proof -
  obtain x where x: "conn_heap t c = Some x" using tr_inv_conn [OF assms] by blast
  consider "message = UDP_KEEPALIVE_MSG" | "message = UDP_DISCONNECT_MSG"
    | "message \<noteq> UDP_KEEPALIVE_MSG" "message \<noteq> UDP_DISCONNECT_MSG" by blast
  then show ?thesis
  proof cases
    case 1
    from receivedKeepAlive_ok [OF assms(1) x] obtain t1 where r: "receivedKeepAlive A c t = Inr (t1, [])" "tr_inv A t1"
      "tconnections t1 = tconnections t" "timed t \<and> conn_send_timer x \<noteq> None \<longrightarrow> timed t1" by blast
    have "conn_send_timer x \<noteq> None" if "timed t" using that assms(2) x by (simp add: timed_def)
    with receive_again_ok [OF r(1,2)] 1 assms(2) r show ?thesis
      by (auto simp: arrival_defs UDP_KEEPALIVE_MSG_def UDP_DISCONNECT_MSG_def)
  next
    case 2
    from receivedDisconnect_ok [OF assms] obtain t1 where r:
      "receivedDisconnect A c t = Inr (t1, [DisconnectCallback 104 c])" "tr_inv A t1"
      "tconnections t1 = (tconnections t)(IPInterfaceEndpoint_toString A (UDPInterfaceEndpoint_of ip port) := None)"
      "timed t \<longrightarrow> timed t1" by blast
    from receive_again_ok [OF r(1,2)] 2 assms(2) r show ?thesis
      by (auto simp: arrival_defs UDP_KEEPALIVE_MSG_def UDP_DISCONNECT_MSG_def)
  next
    case 3
    obtain i where i: "udp_interface t = Inr i" "receive_callback i" using tr_ready_interface [OF assms(1)] by blast
    from receive_again_ok [OF refl assms(1), of "[ReceiveCallback 0 c message]"] 3 assms(2) i show ?thesis
      by (auto simp: arrival_defs)
  qed
qed

lemma udp_input_ok:
  assumes "tr_inv A t"
  shows "\<exists>t' ev. udp_input_step A only inp t = Inr (t', ev) \<and> tr_inv A t' \<and> (timed t \<longrightarrow> timed t') \<and>
    peer_step A only inp (dom (tconnections t), data) = (dom (tconnections t'), data @ received_data ev)"
proof (cases inp)
  case (SendDone c)
  then show ?thesis
    using handleSend_ok [OF assms, of c] assms by (auto simp: udp_input_step_def)
next
  case (KeepAliveDue c)
  show ?thesis
  proof (cases "conn_heap t c")
    case None
    with KeepAliveDue assms show ?thesis by (simp add: udp_input_step_def)
  next
    case (Some x)
    obtain t' e n where r: "sendKeepAlive False c t = Inr (t', e)" "received_data e = []" "tr_inv A t'"
      "tconnections t' = tconnections t" "conn_heap t' = (conn_heap t)(c \<mapsto> x\<lparr>conn_send_timer := Some n\<rparr>)"
      using keepalive_ok [OF assms Some] by auto
    then have "timed t'" if "timed t" using that Some by (auto simp: timed_def UDPConnection_connected_def)
    with r KeepAliveDue Some assms show ?thesis by (auto simp: udp_input_step_def)
  qed
next
  case (Arrives src message)
  obtain ip port where src: "src = (ip, port)" by (cases src)
  show ?thesis
    using unknown_peer_ok [OF assms, of ip port only message data] known_peer_ok [OF assms, of ip port _ only message data]
    unfolding Arrives src by (cases "tconnections t (IPInterfaceEndpoint_toString A (UDPInterfaceEndpoint_of ip port))") simp_all
qed

lemma udp_run_ok:
  assumes "tr_inv A t"
  shows "\<exists>t' ev. udp_run A only is t = Inr (t', ev) \<and> tr_inv A t' \<and> (timed t \<longrightarrow> timed t') \<and>
    fold (peer_step A only) is (dom (tconnections t), data) = (dom (tconnections t'), data @ received_data ev)"
  using assms
proof (induction "is" arbitrary: t data)
  case (Cons i "is")
  obtain t1 ev1 where 1: "udp_input_step A only i t = Inr (t1, ev1)" "tr_inv A t1" "timed t \<longrightarrow> timed t1"
    "peer_step A only i (dom (tconnections t), data) = (dom (tconnections t1), data @ received_data ev1)"
    using udp_input_ok [OF Cons.prems, of only i data] by blast
  from Cons.IH [OF 1(2), of "data @ received_data ev1"] obtain t2 ev2 where 2: "udp_run A only is t1 = Inr (t2, ev2)"
    "tr_inv A t2" "timed t1 \<longrightarrow> timed t2" "fold (peer_step A only) is (dom (tconnections t1), data @ received_data ev1) =
      (dom (tconnections t2), (data @ received_data ev1) @ received_data ev2)" by blast
  show ?case using 1 2 by (simp add: step_then_def)
qed simp

text \<open>What \<^verbatim>\<open>connect\<close> does: a new connection that nothing but its send holds, and the request.\<close>

lemma connect_sends:
  assumes "udp_interface t = Inr i" and "send_now i"
  shows "UDPInterface_connect A e t = Inr (t\<lparr>next_conn := Suc (next_conn t),
      conn_heap := (conn_heap t)(next_conn t \<mapsto>
        (UDPConnection_new e)\<lparr>conn_receive_timeout := Some (ConnectWait, inactivity_timeout i)\<rparr>),
      pending_sends := next_conn t # pending_sends t\<rparr>, [Datagram (ep_ip e) (ep_port e) UDP_CONNECT_MSG])"
proof -
  have i': "udp_interface (t\<lparr>conn_heap := h, next_conn := n\<rparr>) = Inr i" "udp_interface (t\<lparr>next_conn := n, conn_heap := h\<rparr>) = Inr i"
    for h n using assms(1) by (simp_all add: udp_interface_def)
  show ?thesis
    using assms(2) i'
    by (simp add: UDPInterface_connect_def make_conn_def UDPConnection_connect_def set_receive_timeout_def update_conn_def
        step_then_def UDPConnection_send_def UDPInterface_send_def UDPConnection_new_def getAsioIP_def getPort_def Let_def)
qed

lemma connect_keeps:
  assumes "UDPInterface_connect A e t = Inr (t', ev)"
  shows "interfaces t' = interfaces t \<and> tconnections t' = tconnections t"
proof (cases "udp_interface t")
  case (Inl err)
  then have "udp_interface (t\<lparr>conn_heap := h, next_conn := n\<rparr>) = Inl err" for h n by (simp add: udp_interface_def)
  with assms show ?thesis
    by (simp add: UDPInterface_connect_def make_conn_def UDPConnection_connect_def set_receive_timeout_def step_then_def
        Let_def)
next
  case (Inr i)
  show ?thesis
  proof (cases "send_now i")
    case True
    with connect_sends [OF Inr, of A e] assms show ?thesis by auto
  next
    case False
    have "udp_interface (t\<lparr>conn_heap := h, next_conn := n\<rparr>) = Inr i" "udp_interface (t\<lparr>next_conn := n, conn_heap := h\<rparr>) = Inr i"
      for h n using Inr by (simp_all add: udp_interface_def)
    with False assms show ?thesis
      by (simp add: UDPInterface_connect_def make_conn_def UDPConnection_connect_def set_receive_timeout_def update_conn_def
          step_then_def UDPConnection_send_def UDPInterface_send_def UDPConnection_new_def Let_def)
  qed
qed

subsection \<open>Properties\<close>



definition ready_interface :: "string UDPInterface" where
  "ready_interface = \<lparr>mtu = 1438, keepalive_timer = 3, inactivity_timeout = 30, ui_local = (''0::0'', 2185),
     receive_callback = True, disconnect_callback = True, receiving = True, send_now = True\<rparr>"



text \<open>
  (C40) An outgoing connection never comes to anything: the request goes out, but the connection is not
  registered, so answers of the peer do not find it; when the send completes, the last owner of the
  connection is gone and the timer's function runs on freed memory, and if the timer expires before
  that, the empty callback is called.
\<close>

theorem udp_connect_never:
  assumes "udp_interface t = Inr i" and "send_now i" and "conn_heap t (next_conn t) = None"
    and "next_conn t \<notin> ran (tconnections t)" and "next_conn t \<notin> set (pending_sends t)"
  shows "\<exists>t'. UDPInterface_connect A e t = Inr (t', [Datagram (ep_ip e) (ep_port e) UDP_CONNECT_MSG]) \<and>
    getConnection A e t' = getConnection A e t \<and>
    UDPInterface_handleSend A (next_conn t) t' = Inl UndefinedBehaviour \<and>
    receive_timeout_expired A (next_conn t) t' = Inl BadFunctionCall"
proof -
  let ?c = "next_conn t"
  let ?x = "(UDPConnection_new e)\<lparr>conn_receive_timeout := Some (ConnectWait, inactivity_timeout i)\<rparr>"
  let ?t = "t\<lparr>next_conn := Suc ?c, conn_heap := (conn_heap t)(?c \<mapsto> ?x), pending_sends := ?c # pending_sends t\<rparr>"
  have "UDPInterface_connect A e t = Inr (?t, [Datagram (ep_ip e) (ep_port e) UDP_CONNECT_MSG])"
    by (rule connect_sends [OF assms(1,2)])
  moreover have "UDPInterface_handleSend A ?c ?t = Inl UndefinedBehaviour"
    using assms(4,5)
    by (simp add: UDPInterface_handleSend_def release_def timeout_handler_def connect_handler_def Let_def)
  moreover have "receive_timeout_expired A ?c ?t = Inl BadFunctionCall"
    by (simp add: receive_timeout_expired_def update_conn_def timeout_handler_def connect_handler_def UDPConnection_new_def)
  ultimately show ?thesis by (simp add: getConnection_def)
qed

theorem udp_connect_never_witness:
  "\<exists>t'. UDPInterface_connect plain_ip (UDPInterfaceEndpoint_of ''10.0.0.7'' 2185)
       (registerInterface ready_interface TSocket_new) = Inr (t', [Datagram ''10.0.0.7'' 2185 UDP_CONNECT_MSG]) \<and>
     UDPInterface_handleSend plain_ip 0 t' = Inl UndefinedBehaviour"
  using udp_connect_never [of "registerInterface ready_interface TSocket_new" ready_interface plain_ip
      "UDPInterfaceEndpoint_of ''10.0.0.7'' 2185"]
  by (auto simp: udp_interface_def registerInterface_def TSocket_new_def ready_interface_def UDPInterfaceEndpoint_of_def
      IPInterfaceEndpoint_of_def)

text \<open>The inactivity timer runs into a dangling reference, and an unknown prefix into a null pointer.\<close>

lemma silent_peer_undefined:
  "conn_heap t c = Some x \<Longrightarrow> conn_receive_timeout x = Some (InactivityWait, n) \<Longrightarrow>
     receive_timeout_expired A c t = Inl UndefinedBehaviour"
  by (simp add: receive_timeout_expired_def update_conn_def timeout_handler_def inactivity_handler_def)

lemma connect_unknown_prefix:
  "interfaces t (ep_prefix e) = None \<Longrightarrow> TSocket_connect A e t = Inl UndefinedBehaviour"
  by (simp add: TSocket_connect_def)

end
