(* ===== verification/Discovery.thy ===== *)
theory Discovery
  imports Transport Overlay
begin

section \<open>Discovery (src/daemon/discovery)\<close>

text \<open>
  Peers are found through a file of endpoints and through multicast messages on the local network.
  Every endpoint found is connected to over the transport unless a connection to it exists.  The
  content of the file and the parser of the multicast message are arguments.
\<close>

subsection \<open>The common service (DiscoveryService.cpp)\<close>

definition generateConnectionRequest :: "('sk, 'pk) KeyProvider \<Rightarrow> overlay_message result" where
  "generateConnectionRequest pks =
     bind_result (bind_result (getKeyInfo pks 0) deref) (\<lambda>ki.
       Inr \<lparr>om_header = \<lparr>src_th = Hash_toBinaryString (ki_th ki), dest_th = None\<rparr>,
            om_body = \<lparr>open_multipayload = [], encrypted_multipayload = []\<rparr>\<rparr>)"

text \<open>The endpoint is a parameter by value; the callback given to \<^verbatim>\<open>connect\<close> is dropped there.\<close>

definition handshake :: "'ip asio_ip \<Rightarrow> 'ip SocketEndpoint \<Rightarrow> 'ip TSocket \<Rightarrow> 'ip tstep" where
  "handshake A endpoint t =
     bind_result (SocketEndpoint_copy (Suc (next_conn t)) endpoint) (\<lambda>e.
     bind_result (deref (map_option snd (se_endpoint e))) (\<lambda>x.
       if getConnection A x t = None then TSocket_connect A x t else Inr (t, [])))"

subsection \<open>Bootstrapping (BootstrapDiscovery.cpp)\<close>

text \<open>An exception that is an integer is logged and the next line read; any other leaves the loop.\<close>

fun bootstrap_lines :: "'ip asio_ip \<Rightarrow> string list \<Rightarrow> 'ip TSocket \<Rightarrow> 'ip tstep" where
  "bootstrap_lines A [] t = Inr (t, [])"
| "bootstrap_lines A (peer_readable_tse # rest) t =
     (case bind_result
             (SocketEndpoint_fromString A (\<lambda>p. getInterface p t \<noteq> None) (next_conn t) peer_readable_tse SocketEndpoint_new)
             (\<lambda>tse. handshake A tse t) of
        Inr r \<Rightarrow> step_then (Inr r) (bootstrap_lines A rest)
      | Inl (IntException e) \<Rightarrow> bootstrap_lines A rest t
      | Inl e \<Rightarrow> Inl e)"

definition BootstrapDiscovery_run ::
  "'ip asio_ip \<Rightarrow> (string \<Rightarrow> string list) \<Rightarrow> ConfigManager \<Rightarrow> 'ip TSocket \<Rightarrow> 'ip tstep" where
  "BootstrapDiscovery_run A read_lines config t =
     bind_result (getValue Some config ''discovery.bootstrap.filename'') (\<lambda>name.
       bootstrap_lines A (read_lines (getDirectory config @ name)) t)"

subsection \<open>Local peer discovery (UDPLPD.cpp, UDPLPDv4.cpp, UDPLPDv6.cpp)\<close>

text \<open>
  Receiving binds the handler of the next datagram together with a copy of the buffer as it is at that
  moment, while the datagram is written to the buffer itself.
\<close>

record 'ip UDPLPD =
  udp_buffer :: string
  bound_buffer :: "string option"
  m_timer_seconds :: u32
  timer_set :: bool
  bind_endpoint :: "'ip \<times> u16"
  target_endpoint :: "'ip \<times> u16"

definition UDPLPD_new :: "'ip asio_ip \<Rightarrow> string \<Rightarrow> 'ip UDPLPD" where
  "UDPLPD_new A initial = \<lparr>udp_buffer = initial, bound_buffer = None, m_timer_seconds = 0, timer_set = False,
     bind_endpoint = (ip_default A, 0), target_endpoint = (ip_default A, 0)\<rparr>"

definition UDPLPD_receive :: "'ip UDPLPD \<Rightarrow> 'ip UDPLPD" where
  "UDPLPD_receive this = this\<lparr>bound_buffer := Some (udp_buffer this)\<rparr>"

definition startReceiveLoop :: "'ip UDPLPD \<Rightarrow> 'ip UDPLPD" where
  "startReceiveLoop this = UDPLPD_receive this"

text \<open>\<open>parse\<close> gives the announced port of a message, \<open>None\<close> if it does not parse.\<close>

definition processReceived ::
  "'ip asio_ip \<Rightarrow> (string \<Rightarrow> u32 option) \<Rightarrow> string \<Rightarrow> nat \<Rightarrow> 'ip \<times> u16 \<Rightarrow> 'ip UDPLPD \<times> 'ip TSocket \<Rightarrow>
   (('ip UDPLPD \<times> 'ip TSocket) \<times> 'ip udp_event list) result" where
  "processReceived A parse recv_buffer recv_bytes mcast_endpoint st =
     (case st of (this, t) \<Rightarrow>
        bind_result
          (case parse (take recv_bytes recv_buffer) of
             None \<Rightarrow> Inr (t, [])
           | Some port \<Rightarrow>
               bind_result (SocketEndpoint_of (next_conn t)
                   (Some (UDPInterfaceEndpoint_of (fst mcast_endpoint) (ucast port)))) (\<lambda>e. handshake A e t))
          (\<lambda>(t1, ev). Inr ((UDPLPD_receive this, t1), ev)))"

definition lpd_arrives ::
  "'ip asio_ip \<Rightarrow> (string \<Rightarrow> u32 option) \<Rightarrow> ('ip \<times> u16) \<times> string \<Rightarrow> 'ip UDPLPD \<times> 'ip TSocket \<Rightarrow>
   (('ip UDPLPD \<times> 'ip TSocket) \<times> 'ip udp_event list) result" where
  "lpd_arrives A parse received st =
     (case received of (sender, data) \<Rightarrow> case st of (this, t) \<Rightarrow>
        case bound_buffer this of
          None \<Rightarrow> Inr (st, [])
        | Some recv_buffer \<Rightarrow>
            processReceived A parse recv_buffer (length data) sender
              (this\<lparr>udp_buffer := data @ drop (length data) (udp_buffer this), bound_buffer := None\<rparr>, t))"

definition getMulticastMessage ::
  "(string \<Rightarrow> u16 option) \<Rightarrow> (u32 \<Rightarrow> u32 \<Rightarrow> string) \<Rightarrow> ConfigManager \<Rightarrow> string result" where
  "getMulticastMessage to_u16 ser config =
     bind_result (getValue to_u16 config ''transport.udp.port'') (\<lambda>port. Inr (ser (ucast port) getMyVersion))"

text \<open>The message is a temporary string; \<open>now\<close> tells whether the operating system takes it at once.\<close>

definition UDPLPD_send ::
  "(string \<Rightarrow> u16 option) \<Rightarrow> (u32 \<Rightarrow> u32 \<Rightarrow> string) \<Rightarrow> bool \<Rightarrow> ConfigManager \<Rightarrow> 'ip UDPLPD \<Rightarrow>
   ('ip UDPLPD \<times> 'ip udp_event list) result" where
  "UDPLPD_send to_u16 ser now config this =
     bind_result (getMulticastMessage to_u16 ser config) (\<lambda>m.
       if now then Inr (this\<lparr>timer_set := False\<rparr>, [Datagram (fst (target_endpoint this)) (snd (target_endpoint this)) m])
       else Inl UndefinedBehaviour)"

definition waitBeforeSend :: "'ip UDPLPD \<Rightarrow> 'ip UDPLPD" where
  "waitBeforeSend this = this\<lparr>timer_set := True\<rparr>"

definition startSendLoop ::
  "(string \<Rightarrow> u16 option) \<Rightarrow> (u32 \<Rightarrow> u32 \<Rightarrow> string) \<Rightarrow> bool \<Rightarrow> ConfigManager \<Rightarrow> 'ip UDPLPD \<Rightarrow>
   ('ip UDPLPD \<times> 'ip udp_event list) result" where
  "startSendLoop to_u16 ser now config this = UDPLPD_send to_u16 ser now config this"

definition UDPLPD_run ::
  "(string \<Rightarrow> u16 option) \<Rightarrow> (u32 \<Rightarrow> u32 \<Rightarrow> string) \<Rightarrow> bool \<Rightarrow> ConfigManager \<Rightarrow> 'ip UDPLPD \<Rightarrow>
   ('ip UDPLPD \<times> 'ip udp_event list) result" where
  "UDPLPD_run to_u16 ser now config this = startSendLoop to_u16 ser now config (startReceiveLoop this)"

definition UDPLPDv4_readConfig ::
  "'ip asio_ip \<Rightarrow> (string \<Rightarrow> u16 option) \<Rightarrow> (string \<Rightarrow> u32 option) \<Rightarrow> ConfigManager \<Rightarrow> 'ip UDPLPD \<Rightarrow> 'ip UDPLPD result" where
  "UDPLPDv4_readConfig A to_u16 to_u32 config this =
     bind_result (getValue to_u32 config ''discovery.udpv4.timer'') (\<lambda>secs.
     bind_result (getValue to_u16 config ''discovery.udpv4.multicast.port'') (\<lambda>port.
     bind_result (bind_result (getValue Some config ''discovery.udpv4.local_ip'') (ip_from_string A)) (\<lambda>local.
     bind_result (bind_result (getValue Some config ''discovery.udpv4.multicast.ip'') (ip_from_string A)) (\<lambda>group.
       Inr (this\<lparr>m_timer_seconds := secs, bind_endpoint := (local, port), target_endpoint := (group, port)\<rparr>)))))"

definition UDPLPDv6_readConfig ::
  "'ip asio_ip \<Rightarrow> (string \<Rightarrow> u16 option) \<Rightarrow> (string \<Rightarrow> u32 option) \<Rightarrow> ConfigManager \<Rightarrow> 'ip UDPLPD \<Rightarrow> 'ip UDPLPD result" where
  "UDPLPDv6_readConfig A to_u16 to_u32 config this =
     bind_result (getValue to_u32 config ''discovery.udpv6.timer'') (\<lambda>secs.
     bind_result (getValue to_u16 config ''discovery.udpv6.multicast.port'') (\<lambda>port.
     bind_result (bind_result (getValue Some config ''discovery.udpv6.local_ip'') (ip_from_string A)) (\<lambda>local.
     bind_result (bind_result (getValue Some config ''discovery.udpv6.multicast.ip'') (ip_from_string A)) (\<lambda>group.
       Inr (this\<lparr>m_timer_seconds := secs, bind_endpoint := (local, port), target_endpoint := (group, port)\<rparr>)))))"

text \<open>\<open>os_join\<close> stands for opening the socket, joining the group of the second endpoint and binding to the first.\<close>

definition UDPLPDv4_new ::
  "'ip asio_ip \<Rightarrow> (string \<Rightarrow> u16 option) \<Rightarrow> (string \<Rightarrow> u32 option) \<Rightarrow> ('ip \<times> u16 \<Rightarrow> 'ip \<times> u16 \<Rightarrow> unit result) \<Rightarrow>
   string \<Rightarrow> ConfigManager \<Rightarrow> 'ip UDPLPD result" where
  "UDPLPDv4_new A to_u16 to_u32 os_join initial config =
     bind_result (UDPLPDv4_readConfig A to_u16 to_u32 config (UDPLPD_new A initial)) (\<lambda>this.
     bind_result (os_join (bind_endpoint this) (target_endpoint this)) (\<lambda>_. Inr this))"

definition UDPLPDv6_new ::
  "'ip asio_ip \<Rightarrow> (string \<Rightarrow> u16 option) \<Rightarrow> (string \<Rightarrow> u32 option) \<Rightarrow> ('ip \<times> u16 \<Rightarrow> 'ip \<times> u16 \<Rightarrow> unit result) \<Rightarrow>
   string \<Rightarrow> ConfigManager \<Rightarrow> 'ip UDPLPD result" where
  "UDPLPDv6_new A to_u16 to_u32 os_join initial config =
     bind_result (UDPLPDv6_readConfig A to_u16 to_u32 config (UDPLPD_new A initial)) (\<lambda>this.
     bind_result (os_join (bind_endpoint this) (target_endpoint this)) (\<lambda>_. Inr this))"

subsection \<open>What the services leave alone\<close>

lemma handshake_keeps:
  "handshake A e t = Inr (t', ev) \<Longrightarrow> interfaces t' = interfaces t \<and> tconnections t' = tconnections t"
  by (auto simp: handshake_def TSocket_connect_def result_simps dest: connect_keeps split: if_splits)

lemma bootstrap_keeps:
  "bootstrap_lines A ls t = Inr (t', ev) \<Longrightarrow> interfaces t' = interfaces t \<and> tconnections t' = tconnections t"
proof (induction ls arbitrary: t t' ev)
  case (Cons l ls)
  let ?r = "bind_result (SocketEndpoint_fromString A (\<lambda>p. getInterface p t \<noteq> None) (next_conn t) l SocketEndpoint_new)
      (\<lambda>tse. handshake A tse t)"
  show ?case
  proof (cases ?r)
    case (Inl e)
    with Cons show ?thesis by (cases e) auto
  next
    case (Inr r)
    obtain t1 ev1 where r: "r = (t1, ev1)" by (cases r)
    have "interfaces t1 = interfaces t \<and> tconnections t1 = tconnections t"
      using Inr r by (auto simp: result_simps dest: handshake_keeps)
    moreover obtain ev2 where "bootstrap_lines A ls t1 = Inr (t', ev2)"
      using Cons.prems Inr r by (auto simp: step_then_def result_simps)
    ultimately show ?thesis using Cons.IH by auto
  qed
qed simp

lemma handshake_sends:
  assumes "udp_interface t = Inr i" and "send_now i" and "tconnections t = Map.empty" and "se_endpoint e = Some (p, x)"
  shows "\<exists>t'. handshake A e t = Inr (t', [Datagram (ep_ip x) (ep_port x) UDP_CONNECT_MSG]) \<and>
    interfaces t' = interfaces t \<and> tconnections t' = Map.empty"
proof -
  let ?x = "UDPInterfaceEndpoint_clone x"
  have x: "ep_prefix ?x = ''UDP''" "ep_ip ?x = ep_ip x" "ep_port ?x = ep_port x"
    by (simp_all add: UDPInterfaceEndpoint_clone_def UDPInterfaceEndpoint_of_def IPInterfaceEndpoint_of_def getAsioIP_def
        getPort_def)
  obtain t' where c: "UDPInterface_connect A ?x t = Inr (t', [Datagram (ep_ip x) (ep_port x) UDP_CONNECT_MSG])"
    using connect_sends [OF assms(1,2), of A ?x] x by auto
  have "interfaces t ''UDP'' \<noteq> None"
    using assms(1) by (auto simp: udp_interface_def UDPInterface_getPrefix_def deref_def split: option.splits)
  then have "handshake A e t = UDPInterface_connect A ?x t"
    using assms(3,4) x(1)
    by (auto simp: handshake_def SocketEndpoint_copy_def SocketEndpoint_of_def getConnection_def TSocket_connect_def)
  with c connect_keeps [OF c] assms(3) show ?thesis by simp
qed

subsection \<open>Properties\<close>

text \<open>
  (C39) Local discovery acts on the wrong message: with two announcements of the same length in a row,
  the second one makes the daemon connect to the address that sent the second and the port that the
  first had announced.
\<close>

theorem lpd_previous_message:
  assumes "bound_buffer this = Some (udp_buffer this)" and "length d1 = length d2" and "parse d1 = Some port"
    and "udp_interface t = Inr i" and "send_now i" and "tconnections t = Map.empty"
  shows "\<exists>st1 ev1 st2. lpd_arrives A parse (s1, d1) (this, t) = Inr (st1, ev1) \<and>
    lpd_arrives A parse (s2, d2) st1 = Inr (st2, [Datagram (fst s2) (ucast port) UDP_CONNECT_MSG])"
proof -
  let ?e = "\<lambda>t s q. \<lparr>se_endpoint = Some (next_conn t, UDPInterfaceEndpoint_of (fst s) q)\<rparr>"
  let ?this1 = "this\<lparr>udp_buffer := d1 @ drop (length d1) (udp_buffer this), bound_buffer := None\<rparr>"
  have of: "SocketEndpoint_of (next_conn t) (Some (UDPInterfaceEndpoint_of (fst s) q)) = Inr (?e t s q)" for t s q
    by (simp add: SocketEndpoint_of_def UDPInterfaceEndpoint_clone_def UDPInterfaceEndpoint_of_def IPInterfaceEndpoint_of_def
        getAsioIP_def getPort_def)
  obtain t1 ev1 where 1: "lpd_arrives A parse (s1, d1) (this, t) = Inr ((UDPLPD_receive ?this1, t1), ev1)"
    "interfaces t1 = interfaces t" "tconnections t1 = Map.empty"
  proof (cases "parse (take (length d1) (udp_buffer this))")
    case None
    with assms(1,6) show ?thesis by (intro that [of t "[]"]) (simp_all add: lpd_arrives_def processReceived_def)
  next
    case (Some q)
    from handshake_sends [OF assms(4-6), of "?e t s1 (ucast q)" "next_conn t" "UDPInterfaceEndpoint_of (fst s1) (ucast q)" A]
    obtain t1 ev1 where "handshake A (?e t s1 (ucast q)) t = Inr (t1, ev1)" "interfaces t1 = interfaces t"
      "tconnections t1 = Map.empty" by auto
    with Some assms(1) show ?thesis
      by (intro that [of t1 ev1]) (simp_all add: lpd_arrives_def processReceived_def of)
  qed
  have "udp_interface t1 = Inr i" using 1(2) assms(4) by (simp add: udp_interface_def)
  from handshake_sends [OF this assms(5) 1(3), of "?e t1 s2 (ucast port)" "next_conn t1"
      "UDPInterfaceEndpoint_of (fst s2) (ucast port)" A]
  obtain t2 where "handshake A (?e t1 s2 (ucast port)) t1 = Inr (t2, [Datagram (fst s2) (ucast port) UDP_CONNECT_MSG])"
    by (auto simp: UDPInterfaceEndpoint_of_def IPInterfaceEndpoint_of_def)
  then have "\<exists>st2. lpd_arrives A parse (s2, d2) (UDPLPD_receive ?this1, t1) =
      Inr (st2, [Datagram (fst s2) (ucast port) UDP_CONNECT_MSG])"
    using assms(2,3) by (simp add: lpd_arrives_def processReceived_def UDPLPD_receive_def of)
  with 1(1) show ?thesis by blast
qed

theorem lpd_previous_message_witness:
  "\<exists>st1 ev1 st2. lpd_arrives plain_ip (\<lambda>s. if s = ''a'' then Some 7 else None) ((''10.0.0.1'', 1), ''a'')
      (UDPLPD_receive (UDPLPD_new plain_ip []), registerInterface ready_interface TSocket_new) = Inr (st1, ev1) \<and>
    lpd_arrives plain_ip (\<lambda>s. if s = ''a'' then Some 7 else None) ((''10.0.0.2'', 1), ''b'') st1 =
      Inr (st2, [Datagram ''10.0.0.2'' (ucast (7 :: u32)) UDP_CONNECT_MSG])"
  using lpd_previous_message [of "UDPLPD_receive (UDPLPD_new plain_ip [])" "''a''" "''b''"
      "\<lambda>s. if s = ''a'' then Some 7 else None" 7 "registerInterface ready_interface TSocket_new" ready_interface plain_ip
      "(''10.0.0.1'', 1)" "(''10.0.0.2'', 1)"]
  by (simp add: UDPLPD_receive_def udp_interface_def registerInterface_def TSocket_new_def ready_interface_def)

text \<open>
  Of the bootstrap file, a line whose prefix names no interface is skipped; a line with a known
  prefix whose port does not read as a number ends the reading with that exception, which the lines
  after it and the rest of the daemon's start suffer as well.
\<close>

theorem bootstrap_lines_errors:
  assumes "CHR '':'' \<notin> set pre" and "length pre + length rest_of_line + length port_text + 2 < 18446744073709551616"
  shows "(interfaces t pre = None \<longrightarrow>
      bootstrap_lines A ((pre @ '':'' @ rest_of_line) # ls) t = bootstrap_lines A ls t) \<and>
    (interfaces t pre \<noteq> None \<and> CHR '':'' \<notin> set port_text \<and> to_port A port_text = Inl e \<and> (\<forall>n. e \<noteq> IntException n) \<longrightarrow>
      bootstrap_lines A ((pre @ '':'' @ rest_of_line @ '':'' @ port_text) # ls) t = Inl e)"
proof -
  have prefix: "substr (pre @ '':'' @ r) 0 (str_find (CHR '':'') (pre @ '':'' @ r)) = Inr pre"
    if "length (pre @ '':'' @ r) < 18446744073709551616" for r
    using that substr_prefix [of pre "'':'' @ r"] str_find_append [OF assms(1), of r] by simp
  have skip: "SocketEndpoint_fromString A (\<lambda>p. getInterface p t \<noteq> None) n (pre @ '':'' @ rest_of_line) SocketEndpoint_new =
      Inl (IntException 180)" if "interfaces t pre = None" for n
    using prefix [of rest_of_line] assms(2) that
    by (simp add: SocketEndpoint_fromString_def resetEndpoint_def getInterface_def)
  have bad: "SocketEndpoint_fromString A (\<lambda>p. getInterface p t \<noteq> None) n (pre @ '':'' @ rest_of_line @ '':'' @ port_text)
      SocketEndpoint_new = Inl e"
    if "interfaces t pre \<noteq> None" "CHR '':'' \<notin> set port_text" "to_port A port_text = Inl e" for n
    using prefix [of "rest_of_line @ '':'' @ port_text"] assms(2) that fromString_parts [OF assms(1) that(2), of rest_of_line A]
    by (simp add: SocketEndpoint_fromString_def resetEndpoint_def getInterface_def)
  show ?thesis
  proof (intro conjI impI)
    assume "interfaces t pre = None"
    from skip [OF this] show "bootstrap_lines A ((pre @ '':'' @ rest_of_line) # ls) t = bootstrap_lines A ls t" by simp
  next
    assume "interfaces t pre \<noteq> None \<and> CHR '':'' \<notin> set port_text \<and> to_port A port_text = Inl e \<and> (\<forall>n. e \<noteq> IntException n)"
    then show "bootstrap_lines A ((pre @ '':'' @ rest_of_line @ '':'' @ port_text) # ls) t = Inl e"
      using bad by (cases e) simp_all
  qed
qed

theorem bootstrap_lines_errors_witness:
  "bootstrap_lines plain_ip [''UDP'' @ '':'' @ ''10.0.0.1'' @ '':'' @ ''x'', ''UDP:10.0.0.2:2185'']
     (registerInterface ready_interface TSocket_new) = Inl (LibraryException ''boost::bad_lexical_cast'')"
  using bootstrap_lines_errors [of "''UDP''" "''10.0.0.1''" "''x''" "registerInterface ready_interface TSocket_new" plain_ip
      "[''UDP:10.0.0.2:2185'']" "LibraryException ''boost::bad_lexical_cast''"]
  by (simp add: registerInterface_def TSocket_new_def UDPInterface_getPrefix_def plain_ip_def)

end
