(* ===== verification/Daemon_Main.thy ===== *)
theory Daemon_Main
  imports Discovery API_Server
begin

section \<open>The daemon (src/daemon/Daemon.cpp)\<close>

text \<open>
  The start of the daemon: transport, overlay, discovery services and programming interface, each
  under its configuration switch.  What the operating system and the libraries say to it is the record
  \<open>daemon_io\<close>.  The main loop that follows runs the handlers modelled in the other theories.
\<close>

record ('ip, 'sk, 'pk) daemon_io =
  io_ip :: "'ip asio_ip"
  io_env :: environment
  io_to_bool :: "string \<Rightarrow> bool option"
  io_to_u16 :: "string \<Rightarrow> u16 option"
  io_to_u32 :: "string \<Rightarrow> u32 option"
  io_to_int :: "string \<Rightarrow> int option"
  io_bind :: "'ip \<times> u16 \<Rightarrow> unit result"
  io_join :: "'ip \<times> u16 \<Rightarrow> 'ip \<times> u16 \<Rightarrow> unit result"
  io_send_now :: bool
  io_acceptor :: "string \<Rightarrow> boost_error"
  io_lines :: "string \<Rightarrow> string list"
  io_ser_lpd :: "u32 \<Rightarrow> u32 \<Rightarrow> string"
  io_buffer :: string
  io_ecdsa :: "('sk, 'pk) botan_ecdsa"
  io_keccak :: "string \<Rightarrow> bytes"
  io_now :: time_point
  io_fresh :: 'sk

text \<open>The configuration is an argument of \<^verbatim>\<open>run\<close>; the bootstrap service has no state of its own.\<close>

record ('ip, 'sk, 'pk, 'dh, 'tc, 'cb, 'pr) Daemon =
  m_transport_socket :: "'ip TSocket"
  m_overlay_socket :: "('sk, 'pk, 'dh, 'tc, 'cb, 'pr) OSocket"
  discovery_udpv4 :: "'ip UDPLPD option"
  discovery_udpv6 :: "'ip UDPLPD option"
  api_manager :: "UnixAPIServer list"

definition Daemon_new :: "singleton \<Rightarrow> nat \<times> singleton" where
  "Daemon_new s = Singleton_getInstance s"

definition Daemon_delete :: "singleton \<Rightarrow> singleton result" where
  "Daemon_delete s = Singleton_clear s"

text \<open>The handler of \<^verbatim>\<open>boost::system::system_error\<close>, which logs.\<close>

definition catch_system_error :: "'a result \<Rightarrow> 'a option result" where
  "catch_system_error r =
     (case r of
        Inr x \<Rightarrow> Inr (Some x)
      | Inl e \<Rightarrow> if e = LibraryException ''boost::system::system_error'' then Inr None else Inl e)"

definition init_transport :: "('ip, 'sk, 'pk) daemon_io \<Rightarrow> ConfigManager \<Rightarrow> 'ip TSocket result" where
  "init_transport io config =
     bind_result (getValue (io_to_bool io) config ''transport.udp.enabled'') (\<lambda>enabled.
       if enabled then
         bind_result (catch_system_error (UDPInterface_new (io_ip io) (io_to_u16 io) (io_to_int io) (io_bind io)
             (io_send_now io) config)) (\<lambda>i.
           Inr (case i of Some m_udp_interface \<Rightarrow> registerInterface m_udp_interface TSocket_new | None \<Rightarrow> TSocket_new))
       else Inr TSocket_new)"

definition init_bootstrap :: "('ip, 'sk, 'pk) daemon_io \<Rightarrow> ConfigManager \<Rightarrow> 'ip TSocket \<Rightarrow> 'ip tstep" where
  "init_bootstrap io config t =
     bind_result (getValue Some config ''discovery.bootstrap.filename'') (\<lambda>name.
       if name \<noteq> [] then BootstrapDiscovery_run (io_ip io) (io_lines io) config t else Inr (t, []))"

definition init_udpv4 :: "('ip, 'sk, 'pk) daemon_io \<Rightarrow> ConfigManager \<Rightarrow> 'ip UDPLPD option result" where
  "init_udpv4 io config =
     bind_result (getValue (io_to_bool io) config ''discovery.udpv4.enabled'') (\<lambda>enabled.
       if enabled then
         catch_system_error
           (bind_result (UDPLPDv4_new (io_ip io) (io_to_u16 io) (io_to_u32 io) (io_join io) (io_buffer io) config) (\<lambda>l.
            bind_result (startSendLoop (io_to_u16 io) (io_ser_lpd io) (io_send_now io) config (startReceiveLoop l))
              (\<lambda>(l1, _). Inr l1)))
       else Inr None)"

definition init_udpv6 :: "('ip, 'sk, 'pk) daemon_io \<Rightarrow> ConfigManager \<Rightarrow> 'ip UDPLPD option result" where
  "init_udpv6 io config =
     bind_result (getValue (io_to_bool io) config ''discovery.udpv6.enabled'') (\<lambda>enabled.
       if enabled then
         catch_system_error
           (bind_result (UDPLPDv6_new (io_ip io) (io_to_u16 io) (io_to_u32 io) (io_join io) (io_buffer io) config) (\<lambda>l.
            bind_result (startSendLoop (io_to_u16 io) (io_ser_lpd io) (io_send_now io) config (startReceiveLoop l))
              (\<lambda>(l1, _). Inr l1)))
       else Inr None)"

definition Daemon_run :: "('ip, 'sk, 'pk) daemon_io \<Rightarrow> ConfigManager \<Rightarrow> ('ip, 'sk, 'pk, 'dh, 'tc, 'cb, 'pr) Daemon result" where
  "Daemon_run io config =
     bind_result (init_transport io config) (\<lambda>t.
     bind_result (OSocket_new (io_ecdsa io) (io_keccak io) (io_to_u32 io) config (io_now io) (io_fresh io)) (\<lambda>overlay.
     bind_result (init_bootstrap io config t) (\<lambda>(t1, _).
     bind_result (init_udpv4 io config) (\<lambda>l4.
     bind_result (init_udpv6 io config) (\<lambda>l6.
     bind_result (APIManager_new (io_to_bool io) (io_acceptor io) (io_env io) config) (\<lambda>api.
       Inr \<lparr>m_transport_socket = t1, m_overlay_socket = overlay, discovery_udpv4 = l4, discovery_udpv6 = l6, api_manager = api\<rparr>))))))"

text \<open>
  The program: the daemon takes the configuration, which is read then, and runs.  An exception that
  leaves \<^verbatim>\<open>run\<close> leaves \<^verbatim>\<open>main\<close>, which ends the process.
\<close>

definition daemon_main ::
  "('ip, 'sk, 'pk) daemon_io \<Rightarrow> (string \<Rightarrow> config_t option) \<Rightarrow> ('ip, 'sk, 'pk, 'dh, 'tc, 'cb, 'pr) Daemon result" where
  "daemon_main io read_json =
     (case Daemon_run io (fst (ConfigManager_new (io_env io) read_json)) of
        Inl UndefinedBehaviour \<Rightarrow> Inl UndefinedBehaviour
      | Inl _ \<Rightarrow> Inl Terminate
      | Inr d \<Rightarrow> Inr d)"

subsection \<open>Properties\<close>

lemma UDPInterface_new_quiet:
  "UDPInterface_new A c16 ci bind now config = Inr i \<Longrightarrow> \<not> receiving i \<and> \<not> receive_callback i"
  by (auto simp: UDPInterface_new_def result_simps)

lemma catch_system_error_Some: "catch_system_error r = Inr (Some x) \<Longrightarrow> r = Inr x"
  by (auto simp: catch_system_error_def split: sum.splits if_splits)

lemma init_transport_quiet:
  assumes "init_transport io config = Inr t" and "interfaces t p = Some i"
  shows "\<not> receiving i \<and> \<not> receive_callback i"
  using assms by (auto simp: init_transport_def TSocket_new_def registerInterface_def result_simps
      dest!: catch_system_error_Some UDPInterface_new_quiet split: if_splits option.splits)

text \<open>
  (C38) The daemon never listens to its peers: once it has started, the UDP interface has no receive
  callback and no read under way, so no datagram of a peer is ever handled; the overlay socket is
  wired to nothing, it has no connection and no processor.
\<close>

theorem daemon_never_receives:
  assumes "Daemon_run io config = Inr d" and "getInterface p (m_transport_socket d) = Some i"
  shows "\<not> receiving i \<and> \<not> receive_callback i \<and> connections (m_overlay_socket d) = Map.empty \<and>
    processors (m_overlay_socket d) = []"
proof -
  have overlay: "connections (m_overlay_socket d) = Map.empty \<and> processors (m_overlay_socket d) = []"
    using assms(1) by (auto simp: Daemon_run_def OSocket_new_def result_simps)
  obtain t t1 ev where t: "init_transport io config = Inr t" "init_bootstrap io config t = Inr (t1, ev)"
    "m_transport_socket d = t1"
    using assms(1) by (auto simp: Daemon_run_def result_simps)
  have "interfaces t1 = interfaces t"
    using t(2) by (auto simp: init_bootstrap_def BootstrapDiscovery_run_def result_simps dest: bootstrap_keeps
        split: if_splits)
  with assms(2) t init_transport_quiet [OF t(1)] overlay show ?thesis by (simp add: getInterface_def)
qed

definition example_config :: ConfigManager where
  "example_config = \<lparr>internal_config = [''transport.udp.enabled'' \<mapsto> ''true'', ''transport.udp.local_ip'' \<mapsto> ''0::0'',
       ''transport.udp.port'' \<mapsto> '''', ''transport.udp.mtu'' \<mapsto> '''', ''transport.udp.keepalive_timer'' \<mapsto> '''',
       ''transport.udp.inactivity_timeout'' \<mapsto> '''', ''discovery.bootstrap.filename'' \<mapsto> '''',
       ''discovery.udpv4.enabled'' \<mapsto> '''', ''discovery.udpv6.enabled'' \<mapsto> '''', ''api.unix.enabled'' \<mapsto> '''', ''overlay.key_provider.history_size'' \<mapsto> '''',
       ''overlay.key_provider.renew_interval'' \<mapsto> '''', ''overlay.connection.limit'' \<mapsto> ''''],
     internal_config_defaults = Map.empty, config_directory = [], config_file = []\<rparr>"

definition example_io :: "(string, nat, nat) daemon_io" where
  "example_io = \<lparr>io_ip = plain_ip, io_env = \<lparr>env_config_dir = None, env_uid = 0, env_home = None, env_pw_dir = []\<rparr>,
     io_to_bool = (\<lambda>s. Some (s = ''true'')), io_to_u16 = (\<lambda>_. Some 1), io_to_u32 = (\<lambda>_. Some 1), io_to_int = (\<lambda>_. Some 1),
     io_bind = (\<lambda>_. Inr ()), io_join = (\<lambda>_ _. Inr ()), io_send_now = True, io_acceptor = (\<lambda>_. no_error),
     io_lines = (\<lambda>_. []), io_ser_lpd = (\<lambda>_ _. []), io_buffer = [], io_ecdsa = plain_ecdsa, io_keccak = bytes_of_string, io_now = 0, io_fresh = 3\<rparr>"

theorem daemon_never_receives_witness:
  "\<exists>(d :: (string, nat, nat, unit, unit, unit, unit) Daemon) i. Daemon_run example_io example_config = Inr d \<and>
     getInterface ''UDP'' (m_transport_socket d) = Some i \<and> \<not> receiving i"
proof -
  obtain kp where kp: "KeyProvider_new plain_ecdsa bytes_of_string 1 1 0 3 = Inr kp"
    using KeyProvider_history [of 1 plain_ecdsa bytes_of_string 1 0 3 "[]"] by (auto simp: result_simps)
  obtain d :: "(string, nat, nat, unit, unit, unit, unit) Daemon" and i
    where d: "Daemon_run example_io example_config = Inr d" "getInterface ''UDP'' (m_transport_socket d) = Some i"
    by (simp add: Daemon_run_def init_transport_def init_bootstrap_def init_udpv4_def init_udpv6_def APIManager_new_def
        OSocket_new_def kp example_io_def example_config_def getValue_def ptree_get_def UDPInterface_new_def
        catch_system_error_def plain_ip_def registerInterface_def TSocket_new_def UDPInterface_getPrefix_def
        getInterface_def)
  from daemon_never_receives [OF d] d show ?thesis by blast
qed


subsection \<open>Starting with the defaults\<close>

text \<open>What the property tree library documents: what it writes for a value it reads as that value.\<close>

definition reads_settings :: "('ip, 'sk, 'pk) daemon_io \<Rightarrow> bool" where
  "reads_settings io \<longleftrightarrow> (\<forall>b. io_to_bool io (show_bool b) = Some b) \<and>
     (\<forall>n<65536. io_to_u16 io (show_nat n) = Some (word_of_nat n)) \<and>
     (\<forall>n<4294967296. io_to_u32 io (show_nat n) = Some (word_of_nat n)) \<and>
     (\<forall>n<2147483648. io_to_int io (show_nat n) = Some (int n))"

text \<open>The operating system gives a socket or an error of the kind the daemon catches.\<close>

definition os_answers :: "unit result \<Rightarrow> bool" where
  "os_answers r \<longleftrightarrow> r = Inr () \<or> r = Inl (LibraryException ''boost::system::system_error'')"

text \<open>The four addresses among the defaults, as the address library reads them.\<close>

definition default_addresses :: "('ip, 'sk, 'pk) daemon_io \<Rightarrow> 'ip \<times> 'ip \<times> 'ip \<times> 'ip \<Rightarrow> bool" where
  "default_addresses io ips \<longleftrightarrow> (case ips of (any6, any4, group4, group6) \<Rightarrow>
     ip_from_string (io_ip io) ''0::0'' = Inr any6 \<and> ip_from_string (io_ip io) ''0.0.0.0'' = Inr any4 \<and>
     ip_from_string (io_ip io) ''239.192.152.144'' = Inr group4 \<and> ip_from_string (io_ip io) ''ff08::BD02'' = Inr group6)"

definition default_paths :: "environment \<Rightarrow> string list" where
  "default_paths env =
     (if env_uid env = 0 then [] else [getDefaultDirectory env @ ''unix_api.sock'']) @ [''/var/run/p2pnet/unix_api.sock'']"

text \<open>What the process finds: no configuration file and no bootstrap file, and the answers above.\<close>

definition plain_start :: "('ip, 'sk, 'pk) daemon_io \<Rightarrow> (string \<Rightarrow> config_t option) \<Rightarrow> bool" where
  "plain_start io read_json \<longleftrightarrow>
     read_json (getDefaultDirectory (io_env io) @ getDefaultFile) = None \<and>
     io_lines io (getDefaultDirectory (io_env io) @ ''bootstrap.txt'') = [] \<and> io_send_now io \<and> reads_settings io \<and>
     (\<forall>e. os_answers (io_bind io e)) \<and> (\<forall>b t. os_answers (io_join io b t))"

lemma default_setting:
  assumes "plain_start io read_json" and "(path, v) \<in> set default_settings" and "conv v = Some x"
  shows "getValue conv (fst (ConfigManager_new (io_env io) read_json)) path = Inr x"
  by (rule config_default [OF assms(2)]) (use assms(1,3) in \<open>simp_all add: plain_start_def\<close>)

lemma reads_setting:
  assumes "reads_settings io"
  shows "io_to_bool io (show_bool b) = Some b" and "n < 65536 \<Longrightarrow> io_to_u16 io (show_nat n) = Some (word_of_nat n)"
    and "n < 4294967296 \<Longrightarrow> io_to_u32 io (show_nat n) = Some (word_of_nat n)"
    and "n < 2147483648 \<Longrightarrow> io_to_int io (show_nat n) = Some (int n)"
  using assms by (simp_all add: reads_settings_def)

lemma start_transport:
  assumes "plain_start io read_json" and "default_addresses io (any6, any4, group4, group6)"
  shows "init_transport io (fst (ConfigManager_new (io_env io) read_json)) = Inr
    (if io_bind io (any6, 2185) = Inr () then
       registerInterface \<lparr>mtu = 1438, keepalive_timer = 3, inactivity_timeout = 30, ui_local = (any6, 2185),
         receive_callback = False, disconnect_callback = False, receiving = False, send_now = True\<rparr> TSocket_new
     else TSocket_new)"
proof -
  note get = default_setting [OF assms(1)]
  have reads: "reads_settings io" "io_send_now io" "os_answers (io_bind io (any6, 2185))"
    using assms(1) by (simp_all add: plain_start_def)
  let ?c = "fst (ConfigManager_new (io_env io) read_json)"
  have "getValue (io_to_bool io) ?c ''transport.udp.enabled'' = Inr True"
    by (rule get [of _ "show_bool True"]) (simp_all add: default_settings_def reads_setting [OF reads(1)])
  moreover have "getValue Some ?c ''transport.udp.local_ip'' = Inr ''0::0''"
    by (rule get) (simp_all add: default_settings_def)
  moreover have "getValue (io_to_u16 io) ?c ''transport.udp.port'' = Inr 2185"
    by (rule get [of _ "show_nat 2185"]) (simp_all add: default_settings_def reads_setting [OF reads(1)])
  moreover have "getValue (io_to_u16 io) ?c ''transport.udp.mtu'' = Inr 1438"
    by (rule get [of _ "show_nat 1438"]) (simp_all add: default_settings_def reads_setting [OF reads(1)])
  moreover have "getValue (io_to_int io) ?c ''transport.udp.keepalive_timer'' = Inr 3"
    by (rule get [of _ "show_nat 3"]) (simp_all add: default_settings_def reads_setting [OF reads(1)])
  moreover have "getValue (io_to_int io) ?c ''transport.udp.inactivity_timeout'' = Inr 30"
    by (rule get [of _ "show_nat 30"]) (simp_all add: default_settings_def reads_setting [OF reads(1)])
  ultimately show ?thesis
    using assms(2) reads(2,3) unfolding os_answers_def
    by (elim disjE) (simp_all add: init_transport_def UDPInterface_new_def default_addresses_def catch_system_error_def)
qed

lemma start_overlay:
  assumes "plain_start io read_json"
  shows "\<exists>overlay :: ('sk, 'pk, 'dh, 'tc, 'cb, 'pr) OSocket.
    OSocket_new (io_ecdsa io) (io_keccak io) (io_to_u32 io) (fst (ConfigManager_new (io_env io) read_json)) (io_now io) (io_fresh io) =
      Inr overlay \<and> maximum_connections overlay = 1000 \<and> max_history_size (key_provider overlay) = 11 \<and>
    length (history (key_provider overlay)) = 1"
proof -
  note get = default_setting [OF assms]
  have reads: "reads_settings io" using assms by (simp add: plain_start_def)
  let ?c = "fst (ConfigManager_new (io_env io) read_json)"
  have "getValue (io_to_u32 io) ?c ''overlay.key_provider.history_size'' = Inr 10"
    by (rule get [of _ "show_nat 10"]) (simp_all add: default_settings_def reads_setting [OF reads])
  moreover have "getValue (io_to_u32 io) ?c ''overlay.key_provider.renew_interval'' = Inr 600"
    by (rule get [of _ "show_nat 600"]) (simp_all add: default_settings_def reads_setting [OF reads])
  moreover have "getValue (io_to_u32 io) ?c ''overlay.connection.limit'' = Inr 1000"
    by (rule get [of _ "show_nat 1000"]) (simp_all add: default_settings_def reads_setting [OF reads])
  moreover obtain kp where "KeyProvider_new (io_ecdsa io) (io_keccak io) 10 600 (io_now io) (io_fresh io) = Inr kp"
    "length (history kp) = 1" "max_history_size kp = 11"
    using renewKeys_history [of "\<lparr>history = [], max_history_size = 11, expiration_interval = 600, lose_interval = 6600,
        timer_expiry = None, rotations_posted = 0\<rparr>" "io_ecdsa io" "io_keccak io" "io_now io" "io_fresh io"]
    by (auto simp: KeyProvider_new_def loopGenerate_def)
  ultimately show ?thesis by (simp add: OSocket_new_def)
qed

text \<open>The two services of local peer discovery differ in the names of their settings and in their addresses.\<close>

definition lpd_started :: "string \<Rightarrow> 'ip \<times> u16 \<Rightarrow> 'ip \<times> u16 \<Rightarrow> 'ip UDPLPD" where
  "lpd_started initial local target = \<lparr>udp_buffer = initial, bound_buffer = Some initial, m_timer_seconds = 10,
     timer_set = False, bind_endpoint = local, target_endpoint = target\<rparr>"

lemma start_udpv4:
  assumes "plain_start io read_json" and "default_addresses io (any6, any4, group4, group6)"
  shows "init_udpv4 io (fst (ConfigManager_new (io_env io) read_json)) = Inr
    (if io_join io (any4, 28915) (group4, 28915) = Inr () then
       Some (lpd_started (io_buffer io) (any4, 28915) (group4, 28915)) else None)"
proof -
  note get = default_setting [OF assms(1)]
  have reads: "reads_settings io" "io_send_now io" "os_answers (io_join io (any4, 28915) (group4, 28915))"
    using assms(1) by (simp_all add: plain_start_def)
  let ?c = "fst (ConfigManager_new (io_env io) read_json)"
  have "getValue (io_to_bool io) ?c ''discovery.udpv4.enabled'' = Inr True"
    by (rule get [of _ "show_bool True"]) (simp_all add: default_settings_def reads_setting [OF reads(1)])
  moreover have "getValue (io_to_u32 io) ?c ''discovery.udpv4.timer'' = Inr 10"
    by (rule get [of _ "show_nat 10"]) (simp_all add: default_settings_def reads_setting [OF reads(1)])
  moreover have "getValue (io_to_u16 io) ?c ''discovery.udpv4.multicast.port'' = Inr 28915"
    by (rule get [of _ "show_nat 28915"]) (simp_all add: default_settings_def reads_setting [OF reads(1)])
  moreover have "getValue Some ?c ''discovery.udpv4.local_ip'' = Inr ''0.0.0.0''"
    by (rule get) (simp_all add: default_settings_def)
  moreover have "getValue Some ?c ''discovery.udpv4.multicast.ip'' = Inr ''239.192.152.144''"
    by (rule get) (simp_all add: default_settings_def)
  moreover have "getValue (io_to_u16 io) ?c ''transport.udp.port'' = Inr 2185"
    by (rule get [of _ "show_nat 2185"]) (simp_all add: default_settings_def reads_setting [OF reads(1)])
  ultimately show ?thesis
    using assms(2) reads(2,3) unfolding os_answers_def
    by (elim disjE) (simp_all add: init_udpv4_def UDPLPDv4_new_def UDPLPDv4_readConfig_def UDPLPD_new_def
        default_addresses_def catch_system_error_def startSendLoop_def UDPLPD_send_def startReceiveLoop_def
        UDPLPD_receive_def getMulticastMessage_def lpd_started_def)
qed

lemma start_udpv6:
  assumes "plain_start io read_json" and "default_addresses io (any6, any4, group4, group6)"
  shows "init_udpv6 io (fst (ConfigManager_new (io_env io) read_json)) = Inr
    (if io_join io (any6, 28915) (group6, 28915) = Inr () then
       Some (lpd_started (io_buffer io) (any6, 28915) (group6, 28915)) else None)"
proof -
  note get = default_setting [OF assms(1)]
  have reads: "reads_settings io" "io_send_now io" "os_answers (io_join io (any6, 28915) (group6, 28915))"
    using assms(1) by (simp_all add: plain_start_def)
  let ?c = "fst (ConfigManager_new (io_env io) read_json)"
  have "getValue (io_to_bool io) ?c ''discovery.udpv6.enabled'' = Inr True"
    by (rule get [of _ "show_bool True"]) (simp_all add: default_settings_def reads_setting [OF reads(1)])
  moreover have "getValue (io_to_u32 io) ?c ''discovery.udpv6.timer'' = Inr 10"
    by (rule get [of _ "show_nat 10"]) (simp_all add: default_settings_def reads_setting [OF reads(1)])
  moreover have "getValue (io_to_u16 io) ?c ''discovery.udpv6.multicast.port'' = Inr 28915"
    by (rule get [of _ "show_nat 28915"]) (simp_all add: default_settings_def reads_setting [OF reads(1)])
  moreover have "getValue Some ?c ''discovery.udpv6.local_ip'' = Inr ''0::0''"
    by (rule get) (simp_all add: default_settings_def)
  moreover have "getValue Some ?c ''discovery.udpv6.multicast.ip'' = Inr ''ff08::BD02''"
    by (rule get) (simp_all add: default_settings_def)
  moreover have "getValue (io_to_u16 io) ?c ''transport.udp.port'' = Inr 2185"
    by (rule get [of _ "show_nat 2185"]) (simp_all add: default_settings_def reads_setting [OF reads(1)])
  ultimately show ?thesis
    using assms(2) reads(2,3) unfolding os_answers_def
    by (elim disjE) (simp_all add: init_udpv6_def UDPLPDv6_new_def UDPLPDv6_readConfig_def UDPLPD_new_def
        default_addresses_def catch_system_error_def startSendLoop_def UDPLPD_send_def startReceiveLoop_def
        UDPLPD_receive_def getMulticastMessage_def lpd_started_def)
qed

lemma first_path:
  "ps \<noteq> [] \<Longrightarrow> listen_paths acceptor_error ps =
     (case filter (\<lambda>p. \<not> is_error (acceptor_error p)) ps of
        [] \<Rightarrow> Inl (LibraryException ''boost::system::system_error'') | p # _ \<Rightarrow> Inr (Some p))"
  by (induction acceptor_error ps rule: listen_paths.induct) auto

lemma start_api:
  assumes "plain_start io read_json"
  shows "APIManager_new (io_to_bool io) (io_acceptor io) (io_env io) (fst (ConfigManager_new (io_env io) read_json)) = Inr
    (map (\<lambda>p. APIServer_new\<lparr>acceptor_ptr := Some p, socket_path := p, accept_pending := True\<rparr>)
      (take 1 (filter (\<lambda>p. \<not> is_error (io_acceptor io p)) (default_paths (io_env io)))))"
proof -
  note get = default_setting [OF assms]
  have reads: "reads_settings io" using assms by (simp add: plain_start_def)
  let ?c = "fst (ConfigManager_new (io_env io) read_json)"
  have "getValue (io_to_bool io) ?c ''api.unix.enabled'' = Inr True"
    by (rule get [of _ "show_bool True"]) (simp_all add: default_settings_def reads_setting [OF reads])
  moreover have "getValue (io_to_bool io) ?c ''api.unix.disable_user_sock'' = Inr False"
    by (rule get [of _ "show_bool False"]) (simp_all add: default_settings_def reads_setting [OF reads])
  moreover have "getValue Some ?c ''api.unix.user_sock_name'' = Inr ''unix_api.sock''"
    by (rule get) (simp_all add: default_settings_def)
  moreover have "getValue Some ?c ''api.unix.system_sock_path'' = Inr ''/var/run/p2pnet/unix_api.sock''"
    by (rule get) (simp_all add: default_settings_def)
  ultimately have "getValue (io_to_bool io) ?c ''api.unix.enabled'' = Inr True"
    "getSocketPathList (io_to_bool io) (io_env io) ?c = Inr (default_paths (io_env io))"
    by (simp_all add: getSocketPathList_def default_paths_def getPermissions_def ConfigManager_new_directory)
  moreover have "default_paths (io_env io) \<noteq> []" by (simp add: default_paths_def)
  ultimately show ?thesis
    by (simp add: APIManager_new_def UnixAPIServer_new_def first_path UnixAPIServer_accept_def split: list.split)
qed


text \<open>A process that has all it needs, except that the operating system refuses the IPv6 multicast group.\<close>

definition start_io :: "(string, nat, nat) daemon_io" where
  "start_io = example_io\<lparr>io_to_u16 := (\<lambda>s. Some (word_of_nat (decimal_value s))),
     io_to_u32 := (\<lambda>s. Some (word_of_nat (decimal_value s))), io_to_int := (\<lambda>s. Some (int (decimal_value s))),
     io_join := (\<lambda>_ (target, _). if target = ''ff08::BD02'' then Inl (LibraryException ''boost::system::system_error'') else Inr ())\<rparr>"

lemma start_io_plain:
  "plain_start start_io (\<lambda>_. None)" "default_addresses start_io (''0::0'', ''0.0.0.0'', ''239.192.152.144'', ''ff08::BD02'')"
  by (simp_all add: plain_start_def reads_settings_def os_answers_def default_addresses_def start_io_def example_io_def
      plain_ip_def show_bool_def split: prod.split)


end
